(* ===== verification/Prelude.thy ===== *)
theory Prelude
  imports Main "HOL-Library.Word"
begin

section \<open>Shared vocabulary and generic lemmas\<close>

text \<open>
  What every component uses: the collections of rewrite rules the component proofs draw on,
  the Go error values, SQL's UPDATE and SELECT over a table kept as a list of rows, and the
  truncation of a Go \<open>int\<close> to \<open>int32\<close>.
  A Go string is a byte sequence, which is what HOL's \<open>string\<close> is: \<open>char\<close> has 256 values.
\<close>

named_theorems store_defs \<open>definitions of the SQL statements\<close>
named_theorems io_defs \<open>definitions of the calls to the outside world\<close>
named_theorems frame \<open>fields of the world that an operation leaves alone\<close>

type_synonym uuid = "128 word"

text \<open>
  Errors as values: \<open>NoRows\<close> is \<open>pgx.ErrNoRows\<close>, \<open>PgError\<close> carries the SQLSTATE of a
  \<open>pgconn.PgError\<close>, \<open>ConnError\<close> is any other failure of a call (connection, context,
  daemon), \<open>NotStarted\<close> is an error wrapping the dispatcher's \<open>errNotStarted\<close>, and
  \<open>Failure\<close> any other error made with \<open>fmt.Errorf\<close>, with its text.
\<close>

datatype err = NoRows | PgError string | ConnError | NotStarted string | Failure string

type_synonym 'a result = "err + 'a"

abbreviation nil_err :: "unit result" where
  "nil_err \<equiv> Inr ()"

subsection \<open>SQL over lists of rows\<close>

definition update_where :: "('a \<Rightarrow> bool) \<Rightarrow> ('a \<Rightarrow> 'a) \<Rightarrow> 'a list \<Rightarrow> 'a list" where
  "update_where p f rs = map (\<lambda>r. if p r then f r else r) rs"

definition count_where :: "('a \<Rightarrow> bool) \<Rightarrow> 'a list \<Rightarrow> nat" where
  "count_where p rs = length (filter p rs)"

lemma update_where_Nil [simp]: "update_where p f [] = []"
  by (simp add: update_where_def)

lemma update_where_Cons [simp]:
  "update_where p f (r # rs) = (if p r then f r else r) # update_where p f rs"
  by (simp add: update_where_def)

lemma update_where_append [simp]:
  "update_where p f (xs @ ys) = update_where p f xs @ update_where p f ys"
  by (simp add: update_where_def)

lemma length_update_where [simp]: "length (update_where p f rs) = length rs"
  by (simp add: update_where_def)

lemma set_update_where:
  "set (update_where p f rs) = (\<lambda>r. if p r then f r else r) ` set rs"
  by (simp add: update_where_def)

lemma in_update_where:
  "r' \<in> set (update_where p f rs) \<longleftrightarrow> (\<exists>r\<in>set rs. r' = (if p r then f r else r))"
  by (auto simp: set_update_where)

lemma map_key_update_where:
  "(\<And>r. k (f r) = k r) \<Longrightarrow> map k (update_where p f rs) = map k rs"
  by (induction rs) auto

lemma update_where_id: "(\<And>r. r \<in> set rs \<Longrightarrow> \<not> p r) \<Longrightarrow> update_where p f rs = rs"
  by (induction rs) auto

lemma count_where_Nil [simp]: "count_where p [] = 0"
  by (simp add: count_where_def)

lemma count_where_Cons [simp]:
  "count_where p (r # rs) = (if p r then Suc (count_where p rs) else count_where p rs)"
  by (simp add: count_where_def)

lemma count_where_append [simp]:
  "count_where p (xs @ ys) = count_where p xs + count_where p ys"
  by (simp add: count_where_def)

lemma count_where_zero: "count_where p rs = 0 \<longleftrightarrow> (\<forall>r\<in>set rs. \<not> p r)"
  by (induction rs) auto

lemma count_where_update_le:
  "(\<And>r. r \<in> set rs \<Longrightarrow> p r \<Longrightarrow> q (f r) \<Longrightarrow> q r) \<Longrightarrow>
   count_where q (update_where p f rs) \<le> count_where q rs"
  by (induction rs) (auto simp: le_SucI)

text \<open>With a unique key, a lookup finds the row that is in the table.\<close>

lemma find_unique:
  assumes "distinct (map k rs)" and "r \<in> set rs" and "p r"
    and "\<And>s. s \<in> set rs \<Longrightarrow> p s \<Longrightarrow> k s = k r"
  shows "find p rs = Some r"
  using assms
proof (induction rs)
  case Nil
  then show ?case by simp
next
  case (Cons a rs)
  show ?case
  proof (cases "p a")
    case True
    then have "k a = k r" using Cons.prems(4) by simp
    moreover have "k a \<noteq> k r" if "r \<in> set rs"
      using that Cons.prems(1) by (metis distinct.simps(2) image_eqI list.set_map list.simps(9))
    ultimately have "a = r" using Cons.prems(2) by auto
    with True show ?thesis by simp
  next
    case False
    with Cons.prems have "r \<in> set rs" by auto
    moreover have "distinct (map k rs)" using Cons.prems(1) by simp
    ultimately have "find p rs = Some r"
      using Cons.IH Cons.prems(3,4) by (meson list.set_intros(2))
    with False show ?thesis by simp
  qed
qed

lemma find_SomeD: "find p rs = Some r \<Longrightarrow> r \<in> set rs \<and> p r"
  by (induction rs) (auto split: if_splits)

lemma find_absent: "k r = v \<Longrightarrow> v \<notin> k ` set rs \<Longrightarrow> find (\<lambda>a. k a = v) (rs @ [r]) = Some r"
  by (induction rs) auto

lemma find_None: "find p rs = None \<longleftrightarrow> (\<forall>r\<in>set rs. \<not> p r)"
  by (induction rs) auto

lemma distinct_map_eq:
  "distinct (map k rs) \<Longrightarrow> r \<in> set rs \<Longrightarrow> s \<in> set rs \<Longrightarrow> k r = k s \<Longrightarrow> r = s"
  by (simp add: distinct_map inj_on_def)

subsection \<open>Tables that only grow\<close>

text \<open>
  \<open>grows R xs ys\<close>: every row of \<open>xs\<close> is still at its place in \<open>ys\<close>, changed only as
  \<open>R\<close> allows, and rows may have been added behind them.
\<close>

definition grows :: "('a \<Rightarrow> 'a \<Rightarrow> bool) \<Rightarrow> 'a list \<Rightarrow> 'a list \<Rightarrow> bool" where
  "grows R xs ys \<longleftrightarrow> length xs \<le> length ys \<and> (\<forall>i<length xs. R (xs ! i) (ys ! i))"

lemma grows_refl [simp, intro]: "(\<And>r. R r r) \<Longrightarrow> grows R xs xs"
  by (simp add: grows_def)

lemma grows_trans: "transp R \<Longrightarrow> grows R xs ys \<Longrightarrow> grows R ys zs \<Longrightarrow> grows R xs zs"
  unfolding grows_def transp_def by (meson le_trans order_less_le_trans)

lemma grows_append [simp]: "(\<And>r. R r r) \<Longrightarrow> grows R xs (xs @ zs)"
  by (simp add: grows_def nth_append)

lemma grows_update_where:
  assumes "\<And>r. R r r" and "\<And>r. r \<in> set xs \<Longrightarrow> p r \<Longrightarrow> R r (f r)"
  shows "grows R xs (update_where p f xs)"
  using assms by (simp add: grows_def update_where_def)

lemma grows_in:
  assumes "grows R xs ys" and "x \<in> set xs"
  obtains y where "y \<in> set ys" and "R x y"
proof -
  from assms(2) obtain i where "i < length xs" and "x = xs ! i" by (metis in_set_conv_nth)
  with assms(1) have "ys ! i \<in> set ys" and "R x (ys ! i)"
    by (auto simp: grows_def)
  then show thesis by (rule that)
qed

lemma grows_eq_subset: "grows (=) xs ys \<Longrightarrow> set xs \<subseteq> set ys"
  by (auto elim: grows_in)

lemma grows_image:
  "(\<And>a b. R a b \<Longrightarrow> k a = k b) \<Longrightarrow> grows R xs ys \<Longrightarrow> k ` set xs \<subseteq> k ` set ys"
  by (metis (no_types, lifting) grows_in image_eqI image_subsetI)

subsection \<open>Machine integers\<close>

text \<open>Go's conversion \<open>int32(n)\<close>: the low 32 bits, read as two's complement.\<close>

definition to_int32 :: "int \<Rightarrow> int" where
  "to_int32 n = (n + 2 ^ 31) mod 2 ^ 32 - 2 ^ 31"

lemma to_int32_range: "- (2 ^ 31) \<le> to_int32 n \<and> to_int32 n < 2 ^ 31"
  by (simp add: to_int32_def)

lemma to_int32_id: "- (2 ^ 31) \<le> n \<Longrightarrow> n < 2 ^ 31 \<Longrightarrow> to_int32 n = n"
  by (simp add: to_int32_def)

lemma to_int32_word: "to_int32 n = sint (word_of_int n :: 32 word)"
  by (simp add: to_int32_def int_word_sint)

text \<open>Go's integer division truncates towards zero.\<close>

definition go_div :: "int \<Rightarrow> int \<Rightarrow> int" where
  "go_div a b = sgn a * sgn b * (\<bar>a\<bar> div \<bar>b\<bar>)"

lemma go_div_pos: "0 \<le> a \<Longrightarrow> 0 < b \<Longrightarrow> go_div a b = a div b"
  by (cases "a = 0") (simp_all add: go_div_def)

subsection \<open>Disjoint case analysis of results\<close>

lemma sum_Inr_cases: "(case r of Inl e \<Rightarrow> Inl e | Inr a \<Rightarrow> f a) = Inr b \<Longrightarrow> \<exists>a. r = Inr a \<and> f a = Inr b"
  by (auto split: sum.splits)

end
