(* ===== verification/Go_Strings.thy ===== *)
theory Go_Strings
  imports Prelude
begin

section \<open>The part of Go's string library the program uses\<close>

text \<open>
  \<open>strings\<close>, \<open>unicode/utf8\<close>, \<open>strconv\<close> and \<open>encoding/hex\<close>, over byte strings.
  Unicode's case table is data of the Go distribution: the mapping of code points from 128 on
  is the parameter \<open>ul\<close> of \<open>ToLower\<close>; the ASCII part is written out.
\<close>

abbreviation byte :: "char \<Rightarrow> nat" where
  "byte c \<equiv> of_char c"

definition bytes :: "nat list \<Rightarrow> string" where
  "bytes ns = map char_of ns"

subsection \<open>UTF-8\<close>

definition is_cont :: "nat \<Rightarrow> bool" where
  "is_cont b \<longleftrightarrow> 128 \<le> b \<and> b \<le> 191"

text \<open>
  \<open>utf8.DecodeRuneInString\<close>: the first code point and its width; an invalid or truncated
  sequence is \<open>U+FFFD\<close> with width 1.
\<close>

definition lead_range :: "nat \<Rightarrow> (nat \<times> nat \<times> nat) option" where
  \<comment> \<open>length of the sequence and the range of its second byte\<close>
  "lead_range b =
     (if 194 \<le> b \<and> b \<le> 223 then Some (2, 128, 191)
      else if b = 224 then Some (3, 160, 191)
      else if b = 237 then Some (3, 128, 159)
      else if 225 \<le> b \<and> b \<le> 239 then Some (3, 128, 191)
      else if b = 240 then Some (4, 144, 191)
      else if 241 \<le> b \<and> b \<le> 243 then Some (4, 128, 191)
      else if b = 244 then Some (4, 128, 143)
      else None)"

fun decode_bytes :: "nat list \<Rightarrow> (nat \<times> nat) option" where
  "decode_bytes [] = None"
| "decode_bytes (b # bs) =
     (if b < 128 then Some (b, 1)
      else (case lead_range b of
          None \<Rightarrow> None
        | Some (n, lo, hi) \<Rightarrow>
            (case bs of
               [] \<Rightarrow> None
             | c # cs \<Rightarrow>
                 if c < lo \<or> hi < c then None
                 else if n = 2 then Some ((b - 192) * 64 + (c - 128), 2)
                 else (case cs of
                     [] \<Rightarrow> None
                   | d # ds \<Rightarrow>
                       if \<not> is_cont d then None
                       else if n = 3
                         then Some ((b - 224) * 4096 + (c - 128) * 64 + (d - 128), 3)
                       else (case ds of
                           [] \<Rightarrow> None
                         | e # _ \<Rightarrow>
                             if \<not> is_cont e then None
                             else Some ((b - 240) * 262144 + (c - 128) * 4096
                                        + (d - 128) * 64 + (e - 128), 4))))))"

definition decode_rune :: "string \<Rightarrow> nat \<times> nat" where
  "decode_rune s = (case decode_bytes (map byte (take 4 s)) of Some p \<Rightarrow> p | None \<Rightarrow> (65533, 1))"

lemma decode_bytes_width: "decode_bytes bs = Some (r, n) \<Longrightarrow> 1 \<le> n"
  by (cases bs) (auto split: if_splits option.splits list.splits)

lemma decode_rune_width: "1 \<le> snd (decode_rune s)"
  by (auto simp: decode_rune_def dest: decode_bytes_width split: option.splits)

text \<open>\<open>for _, r := range s\<close>.\<close>

function range_runes :: "string \<Rightarrow> nat list" where
  "range_runes s =
     (if s = [] then []
      else fst (decode_rune s) # range_runes (drop (snd (decode_rune s)) s))"
  by pat_completeness auto
termination
proof (relation "measure length")
  fix s :: string
  assume "s \<noteq> []"
  then show "(drop (snd (decode_rune s)) s, s) \<in> measure length"
    using decode_rune_width [of s] by (cases s) auto
qed simp

declare range_runes.simps [simp del]

text \<open>\<open>utf8.AppendRune\<close>.\<close>

definition encode_rune :: "nat \<Rightarrow> string" where
  "encode_rune r =
     (if r < 128 then bytes [r]
      else if r < 2048 then bytes [192 + r div 64, 128 + r mod 64]
      else if 1114111 < r \<or> 55296 \<le> r \<and> r \<le> 57343 then bytes [239, 191, 189]
      else if r < 65536 then bytes [224 + r div 4096, 128 + r div 64 mod 64, 128 + r mod 64]
      else bytes [240 + r div 262144, 128 + r div 4096 mod 64,
                  128 + r div 64 mod 64, 128 + r mod 64])"

text \<open>Is the string valid UTF-8? (What a TEXT column of a UTF-8 database accepts, apart from NUL.)\<close>

function valid_utf8 :: "string \<Rightarrow> bool" where
  "valid_utf8 s =
     (if s = [] then True
      else (case decode_bytes (map byte (take 4 s)) of
         None \<Rightarrow> False
       | Some (r, n) \<Rightarrow> valid_utf8 (drop n s)))"
  by pat_completeness auto
termination
  by (relation "measure length") (auto dest!: decode_bytes_width)

declare valid_utf8.simps [simp del]

definition is_ascii :: "string \<Rightarrow> bool" where
  "is_ascii s \<longleftrightarrow> (\<forall>c\<in>set s. byte c < 128)"

lemma decode_rune_ascii [simp]: "byte c < 128 \<Longrightarrow> decode_rune (c # s) = (byte c, 1)"
  by (simp add: decode_rune_def numeral_eq_Suc)

lemma range_runes_Nil [simp]: "range_runes [] = []"
  by (simp add: range_runes.simps)

lemma range_runes_ascii_Cons [simp]:
  "byte c < 128 \<Longrightarrow> range_runes (c # s) = byte c # range_runes s"
  by (simp add: range_runes.simps [of "c # s"])

lemma valid_utf8_Nil [simp]: "valid_utf8 []"
  by (simp add: valid_utf8.simps)

lemma valid_utf8_ascii_Cons [simp]:
  "byte c < 128 \<Longrightarrow> valid_utf8 (c # s) = valid_utf8 s"
  by (simp add: valid_utf8.simps [of "c # s"] numeral_eq_Suc)

lemma valid_utf8_ascii_append: "is_ascii s \<Longrightarrow> valid_utf8 (s @ t) = valid_utf8 t"
  by (induction s) (auto simp: is_ascii_def)

lemma range_runes_ascii: "is_ascii s \<Longrightarrow> range_runes s = map byte s"
  by (induction s) (auto simp: is_ascii_def)

subsection \<open>Case and white space\<close>

definition rune_lower :: "(nat \<Rightarrow> nat) \<Rightarrow> nat \<Rightarrow> nat" where
  "rune_lower ul r = (if r < 128 then (if 65 \<le> r \<and> r \<le> 90 then r + 32 else r) else ul r)"

definition ToLower :: "(nat \<Rightarrow> nat) \<Rightarrow> string \<Rightarrow> string" where
  "ToLower ul s = concat (map (\<lambda>r. encode_rune (rune_lower ul r)) (range_runes s))"

definition ascii_lower :: "char \<Rightarrow> char" where
  "ascii_lower c = (if 65 \<le> byte c \<and> byte c \<le> 90 then char_of (byte c + 32) else c)"

lemma encode_rune_ascii: "r < 128 \<Longrightarrow> encode_rune r = [char_of r]"
  by (simp add: encode_rune_def bytes_def)

lemma ToLower_Nil [simp]: "ToLower ul [] = []"
  by (simp add: ToLower_def)

lemma ToLower_ascii_Cons [simp]:
  "byte c < 128 \<Longrightarrow> ToLower ul (c # s) = ascii_lower c # ToLower ul s"
  by (simp add: ToLower_def rune_lower_def encode_rune_ascii ascii_lower_def)

lemma ToLower_ascii: "is_ascii s \<Longrightarrow> ToLower ul s = map ascii_lower s"
  by (induction s) (auto simp: is_ascii_def)

text \<open>
  \<open>unicode.IsSpace\<close> as the byte sequences of the white-space code points: six ASCII ones,
  U+0085, U+00A0, U+1680, U+2000 to U+200A, U+2028, U+2029, U+202F, U+205F and U+3000.
  At an end of a string each is decoded exactly when its bytes stand there.
\<close>

definition space_seqs :: "string list" where
  "space_seqs = map bytes
     ([[9], [10], [11], [12], [13], [32], [194, 133], [194, 160], [225, 154, 128]]
      @ map (\<lambda>b. [226, 128, b]) [128..<139]
      @ [[226, 128, 168], [226, 128, 169], [226, 128, 175], [226, 129, 159], [227, 128, 128]])"

function strip :: "string list \<Rightarrow> string \<Rightarrow> string" where
  "strip ps s =
     (case find (\<lambda>p. p \<noteq> [] \<and> take (length p) s = p) ps of
        None \<Rightarrow> s
      | Some p \<Rightarrow> strip ps (drop (length p) s))"
  by pat_completeness auto
termination
proof (relation "measure (\<lambda>(ps, s). length s)")
  fix ps s p
  assume "find (\<lambda>p. p \<noteq> [] \<and> take (length p) s = p) ps = Some p"
  then have "p \<noteq> []" and "take (length p) s = p" by (auto dest: find_SomeD)
  then show "((ps, drop (length p) s), (ps, s)) \<in> measure (\<lambda>(ps, s). length s)"
    by (cases s) auto
qed simp

declare strip.simps [simp del]

definition TrimSpace :: "string \<Rightarrow> string" where
  "TrimSpace s = rev (strip (map rev space_seqs) (rev (strip space_seqs s)))"

lemma strip_suffix: "\<exists>t. s = t @ strip ps s"
proof (induction ps s rule: strip.induct)
  case (1 ps s)
  show ?case
  proof (cases "find (\<lambda>p. p \<noteq> [] \<and> take (length p) s = p) ps")
    case None
    then show ?thesis by (simp add: strip.simps [of ps s])
  next
    case (Some p)
    with "1.IH" obtain t where "drop (length p) s = t @ strip ps (drop (length p) s)" by blast
    then have "s = (take (length p) s @ t) @ strip ps (drop (length p) s)"
      by (metis append.assoc append_take_drop_id)
    moreover have "strip ps s = strip ps (drop (length p) s)"
      using Some by (simp add: strip.simps [of ps s])
    ultimately show ?thesis by metis
  qed
qed

lemma TrimSpace_infix: "\<exists>l r. s = l @ TrimSpace s @ r"
proof -
  obtain l where l: "s = l @ strip space_seqs s" using strip_suffix by blast
  obtain r where "rev (strip space_seqs s) = r @ strip (map rev space_seqs) (rev (strip space_seqs s))"
    using strip_suffix by blast
  then have "strip space_seqs s = TrimSpace s @ rev r"
    unfolding TrimSpace_def by (metis rev_append rev_rev_ident)
  with l show ?thesis by metis
qed

lemma length_TrimSpace: "length (TrimSpace s) \<le> length s"
proof -
  obtain l r where "s = l @ TrimSpace s @ r" using TrimSpace_infix by blast
  then have "length s = length l + length (TrimSpace s) + length r"
    by (metis add.assoc length_append)
  then show ?thesis by simp
qed

text \<open>Printable ASCII is not white space.\<close>

definition graphic :: "string \<Rightarrow> bool" where
  "graphic s \<longleftrightarrow> list_all (\<lambda>c. 33 \<le> byte c \<and> byte c < 127) s"

lemma strip_stop:
  assumes "\<And>p. p \<in> set ps \<Longrightarrow> p \<noteq> [] \<Longrightarrow> s \<noteq> [] \<Longrightarrow> hd p \<noteq> hd s"
  shows "strip ps s = s"
proof -
  have "p = [] \<or> take (length p) s \<noteq> p" if "p \<in> set ps" for p
    using assms [OF that] by (cases p; cases s) auto
  then have "find (\<lambda>p. p \<noteq> [] \<and> take (length p) s = p) ps = None" by (auto simp: find_None)
  then show ?thesis by (simp add: strip.simps)
qed

lemma space_seq_ends:
  "\<forall>p\<in>set space_seqs. \<not> (33 \<le> byte (hd p) \<and> byte (hd p) < 127)
      \<and> \<not> (33 \<le> byte (last p) \<and> byte (last p) < 127)"
  by code_simp

lemma TrimSpace_graphic: "graphic s \<Longrightarrow> TrimSpace s = s"
proof -
  assume g: "graphic s"
  have "strip space_seqs s = s"
    using g space_seq_ends by (intro strip_stop) (force simp: graphic_def list_all_iff)
  moreover have "strip (map rev space_seqs) (rev s) = rev s"
    using g space_seq_ends by (intro strip_stop) (force simp: graphic_def list_all_iff hd_rev)
  ultimately show ?thesis by (simp add: TrimSpace_def)
qed

lemma graphic_ascii: "graphic s \<Longrightarrow> is_ascii s"
  by (force simp: graphic_def is_ascii_def list_all_iff)

subsection \<open>Prefixes, cuts and replacement\<close>

definition CutPrefix :: "string \<Rightarrow> string \<Rightarrow> string \<times> bool" where
  "CutPrefix s p = (if take (length p) s = p then (drop (length p) s, True) else (s, False))"

definition HasSuffix :: "string \<Rightarrow> string \<Rightarrow> bool" where
  "HasSuffix s p \<longleftrightarrow> length p \<le> length s \<and> drop (length s - length p) s = p"

text \<open>\<open>strings.Cut\<close> at a one-byte separator.\<close>

fun Cut :: "string \<Rightarrow> char \<Rightarrow> string \<times> string \<times> bool" where
  "Cut [] c = ([], [], False)"
| "Cut (a # s) c =
     (if a = c then ([], s, True)
      else (case Cut s c of (l, r, ok) \<Rightarrow> (a # l, r, ok)))"

lemma CutPrefix_True: "CutPrefix s p = (rest, True) \<Longrightarrow> s = p @ rest"
  by (auto simp: CutPrefix_def split: if_splits) (metis append_take_drop_id)

lemma Cut_append: "c \<notin> set l \<Longrightarrow> Cut (l @ c # r) c = (l, r, True)"
  by (induction l) auto

lemma Cut_True: "Cut s c = (l, r, True) \<Longrightarrow> s = l @ c # r \<and> c \<notin> set l"
  by (induction s arbitrary: l) (auto split: if_splits prod.splits)

lemma Cut_False: "\<not> snd (snd (Cut s c)) \<Longrightarrow> c \<notin> set s"
  by (induction s) (auto split: if_splits prod.splits)

subsection \<open>Numbers\<close>

fun utoa :: "nat \<Rightarrow> string" where
  "utoa n = (if n < 10 then [char_of (48 + n)] else utoa (n div 10) @ [char_of (48 + n mod 10)])"

declare utoa.simps [simp del]

definition Itoa :: "int \<Rightarrow> string" where
  "Itoa i = (if i < 0 then CHR ''-'' # utoa (nat (- i)) else utoa (nat i))"

definition is_digit :: "char \<Rightarrow> bool" where
  "is_digit c \<longleftrightarrow> 48 \<le> byte c \<and> byte c \<le> 57"

definition digits_val :: "string \<Rightarrow> nat" where
  "digits_val s = foldl (\<lambda>n c. 10 * n + (byte c - 48)) 0 s"

text \<open>\<open>strconv.Atoi\<close> on a 64-bit platform: \<open>None\<close> is a syntax or range error.\<close>

definition Atoi :: "string \<Rightarrow> int option" where
  "Atoi s =
     (let neg = (case s of c # _ \<Rightarrow> c = CHR ''-'' | [] \<Rightarrow> False);
          ds = (case s of c # cs \<Rightarrow> if c = CHR ''-'' \<or> c = CHR ''+'' then cs else s | [] \<Rightarrow> s);
          v = (if neg then - int (digits_val ds) else int (digits_val ds))
      in if ds = [] \<or> \<not> list_all is_digit ds then None
         else if v < - (2 ^ 63) \<or> 2 ^ 63 \<le> v then None
         else Some v)"

lemma Atoi_range: "Atoi s = Some v \<Longrightarrow> - (2 ^ 63) \<le> v \<and> v < 2 ^ 63"
  by (auto simp: Atoi_def Let_def split: if_splits)

text \<open>\<open>strconv.ParseBool\<close>.\<close>

definition ParseBool :: "string \<Rightarrow> bool option" where
  "ParseBool s =
     (if s \<in> {''1'', ''t'', ''T'', ''TRUE'', ''true'', ''True''} then Some True
      else if s \<in> {''0'', ''f'', ''F'', ''FALSE'', ''false'', ''False''} then Some False
      else None)"

subsection \<open>Hexadecimal\<close>

definition hex_digit :: "nat \<Rightarrow> char" where
  "hex_digit n = (if n < 10 then char_of (48 + n) else char_of (87 + n))"

definition hex_encode :: "string \<Rightarrow> string" where
  "hex_encode s = concat (map (\<lambda>c. [hex_digit (byte c div 16), hex_digit (byte c mod 16)]) s)"

lemma length_hex_encode [simp]: "length (hex_encode s) = 2 * length s"
  by (induction s) (auto simp: hex_encode_def)

lemma hex_digit_range: "n < 16 \<Longrightarrow> byte (hex_digit n) \<in> {48..57} \<union> {97..102}"
  by (auto simp: hex_digit_def)

lemma hex_encode_chars: "c \<in> set (hex_encode s) \<Longrightarrow> byte c \<in> {48..57} \<union> {97..102}"
proof (induction s)
  case Nil
  then show ?case by (simp add: hex_encode_def)
next
  case (Cons a s)
  have "byte a < 256" by (metis nat_of_char_less_256)
  then have "byte a div 16 < 16" by (intro less_mult_imp_div_less) simp
  then have "byte (hex_digit (byte a div 16)) \<in> {48..57} \<union> {97..102}"
    by (rule hex_digit_range)
  moreover have "byte (hex_digit (byte a mod 16)) \<in> {48..57} \<union> {97..102}"
    by (rule hex_digit_range) simp
  moreover have "c = hex_digit (byte a div 16) \<or> c = hex_digit (byte a mod 16) \<or> c \<in> set (hex_encode s)"
    using Cons.prems by (auto simp: hex_encode_def)
  ultimately show ?case using Cons.IH by metis
qed

lemma hex_no_dot: "CHR ''.'' \<notin> set (hex_encode s)"
  using hex_encode_chars [of "CHR ''.''" s] by auto

lemma utoa_nonempty [simp]: "utoa n \<noteq> []"
  by (subst utoa.simps) simp

lemma utoa_digits: "c \<in> set (utoa n) \<Longrightarrow> is_digit c"
proof (induction n rule: utoa.induct)
  case (1 n)
  show ?case
  proof (cases "n < 10")
    case True
    with "1.prems" show ?thesis by (subst (asm) utoa.simps) (auto simp: is_digit_def)
  next
    case False
    then have "c \<in> set (utoa (n div 10)) \<or> c = char_of (48 + n mod 10)"
      using "1.prems" by (subst (asm) utoa.simps) auto
    then show ?thesis
    proof
      assume "c \<in> set (utoa (n div 10))"
      with False show ?thesis by (rule "1.IH")
    next
      assume "c = char_of (48 + n mod 10)"
      moreover have "n mod 10 < 10" by simp
      ultimately show ?thesis by (auto simp: is_digit_def)
    qed
  qed
qed

end
