(* ===== verification/World.thy ===== *)
theory World
  imports Go_Strings
begin

section \<open>The tables, the messages and the outside world\<close>

text \<open>
  The rows of the Postgres tables (\<open>internal/store/storedb/models.go\<close>), the queue messages
  (\<open>internal/nats/publish.go\<close>), the record of external code the program calls, and the world
  every operation runs in. A nullable column is an \<open>option\<close>; a \<open>pgtype.UUID\<close> parameter is a
  \<open>uuid option\<close>, \<open>None\<close> for one that is not valid (NULL).

  Each call to Postgres, NATS, Docker, DNS or a webhook receiver consumes one \<open>event\<close> of the
  world's script: how long the call took, what other processes did to the database before it,
  whether it failed (and if so, whether the statement took effect all the same), and what the
  remote side answered. An exhausted script is a quiet world in which every call succeeds at
  once. Theorems quantify over the script, so they hold for every behaviour of the outside.
\<close>

subsection \<open>Rows\<close>

record user =
  u_id :: uuid
  u_email :: string
  u_username :: string
  u_password_hash :: string
  u_created_at :: int

record tenant =
  t_id :: uuid
  t_slug :: string
  t_namespace :: string
  t_tier :: string
  t_created_at :: int

record membership =
  m_user_id :: uuid
  m_tenant_id :: uuid
  m_role :: string
  m_created_at :: int

record api_key =
  k_id :: string
  k_user_id :: uuid
  k_tenant_id :: uuid
  k_name :: string
  k_secret_hash :: string
  k_created_at :: int
  k_revoked_at :: "int option"

record execution =
  e_id :: uuid
  e_tenant_id :: uuid
  e_language :: string
  e_status :: string
  e_source :: string
  e_stdin :: string
  e_stdout :: string
  e_stderr :: string
  e_exit_code :: "int option"
  e_created_at :: int
  e_updated_at :: int
  e_timeout_s :: int
  e_webhook_url :: "string option"
  e_submitted_by_user_id :: "uuid option"
  e_submitted_by_api_key_id :: "string option"

record refresh_token =
  r_jti :: uuid
  r_user_id :: uuid
  r_expires_at :: int
  r_revoked_at :: "int option"
  r_created_at :: int

record db =
  users :: "user list"
  tenants :: "tenant list"
  memberships :: "membership list"
  api_keys :: "api_key list"
  executions :: "execution list"
  refresh_tokens :: "refresh_token list"
  schema_migrations :: "string list"

subsection \<open>Messages\<close>

record submit_message =
  sm_execution_id :: string
  sm_tenant_id :: string
  sm_language :: string

record result_message =
  rm_execution_id :: string
  rm_tenant_id :: string
  rm_status :: string
  rm_exit_code :: "int option"

text \<open>
  What a message on the wire decodes to: \<open>json.Marshal\<close> of a message struct gives its
  payload, \<open>json.Unmarshal\<close> gives the struct back, and any other bytes are \<open>Garbage\<close>.
\<close>

datatype payload = Submit submit_message | Result result_message | Garbage string

fun unmarshal_submit :: "payload \<Rightarrow> submit_message option" where
  "unmarshal_submit (Submit m) = Some m"
| "unmarshal_submit (Result m) =
     \<comment> \<open>both structs share execution_id and tenant_id; a missing language is the empty string\<close>
     Some \<lparr>sm_execution_id = rm_execution_id m, sm_tenant_id = rm_tenant_id m, sm_language = []\<rparr>"
| "unmarshal_submit (Garbage _) = None"

record post =
  p_url :: string
  p_event :: string
  p_timestamp :: string
  p_signature :: string
  p_body :: string

text \<open>
  What the runner asks of the Docker daemon (\<open>container.Config\<close> and \<open>HostConfig\<close> in one
  record), and an entry of the tar archive it sends to a container.
\<close>

record container_spec =
  cs_image :: string
  cs_user :: string
  cs_working_dir :: string
  cs_entrypoint :: "string list"
  cs_env :: "string list"
  cs_attach_stdin :: bool
  cs_open_stdin :: bool
  cs_stdin_once :: bool
  cs_network_disabled :: bool
  cs_labels :: "(string \<times> string) list"
  cs_network_mode :: string
  cs_readonly_rootfs :: bool
  cs_tmpfs :: "(string \<times> string) list"
  cs_cap_drop :: "string list"
  cs_runtime :: string
  cs_memory :: int
  cs_memory_swap :: int
  cs_nano_cpus :: int
  cs_pids_limit :: int

record tar_entry =
  te_name :: string
  te_mode :: nat
  te_size :: nat
  te_content :: string

subsection \<open>External code\<close>

text \<open>
  Code outside the repository, and the parts of the standard library whose results the program
  only passes on: Unicode's lower-case table, \<open>google/uuid\<close>, \<open>net/url\<close>, \<open>net/mail\<close>,
  SHA-256 and HMAC, \<open>bcrypt\<close>, \<open>golang-jwt\<close>, \<open>time.ParseDuration\<close> and the RFC 3339
  rendering of a time, and Postgres' case folding of a CITEXT column. Every definition that
  uses one takes the record as its argument \<open>x\<close>.
\<close>

record url =
  url_scheme :: string
  url_host :: string
  url_hostname :: string

record tenant_claim =
  tc_id :: string
  tc_role :: string

record claims =
  cl_subject :: string
  cl_audience :: "string list"
  cl_id :: string
  cl_issued_at :: int
  cl_expires_at :: int
  cl_tenants :: "tenant_claim list"

datatype alg = HMAC | OtherAlg string

record ext =
  x_lower :: "nat \<Rightarrow> nat"
  x_uuid_parse :: "string \<Rightarrow> uuid option"
  x_uuid_string :: "uuid \<Rightarrow> string"
  x_url_parse :: "string \<Rightarrow> url option"
  x_mail_ok :: "string \<Rightarrow> bool"
  x_sha256 :: "string \<Rightarrow> string"
  x_hmac :: "string \<Rightarrow> string \<Rightarrow> string"
  x_bcrypt_hash :: "string \<Rightarrow> nat \<Rightarrow> string \<Rightarrow> string option"
  x_bcrypt_check :: "string \<Rightarrow> string \<Rightarrow> bool"
  x_jwt_sign :: "string \<Rightarrow> claims \<Rightarrow> string option"
  x_jwt_parse :: "(alg \<Rightarrow> string option) \<Rightarrow> string \<Rightarrow> int \<Rightarrow> string \<Rightarrow> claims option"
  x_parse_duration :: "string \<Rightarrow> int option"
  x_rfc3339 :: "int \<Rightarrow> string"
  x_citext :: "string \<Rightarrow> string"

subsection \<open>Events and the world\<close>

datatype fault =
    Done              \<comment> \<open>the call succeeds\<close>
  | Lost              \<comment> \<open>the call fails and has no effect\<close>
  | Ambiguous         \<comment> \<open>the call takes effect, the caller sees an error\<close>
  | LockNotAvailable  \<comment> \<open>SQLSTATE 55P03\<close>

type_synonym ip = "8 word list"

datatype http_reply = TransportError | HttpStatus int

text \<open>What the \<open>select\<close> of \<open>wait\<close> receives first.\<close>

datatype wait_reply =
    WaitExit int | WaitRespError string | WaitDeadline | WaitErr string | WaitCtxDone

record event =
  ev_elapsed :: nat
  ev_interfere :: "db \<Rightarrow> db"
  ev_fault :: fault
  ev_cancelled :: bool
  ev_msg :: string
  ev_uuid :: uuid
  ev_rand :: string
  ev_ips :: "ip list option"
  ev_http :: http_reply
  ev_wait :: wait_reply
  ev_logs :: "string \<times> string"
  ev_oom :: bool

definition quiet :: event where
  "quiet = \<lparr>ev_elapsed = 0, ev_interfere = (\<lambda>d. d), ev_fault = Done, ev_cancelled = False,
     ev_msg = [], ev_uuid = 0, ev_rand = [], ev_ips = Some [], ev_http = HttpStatus 200,
     ev_wait = WaitExit 0, ev_logs = ([], []), ev_oom = False\<rparr>"

text \<open>
  What the program asks of JetStream: streams (\<open>jetstream.StreamConfig\<close>) and durable pull
  consumers (\<open>jetstream.ConsumerConfig\<close>).
\<close>

record stream_config =
  st_name :: string
  st_subjects :: "string list"
  st_retention_limits :: bool     \<comment> \<open>jetstream.LimitsPolicy\<close>
  st_max_msgs :: int
  st_file_storage :: bool         \<comment> \<open>jetstream.FileStorage\<close>
  st_allow_direct :: bool

record consumer_config =
  cc_durable :: string
  cc_name :: string
  cc_description :: string
  cc_filter_subject :: string
  cc_deliver_all :: bool          \<comment> \<open>jetstream.DeliverAllPolicy\<close>
  cc_ack_explicit :: bool         \<comment> \<open>jetstream.AckExplicitPolicy\<close>
  cc_ack_wait :: int
  cc_max_deliver :: nat

record world =
  db :: db
  now :: int                                \<comment> \<open>nanoseconds; one clock for every host\<close>
  script :: "event list"
  published :: "(string \<times> payload) list"     \<comment> \<open>subject and payload, oldest first\<close>
  containers :: "string list"               \<comment> \<open>names of the containers that exist\<close>
  created :: "(string \<times> container_spec) list" \<comment> \<open>every container ever created\<close>
  started :: "string list"                  \<comment> \<open>names of the containers ever started\<close>
  fed :: "(string \<times> tar_entry list) list"     \<comment> \<open>what each container was sent on its stdin\<close>
  posts :: "post list"                      \<comment> \<open>webhook requests sent\<close>
  streams :: "string \<rightharpoonup> stream_config"       \<comment> \<open>by name\<close>
  consumers :: "string \<times> string \<rightharpoonup> consumer_config"  \<comment> \<open>by stream and durable name\<close>

abbreviation second :: int where
  "second \<equiv> 1000000000"

text \<open>One call: the next event, and the world it finds.\<close>

definition tick :: "world \<Rightarrow> event \<times> world" where
  "tick w =
     (case script w of
        [] \<Rightarrow> (quiet, w)
      | e # es \<Rightarrow> (e, w\<lparr>now := now w + int (ev_elapsed e), db := ev_interfere e (db w),
                        script := es\<rparr>))"

text \<open>
  A statement sees the time, a fresh \<open>gen_random_uuid()\<close> and the tables; one that fails
  leaves the tables as they were.
\<close>

type_synonym 'a stmt = "int \<Rightarrow> uuid \<Rightarrow> db \<Rightarrow> 'a result \<times> db"

definition db_call :: "'a stmt \<Rightarrow> world \<Rightarrow> 'a result \<times> world" where
  "db_call q w =
     (case tick w of (e, w1) \<Rightarrow>
        case ev_fault e of
          Done \<Rightarrow> (case q (now w1) (ev_uuid e) (db w1) of (r, d) \<Rightarrow> (r, w1\<lparr>db := d\<rparr>))
        | Lost \<Rightarrow> (Inl ConnError, w1)
        | Ambiguous \<Rightarrow> (Inl ConnError, w1\<lparr>db := snd (q (now w1) (ev_uuid e) (db w1))\<rparr>)
        | LockNotAvailable \<Rightarrow> (Inl (PgError ''55P03''), w1))"

text \<open>
  Transactions are serialised: other processes act when it begins, not between its statements,
  and \<open>now()\<close> is the time it began. The caller keeps the tables at the beginning and puts
  them back on rollback.
\<close>

record tx =
  tx_now :: int
  tx_saved :: db

definition tx_begin :: "world \<Rightarrow> tx result \<times> world" where
  "tx_begin w =
     (case tick w of (e, w1) \<Rightarrow>
        case ev_fault e of
          Done \<Rightarrow> (Inr \<lparr>tx_now = now w1, tx_saved = db w1\<rparr>, w1)
        | _ \<Rightarrow> (Inl ConnError, w1))"

definition tx_tick :: "world \<Rightarrow> event \<times> world" where
  "tx_tick w =
     (case script w of
        [] \<Rightarrow> (quiet, w)
      | e # es \<Rightarrow> (e, w\<lparr>now := now w + int (ev_elapsed e), script := es\<rparr>))"

definition tx_call :: "tx \<Rightarrow> 'a stmt \<Rightarrow> world \<Rightarrow> 'a result \<times> world" where
  "tx_call t q w =
     (case tx_tick w of (e, w1) \<Rightarrow>
        case ev_fault e of
          Done \<Rightarrow> (case q (tx_now t) (ev_uuid e) (db w1) of (r, d) \<Rightarrow> (r, w1\<lparr>db := d\<rparr>))
        | LockNotAvailable \<Rightarrow> (Inl (PgError ''55P03''), w1)
        | _ \<Rightarrow> (Inl ConnError, w1))"

definition tx_rollback :: "tx \<Rightarrow> world \<Rightarrow> world" where
  "tx_rollback t w = w\<lparr>db := tx_saved t\<rparr>"

definition tx_commit :: "tx \<Rightarrow> world \<Rightarrow> unit result \<times> world" where
  "tx_commit t w =
     (case tx_tick w of (e, w1) \<Rightarrow>
        case ev_fault e of
          Done \<Rightarrow> (nil_err, w1)
        | Ambiguous \<Rightarrow> (Inl ConnError, w1)
        | _ \<Rightarrow> (Inl ConnError, tx_rollback t w1))"

text \<open>
  \<open>storedb/db.go\<close>: the queries run on the pool or inside a transaction, as the \<open>DBTX\<close> they were made
  with.
\<close>

datatype dbtx = OnPool | OnTx tx

record queries =
  q_db :: dbtx

definition New_queries :: "dbtx \<Rightarrow> queries" where
  "New_queries c = \<lparr>q_db = c\<rparr>"

definition WithTx :: "queries \<Rightarrow> tx \<Rightarrow> queries" where
  "WithTx q t = q\<lparr>q_db := OnTx t\<rparr>"

definition run_query :: "queries \<Rightarrow> 'a stmt \<Rightarrow> world \<Rightarrow> 'a result \<times> world" where
  "run_query q s w = (case q_db q of OnPool \<Rightarrow> db_call s w | OnTx t \<Rightarrow> tx_call t s w)"

lemma run_query_simps [simp]:
  "run_query (New_queries OnPool) s = db_call s" "run_query (New_queries (OnTx t)) s = tx_call t s"
  "run_query (WithTx q t) s = tx_call t s"
  by (simp_all add: run_query_def [abs_def] New_queries_def WithTx_def)

text \<open>
  \<open>select\<close> between \<open>ctx.Done()\<close> and \<open>time.After(d)\<close>: \<open>True\<close> when the context ended first.
\<close>

definition sleep :: "int \<Rightarrow> world \<Rightarrow> bool \<times> world" where
  "sleep d w =
     (case tick w of (e, w1) \<Rightarrow>
        if ev_cancelled e then (True, w1) else (False, w1\<lparr>now := now w1 + d\<rparr>))"

text \<open>
  Waiting for an answer under a context with a deadline: \<open>None\<close> when the deadline passed first, at
  once when it had passed before.
\<close>

definition select_until :: "int \<Rightarrow> world \<Rightarrow> event option \<times> world" where
  "select_until deadline w =
     (case tick w of (e, w1) \<Rightarrow>
        if max (now w) deadline < now w1 then (None, w1\<lparr>now := max (now w) deadline\<rparr>) else (Some e, w1))"

text \<open>Publishing a payload to a subject; an ambiguous failure leaves it in the stream.\<close>

definition js_publish :: "string \<Rightarrow> payload \<Rightarrow> world \<Rightarrow> unit result \<times> world" where
  "js_publish subject p w =
     (case tick w of (e, w1) \<Rightarrow>
        case ev_fault e of
          Done \<Rightarrow> (nil_err, w1\<lparr>published := published w1 @ [(subject, p)]\<rparr>)
        | Ambiguous \<Rightarrow> (Inl ConnError, w1\<lparr>published := published w1 @ [(subject, p)]\<rparr>)
        | _ \<Rightarrow> (Inl ConnError, w1))"

lemmas io_call_defs [io_defs] =
  db_call_def tx_begin_def tx_call_def tx_commit_def tx_rollback_def sleep_def js_publish_def

subsection \<open>What a call leaves alone\<close>

lemma tick_quiet [simp]: "script w = [] \<Longrightarrow> tick w = (quiet, w)"
  by (simp add: tick_def)

lemma tick_Cons: "script w = e # es \<Longrightarrow>
  tick w = (e, w\<lparr>now := now w + int (ev_elapsed e), db := ev_interfere e (db w), script := es\<rparr>)"
  by (simp add: tick_def)

lemma quiet_sel [simp]:
  "ev_elapsed quiet = 0" "ev_interfere quiet = (\<lambda>d. d)" "ev_fault quiet = Done"
  "ev_cancelled quiet = False" "ev_ips quiet = Some []" "ev_http quiet = HttpStatus 200"
  "ev_wait quiet = WaitExit 0" "ev_logs quiet = ([], [])" "ev_oom quiet = False"
  "ev_uuid quiet = 0" "ev_msg quiet = []" "ev_rand quiet = []"
  by (simp_all add: quiet_def)

lemma tick_frame [frame]:
  "published (snd (tick w)) = published w"
  "containers (snd (tick w)) = containers w"
  "created (snd (tick w)) = created w"
  "started (snd (tick w)) = started w"
  "fed (snd (tick w)) = fed w"
  "posts (snd (tick w)) = posts w"
  by (simp_all add: tick_def split: list.splits)

lemma tx_tick_frame [frame]:
  "published (snd (tx_tick w)) = published w"
  "containers (snd (tx_tick w)) = containers w"
  "created (snd (tx_tick w)) = created w"
  "started (snd (tx_tick w)) = started w"
  "fed (snd (tx_tick w)) = fed w"
  "posts (snd (tx_tick w)) = posts w"
  "db (snd (tx_tick w)) = db w"
  by (simp_all add: tx_tick_def split: list.splits)

lemma tickD:
  assumes "tick w = (e, w1)"
  shows "published w1 = published w" "containers w1 = containers w" "created w1 = created w"
    "started w1 = started w" "fed w1 = fed w" "posts w1 = posts w"
  using tick_frame [of w] assms by simp_all

lemma tx_tickD:
  assumes "tx_tick w = (e, w1)"
  shows "published w1 = published w" "containers w1 = containers w" "created w1 = created w"
    "started w1 = started w" "fed w1 = fed w" "posts w1 = posts w" "db w1 = db w"
  using tx_tick_frame [of w] assms by simp_all

lemma db_call_frame [frame]:
  "published (snd (db_call q w)) = published w"
  "containers (snd (db_call q w)) = containers w"
  "created (snd (db_call q w)) = created w"
  "started (snd (db_call q w)) = started w"
  "fed (snd (db_call q w)) = fed w"
  "posts (snd (db_call q w)) = posts w"
  by (simp_all add: db_call_def tickD split: prod.splits fault.splits)

lemma tx_begin_frame [frame]:
  "published (snd (tx_begin w)) = published w"
  "containers (snd (tx_begin w)) = containers w"
  "created (snd (tx_begin w)) = created w"
  "started (snd (tx_begin w)) = started w"
  "fed (snd (tx_begin w)) = fed w"
  "posts (snd (tx_begin w)) = posts w"
  by (simp_all add: tx_begin_def tickD split: prod.splits fault.splits)

lemma tx_call_frame [frame]:
  "published (snd (tx_call t q w)) = published w"
  "containers (snd (tx_call t q w)) = containers w"
  "created (snd (tx_call t q w)) = created w"
  "started (snd (tx_call t q w)) = started w"
  "fed (snd (tx_call t q w)) = fed w"
  "posts (snd (tx_call t q w)) = posts w"
  by (simp_all add: tx_call_def tx_tickD split: prod.splits fault.splits)

lemma tx_commit_frame [frame]:
  "published (snd (tx_commit t w)) = published w"
  "containers (snd (tx_commit t w)) = containers w"
  "created (snd (tx_commit t w)) = created w"
  "started (snd (tx_commit t w)) = started w"
  "fed (snd (tx_commit t w)) = fed w"
  "posts (snd (tx_commit t w)) = posts w"
  by (simp_all add: tx_commit_def tx_rollback_def tx_tickD split: prod.splits fault.splits)

lemma sleep_frame [frame]:
  "published (snd (sleep n w)) = published w"
  "containers (snd (sleep n w)) = containers w"
  "created (snd (sleep n w)) = created w"
  "started (snd (sleep n w)) = started w"
  "fed (snd (sleep n w)) = fed w"
  "posts (snd (sleep n w)) = posts w"
  by (simp_all add: sleep_def tickD split: prod.splits)

lemma js_publish_frame [frame]:
  "containers (snd (js_publish s p w)) = containers w"
  "created (snd (js_publish s p w)) = created w"
  "started (snd (js_publish s p w)) = started w"
  "fed (snd (js_publish s p w)) = fed w"
  "posts (snd (js_publish s p w)) = posts w"
  by (simp_all add: js_publish_def tickD split: prod.splits fault.splits)

end
