(* ===== verification/Store.thy ===== *)
theory Store
  imports World
begin

section \<open>Postgres: conversions and SQL statements\<close>

text \<open>
  \<open>internal/store/pgconv.go\<close> and every query of \<open>internal/store/storedb\<close>, each as a function
  from the time, a fresh UUID and the tables to its result and the new tables, with the
  constraints of \<open>internal/store/migrations\<close> that it can violate: 22021 for text that is not
  UTF-8 or holds a NUL, 23502 for a missing value, 23503 for a foreign key, 23505 for a unique
  key, 23514 for a CHECK. Foreign keys of a row never dangle later: the program deletes nothing.
\<close>

subsection \<open>UUID conversions\<close>

definition UUIDToPg :: "uuid \<Rightarrow> uuid option" where
  "UUIDToPg i = Some i"

definition PgToUUID :: "uuid option \<Rightarrow> uuid" where
  \<comment> \<open>an invalid value has all-zero bytes\<close>
  "PgToUUID p = (case p of Some i \<Rightarrow> i | None \<Rightarrow> 0)"

definition PgToString :: "ext \<Rightarrow> uuid option \<Rightarrow> string" where
  "PgToString x p = x_uuid_string x (PgToUUID p)"

definition ParsePg :: "ext \<Rightarrow> string \<Rightarrow> uuid option result" where
  "ParsePg x s =
     (case x_uuid_parse x s of
        None \<Rightarrow> Inl (Failure ''invalid UUID'')
      | Some i \<Rightarrow> Inr (UUIDToPg i))"

lemma ParsePg_Inr: "ParsePg x s = Inr p \<longleftrightarrow> (\<exists>i. x_uuid_parse x s = Some i \<and> p = Some i)"
  by (auto simp: ParsePg_def UUIDToPg_def split: option.splits)

lemma PgToString_Some [simp]: "PgToString x (Some i) = x_uuid_string x i"
  by (simp add: PgToString_def PgToUUID_def)

subsection \<open>Column checks\<close>

definition text_ok :: "string \<Rightarrow> bool" where
  "text_ok s \<longleftrightarrow> valid_utf8 s \<and> CHR 0x00 \<notin> set s"

definition valid_status :: "string \<Rightarrow> bool" where
  "valid_status s \<longleftrightarrow> s \<in> {''queued'', ''running'', ''succeeded'', ''failed'', ''timeout''}"

definition valid_tier :: "string \<Rightarrow> bool" where
  "valid_tier s \<longleftrightarrow> s \<in> {''free'', ''starter'', ''professional'', ''enterprise''}"

definition valid_role :: "string \<Rightarrow> bool" where
  "valid_role s \<longleftrightarrow> s \<in> {''member'', ''admin'', ''owner''}"

definition active :: "execution \<Rightarrow> bool" where
  "active r \<longleftrightarrow> e_status r = ''queued'' \<or> e_status r = ''running''"

text \<open>An \<open>UPDATE\<close> of one table.\<close>

abbreviation upd_executions :: "(execution \<Rightarrow> bool) \<Rightarrow> (execution \<Rightarrow> execution) \<Rightarrow> db \<Rightarrow> db" where
  "upd_executions p f d \<equiv> d\<lparr>executions := update_where p f (executions d)\<rparr>"

subsection \<open>Executions\<close>

definition CountActiveExecutions :: "uuid option \<Rightarrow> int stmt" where
  "CountActiveExecutions tid t u d =
     (Inr (int (count_where (\<lambda>r. Some (e_tenant_id r) = tid \<and> active r) (executions d))), d)"

definition CountExecutionsSince :: "uuid option \<Rightarrow> int \<Rightarrow> int stmt" where
  "CountExecutionsSince tid since t u d =
     (Inr (int (count_where (\<lambda>r. Some (e_tenant_id r) = tid \<and> since \<le> e_created_at r)
        (executions d))), d)"

record create_execution_params =
  cp_tenant_id :: "uuid option"
  cp_language :: string
  cp_source :: string
  cp_stdin :: string
  cp_timeout_s :: int
  cp_webhook_url :: "string option"
  cp_submitted_by_user_id :: "uuid option"
  cp_submitted_by_api_key_id :: "string option"

record create_execution_row =
  cr_id :: "uuid option"
  cr_tenant_id :: "uuid option"
  cr_language :: string
  cr_status :: string
  cr_created_at :: int

definition new_execution :: "create_execution_params \<Rightarrow> uuid \<Rightarrow> int \<Rightarrow> uuid \<Rightarrow> execution" where
  "new_execution p tid t u =
     \<lparr>e_id = u, e_tenant_id = tid, e_language = cp_language p, e_status = ''queued'',
      e_source = cp_source p, e_stdin = cp_stdin p, e_stdout = [], e_stderr = [],
      e_exit_code = None, e_created_at = t, e_updated_at = t, e_timeout_s = cp_timeout_s p,
      e_webhook_url = cp_webhook_url p,
      e_submitted_by_user_id = cp_submitted_by_user_id p,
      e_submitted_by_api_key_id = cp_submitted_by_api_key_id p\<rparr>"

definition params_text_ok :: "create_execution_params \<Rightarrow> bool" where
  "params_text_ok p \<longleftrightarrow>
     list_all text_ok ([cp_language p, cp_source p, cp_stdin p]
       @ (case cp_webhook_url p of None \<Rightarrow> [] | Some s \<Rightarrow> [s])
       @ (case cp_submitted_by_api_key_id p of None \<Rightarrow> [] | Some s \<Rightarrow> [s]))"

definition actor_ok :: "create_execution_params \<Rightarrow> db \<Rightarrow> bool" where
  "actor_ok p d \<longleftrightarrow>
     (case cp_submitted_by_user_id p of None \<Rightarrow> True | Some i \<Rightarrow> i \<in> u_id ` set (users d))
     \<and> (case cp_submitted_by_api_key_id p of None \<Rightarrow> True | Some k \<Rightarrow> k \<in> k_id ` set (api_keys d))"

definition CreateExecution :: "create_execution_params \<Rightarrow> create_execution_row stmt" where
  "CreateExecution p t u d =
     (if \<not> params_text_ok p then (Inl (PgError ''22021''), d)
      else (case cp_tenant_id p of
          None \<Rightarrow> (Inl (PgError ''23502''), d)
        | Some tid \<Rightarrow>
            if u \<in> e_id ` set (executions d) then (Inl (PgError ''23505''), d)
            else if tid \<notin> t_id ` set (tenants d) \<or> \<not> actor_ok p d
              then (Inl (PgError ''23503''), d)
            else (Inr \<lparr>cr_id = Some u, cr_tenant_id = Some tid, cr_language = cp_language p,
                       cr_status = ''queued'', cr_created_at = t\<rparr>,
                  d\<lparr>executions := executions d @ [new_execution p tid t u]\<rparr>)))"

record finish_params =
  fp_id :: "uuid option"
  fp_status :: string
  fp_stdout :: string
  fp_stderr :: string
  fp_exit_code :: "int option"

definition finish_row :: "finish_params \<Rightarrow> int \<Rightarrow> execution \<Rightarrow> execution" where
  "finish_row a t r =
     r\<lparr>e_status := fp_status a, e_stdout := fp_stdout a, e_stderr := fp_stderr a,
       e_exit_code := fp_exit_code a, e_updated_at := t\<rparr>"

definition FinishExecution :: "finish_params \<Rightarrow> unit stmt" where
  "FinishExecution a t u d =
     (if \<not> list_all text_ok [fp_status a, fp_stdout a, fp_stderr a]
      then (Inl (PgError ''22021''), d)
      else
       let p = (\<lambda>r. Some (e_id r) = fp_id a \<and> e_status r = ''running'')
       in if \<not> valid_status (fp_status a) \<and> (\<exists>r\<in>set (executions d). p r)
          then (Inl (PgError ''23514''), d)
          else (nil_err, upd_executions p (finish_row a t) d))"

record get_row =
  gr_id :: "uuid option"
  gr_tenant_id :: "uuid option"
  gr_language :: string
  gr_status :: string
  gr_source :: string
  gr_stdin :: string
  gr_stdout :: string
  gr_stderr :: string
  gr_exit_code :: "int option"
  gr_created_at :: int
  gr_updated_at :: int

definition get_row_of :: "execution \<Rightarrow> get_row" where
  "get_row_of r = \<lparr>gr_id = Some (e_id r), gr_tenant_id = Some (e_tenant_id r),
     gr_language = e_language r, gr_status = e_status r, gr_source = e_source r,
     gr_stdin = e_stdin r, gr_stdout = e_stdout r, gr_stderr = e_stderr r,
     gr_exit_code = e_exit_code r, gr_created_at = e_created_at r,
     gr_updated_at = e_updated_at r\<rparr>"

definition GetExecution :: "uuid option \<Rightarrow> uuid option \<Rightarrow> get_row stmt" where
  "GetExecution i tid t u d =
     ((case find (\<lambda>r. Some (e_id r) = i \<and> Some (e_tenant_id r) = tid) (executions d) of
         None \<Rightarrow> Inl NoRows | Some r \<Rightarrow> Inr (get_row_of r)), d)"

record list_row =
  lr_id :: "uuid option"
  lr_language :: string
  lr_status :: string
  lr_created_at :: int
  lr_updated_at :: int

definition list_row_of :: "execution \<Rightarrow> list_row" where
  "list_row_of r = \<lparr>lr_id = Some (e_id r), lr_language = e_language r, lr_status = e_status r,
     lr_created_at = e_created_at r, lr_updated_at = e_updated_at r\<rparr>"

text \<open>Rows with the same \<open>created_at\<close> come in table order (SQL leaves their order open).\<close>

definition ListExecutions :: "uuid option \<Rightarrow> int \<Rightarrow> int \<Rightarrow> list_row list stmt" where
  "ListExecutions tid limit offset t u d =
     (if limit < 0 then (Inl (PgError ''2201W''), d)
      else if offset < 0 then (Inl (PgError ''2201X''), d)
      else (Inr (map list_row_of (take (nat limit) (drop (nat offset)
              (sort_key (\<lambda>r. - e_created_at r)
                (filter (\<lambda>r. Some (e_tenant_id r) = tid) (executions d)))))), d))"

definition ListStaleQueuedExecutions :: "int \<Rightarrow> uuid list stmt" where
  "ListStaleQueuedExecutions secs t u d =
     (Inr (map e_id (filter (\<lambda>r. e_status r = ''queued'' \<and> e_created_at r < t - secs * second)
        (executions d))), d)"

record claimed =
  c_id :: "uuid option"
  c_tenant_id :: "uuid option"
  c_language :: string
  c_source :: string
  c_stdin :: string
  c_timeout_s :: int
  c_webhook_url :: "string option"

definition claimed_of :: "execution \<Rightarrow> claimed" where
  "claimed_of r = \<lparr>c_id = Some (e_id r), c_tenant_id = Some (e_tenant_id r),
     c_language = e_language r, c_source = e_source r, c_stdin = e_stdin r,
     c_timeout_s = e_timeout_s r, c_webhook_url = e_webhook_url r\<rparr>"

definition set_status :: "string \<Rightarrow> int \<Rightarrow> execution \<Rightarrow> execution" where
  "set_status s t r = r\<lparr>e_status := s, e_updated_at := t\<rparr>"

definition set_failed :: "string \<Rightarrow> int \<Rightarrow> execution \<Rightarrow> execution" where
  "set_failed msg t r = r\<lparr>e_status := ''failed'', e_stderr := msg, e_updated_at := t\<rparr>"

definition MarkExecutionRunning :: "uuid option \<Rightarrow> claimed stmt" where
  "MarkExecutionRunning i t u d =
     (let p = (\<lambda>r. Some (e_id r) = i \<and> e_status r = ''queued'')
      in case find p (executions d) of
           None \<Rightarrow> (Inl NoRows, d)
         | Some r \<Rightarrow> (Inr (claimed_of r), upd_executions p (set_status ''running'' t) d))"

definition MarkStaleQueuedFailed :: "string \<Rightarrow> uuid \<Rightarrow> nat stmt" where
  "MarkStaleQueuedFailed msg i t u d =
     (if \<not> text_ok msg then (Inl (PgError ''22021''), d)
      else let p = (\<lambda>r. e_id r = i \<and> e_status r = ''queued'')
           in (Inr (count_where p (executions d)), upd_executions p (set_failed msg t) d))"

definition ReapStaleExecutions :: "string \<Rightarrow> int \<Rightarrow> nat stmt" where
  "ReapStaleExecutions msg secs t u d =
     (if \<not> text_ok msg then (Inl (PgError ''22021''), d)
      else let p = (\<lambda>r. e_status r = ''running'' \<and> e_updated_at r < t - secs * second)
           in (Inr (count_where p (executions d)), upd_executions p (set_failed msg t) d))"

definition RequeueExecution :: "uuid option \<Rightarrow> nat stmt" where
  "RequeueExecution i t u d =
     (let p = (\<lambda>r. Some (e_id r) = i \<and> e_status r = ''running'')
      in (Inr (count_where p (executions d)), upd_executions p (set_status ''queued'' t) d))"

definition SetExecutionFailed :: "uuid option \<Rightarrow> string \<Rightarrow> unit stmt" where
  "SetExecutionFailed i msg t u d =
     (if \<not> text_ok msg then (Inl (PgError ''22021''), d)
      else let p = (\<lambda>r. Some (e_id r) = i \<and> e_status r = ''queued'')
           in (nil_err, upd_executions p (set_failed msg t) d))"

subsection \<open>Users, tenants and memberships\<close>

record create_user_row =
  cu_id :: "uuid option"
  cu_email :: string
  cu_username :: string
  cu_created_at :: int

definition CreateUser :: "ext \<Rightarrow> string \<Rightarrow> string \<Rightarrow> string \<Rightarrow> create_user_row stmt" where
  "CreateUser x email name hash t u d =
     (if \<not> list_all text_ok [email, name, hash] then (Inl (PgError ''22021''), d)
      else if u \<in> u_id ` set (users d)
            \<or> x_citext x email \<in> (\<lambda>r. x_citext x (u_email r)) ` set (users d)
            \<or> name \<in> u_username ` set (users d)
        then (Inl (PgError ''23505''), d)
      else let r = \<lparr>u_id = u, u_email = email, u_username = name, u_password_hash = hash,
                    u_created_at = t\<rparr>
           in (Inr \<lparr>cu_id = Some u, cu_email = email, cu_username = name, cu_created_at = t\<rparr>,
               d\<lparr>users := users d @ [r]\<rparr>))"

definition find_user :: "(user \<Rightarrow> bool) \<Rightarrow> user stmt" where
  "find_user p t u d = ((case find p (users d) of None \<Rightarrow> Inl NoRows | Some r \<Rightarrow> Inr r), d)"

definition GetUserByEmail :: "ext \<Rightarrow> string \<Rightarrow> user stmt" where
  "GetUserByEmail x email t u d =
     (if \<not> text_ok email then (Inl (PgError ''22021''), d)
      else find_user (\<lambda>r. x_citext x (u_email r) = x_citext x email) t u d)"

definition GetUserByID :: "uuid option \<Rightarrow> user stmt" where
  "GetUserByID i = find_user (\<lambda>r. Some (u_id r) = i)"

definition GetUserByUsername :: "string \<Rightarrow> user stmt" where
  "GetUserByUsername name t u d =
     (if \<not> text_ok name then (Inl (PgError ''22021''), d)
      else find_user (\<lambda>r. u_username r = name) t u d)"

record membership_row =
  mr_id :: "uuid option"
  mr_slug :: string
  mr_namespace :: string
  mr_tier :: string
  mr_role :: string

definition ListTenantMemberships :: "uuid option \<Rightarrow> membership_row list stmt" where
  "ListTenantMemberships i t u d =
     (Inr [\<lparr>mr_id = Some (t_id tn), mr_slug = t_slug tn, mr_namespace = t_namespace tn,
            mr_tier = t_tier tn, mr_role = m_role m\<rparr>.
            m \<leftarrow> memberships d, Some (m_user_id m) = i,
            tn \<leftarrow> tenants d, t_id tn = m_tenant_id m], d)"

definition AddMembership :: "uuid option \<Rightarrow> uuid option \<Rightarrow> string \<Rightarrow> unit stmt" where
  "AddMembership uid tid role t u d =
     (case (uid, tid) of
        (Some i, Some k) \<Rightarrow>
          if \<not> valid_role role then (Inl (PgError ''23514''), d)
          else if i \<notin> u_id ` set (users d) \<or> k \<notin> t_id ` set (tenants d)
            then (Inl (PgError ''23503''), d)
          else if (\<exists>m\<in>set (memberships d). m_user_id m = i \<and> m_tenant_id m = k)
            then (nil_err, d\<lparr>memberships := update_where (\<lambda>m. m_user_id m = i \<and> m_tenant_id m = k)
                               (\<lambda>m. m\<lparr>m_role := role\<rparr>) (memberships d)\<rparr>)
          else (nil_err, d\<lparr>memberships := memberships d @ [\<lparr>m_user_id = i, m_tenant_id = k,
                               m_role = role, m_created_at = t\<rparr>]\<rparr>)
      | _ \<Rightarrow> (Inl (PgError ''23502''), d))"

definition CheckMembership :: "uuid option \<Rightarrow> uuid option \<Rightarrow> string stmt" where
  "CheckMembership uid tid t u d =
     ((case find (\<lambda>m. Some (m_user_id m) = uid \<and> Some (m_tenant_id m) = tid) (memberships d) of
         None \<Rightarrow> Inl NoRows | Some m \<Rightarrow> Inr (m_role m)), d)"

definition CreateTenant :: "ext \<Rightarrow> uuid option \<Rightarrow> string \<Rightarrow> string \<Rightarrow> string \<Rightarrow> tenant stmt" where
  "CreateTenant x i slug ns tier t u d =
     (case i of
        None \<Rightarrow> (Inl (PgError ''23502''), d)
      | Some k \<Rightarrow>
          if \<not> list_all text_ok [slug, ns, tier] then (Inl (PgError ''22021''), d)
          else if \<not> valid_tier tier then (Inl (PgError ''23514''), d)
          else if k \<in> t_id ` set (tenants d)
                \<or> x_citext x slug \<in> (\<lambda>r. x_citext x (t_slug r)) ` set (tenants d)
                \<or> ns \<in> t_namespace ` set (tenants d)
            then (Inl (PgError ''23505''), d)
          else let r = \<lparr>t_id = k, t_slug = slug, t_namespace = ns, t_tier = tier,
                        t_created_at = t\<rparr>
               in (Inr r, d\<lparr>tenants := tenants d @ [r]\<rparr>))"

definition GetTenant :: "uuid option \<Rightarrow> tenant stmt" where
  "GetTenant i t u d =
     ((case find (\<lambda>r. Some (t_id r) = i) (tenants d) of None \<Rightarrow> Inl NoRows | Some r \<Rightarrow> Inr r), d)"

subsection \<open>API keys and refresh tokens\<close>

record create_key_row =
  ck_id :: string
  ck_user_id :: "uuid option"
  ck_tenant_id :: "uuid option"
  ck_name :: string
  ck_created_at :: int
  ck_revoked_at :: "int option"

record list_key_row =
  lk_id :: string
  lk_name :: string
  lk_created_at :: int
  lk_revoked_at :: "int option"

definition list_key_of :: "api_key \<Rightarrow> list_key_row" where
  "list_key_of r = \<lparr>lk_id = k_id r, lk_name = k_name r, lk_created_at = k_created_at r,
     lk_revoked_at = k_revoked_at r\<rparr>"

definition CreateAPIKey ::
    "string \<Rightarrow> uuid option \<Rightarrow> uuid option \<Rightarrow> string \<Rightarrow> string \<Rightarrow> create_key_row stmt" where
  "CreateAPIKey kid uid tid name hash t u d =
     (case (uid, tid) of
        (Some i, Some k) \<Rightarrow>
          if \<not> list_all text_ok [kid, name, hash] then (Inl (PgError ''22021''), d)
          else if kid \<in> k_id ` set (api_keys d) then (Inl (PgError ''23505''), d)
          else if i \<notin> u_id ` set (users d) \<or> k \<notin> t_id ` set (tenants d)
            then (Inl (PgError ''23503''), d)
          else let r = \<lparr>k_id = kid, k_user_id = i, k_tenant_id = k, k_name = name,
                        k_secret_hash = hash, k_created_at = t, k_revoked_at = None\<rparr>
               in (Inr \<lparr>ck_id = kid, ck_user_id = uid, ck_tenant_id = tid, ck_name = name,
                        ck_created_at = t, ck_revoked_at = None\<rparr>,
                   d\<lparr>api_keys := api_keys d @ [r]\<rparr>)
      | _ \<Rightarrow> (Inl (PgError ''23502''), d))"

definition GetAPIKey :: "string \<Rightarrow> api_key stmt" where
  "GetAPIKey kid t u d =
     ((if \<not> text_ok kid then Inl (PgError ''22021'')
       else case find (\<lambda>r. k_id r = kid) (api_keys d) of None \<Rightarrow> Inl NoRows | Some r \<Rightarrow> Inr r), d)"

definition ListAPIKeys :: "uuid option \<Rightarrow> list_key_row list stmt" where
  "ListAPIKeys tid t u d =
     (Inr (map list_key_of (sort_key (\<lambda>r. - k_created_at r)
        (filter (\<lambda>r. Some (k_tenant_id r) = tid) (api_keys d)))), d)"

definition RevokeAPIKey :: "string \<Rightarrow> unit stmt" where
  "RevokeAPIKey kid t u d =
     (if \<not> text_ok kid then (Inl (PgError ''22021''), d)
      else (nil_err, d\<lparr>api_keys := update_where (\<lambda>r. k_id r = kid \<and> k_revoked_at r = None)
                         (\<lambda>r. r\<lparr>k_revoked_at := Some t\<rparr>) (api_keys d)\<rparr>))"

definition revoke_where :: "(refresh_token \<Rightarrow> bool) \<Rightarrow> int \<Rightarrow> db \<Rightarrow> db" where
  "revoke_where p t d =
     d\<lparr>refresh_tokens := update_where (\<lambda>r. p r \<and> r_revoked_at r = None)
        (\<lambda>r. r\<lparr>r_revoked_at := Some t\<rparr>) (refresh_tokens d)\<rparr>"

definition CreateRefreshToken :: "uuid option \<Rightarrow> uuid option \<Rightarrow> int \<Rightarrow> refresh_token stmt" where
  "CreateRefreshToken jti uid expires t u d =
     (case (jti, uid) of
        (Some j, Some i) \<Rightarrow>
          if j \<in> r_jti ` set (refresh_tokens d) then (Inl (PgError ''23505''), d)
          else if i \<notin> u_id ` set (users d) then (Inl (PgError ''23503''), d)
          else let r = \<lparr>r_jti = j, r_user_id = i, r_expires_at = expires, r_revoked_at = None,
                        r_created_at = t\<rparr>
               in (Inr r, d\<lparr>refresh_tokens := refresh_tokens d @ [r]\<rparr>)
      | _ \<Rightarrow> (Inl (PgError ''23502''), d))"

definition RevokeRefreshToken :: "uuid option \<Rightarrow> unit stmt" where
  "RevokeRefreshToken jti t u d = (nil_err, revoke_where (\<lambda>r. Some (r_jti r) = jti) t d)"

definition RevokeAllRefreshTokens :: "uuid option \<Rightarrow> nat stmt" where
  "RevokeAllRefreshTokens uid t u d =
     (Inr (count_where (\<lambda>r. Some (r_user_id r) = uid \<and> r_revoked_at r = None) (refresh_tokens d)),
      revoke_where (\<lambda>r. Some (r_user_id r) = uid) t d)"

text \<open>The UPDATE ... RETURNING of \<open>AuthHandler.Refresh\<close>.\<close>

definition ConsumeRefreshToken :: "uuid option \<Rightarrow> uuid option \<Rightarrow> uuid option stmt" where
  "ConsumeRefreshToken jti uid t u d =
     (let p = (\<lambda>r. Some (r_jti r) = jti \<and> Some (r_user_id r) = uid \<and> t < r_expires_at r)
      in case find (\<lambda>r. p r \<and> r_revoked_at r = None) (refresh_tokens d) of
           None \<Rightarrow> (Inl NoRows, d)
         | Some r \<Rightarrow> (Inr (Some (r_user_id r)), revoke_where p t d))"

lemmas stmt_defs [store_defs] =
  CountActiveExecutions_def CountExecutionsSince_def CreateExecution_def FinishExecution_def
  GetExecution_def ListExecutions_def ListStaleQueuedExecutions_def MarkExecutionRunning_def
  MarkStaleQueuedFailed_def ReapStaleExecutions_def RequeueExecution_def SetExecutionFailed_def
  CreateUser_def GetUserByEmail_def GetUserByID_def GetUserByUsername_def find_user_def
  ListTenantMemberships_def AddMembership_def CheckMembership_def CreateTenant_def GetTenant_def
  CreateAPIKey_def GetAPIKey_def ListAPIKeys_def RevokeAPIKey_def CreateRefreshToken_def
  RevokeRefreshToken_def RevokeAllRefreshTokens_def ConsumeRefreshToken_def

subsection \<open>Text\<close>

lemma text_ok_ascii: "is_ascii s \<Longrightarrow> CHR 0x00 \<notin> set s \<Longrightarrow> text_ok s"
  using valid_utf8_ascii_append [of s "[]"] by (simp add: text_ok_def)

lemma text_ok_hex [simp]: "text_ok (hex_encode s)"
proof (rule text_ok_ascii)
  show "is_ascii (hex_encode s)" using hex_encode_chars [of _ s] by (fastforce simp: is_ascii_def)
  show "CHR 0x00 \<notin> set (hex_encode s)" using hex_encode_chars [of "CHR 0x00" s] by auto
qed

subsection \<open>Queries that read\<close>

text \<open>The statements that change nothing, in one bundle for the component proofs.\<close>

lemma read_only [simp]:
  "snd (CountActiveExecutions tid t u d) = d"
  "snd (CountExecutionsSince tid s t u d) = d"
  "snd (GetExecution i tid t u d) = d"
  "snd (ListExecutions tid l off t u d) = d"
  "snd (ListStaleQueuedExecutions secs t u d) = d"
  "snd (GetUserByEmail x em t u d) = d"
  "snd (GetUserByID i t u d) = d"
  "snd (GetUserByUsername nm t u d) = d"
  "snd (ListTenantMemberships i t u d) = d"
  "snd (CheckMembership i tid t u d) = d"
  "snd (GetTenant i t u d) = d"
  "snd (GetAPIKey kid t u d) = d"
  "snd (ListAPIKeys tid t u d) = d"
  by (simp_all add: store_defs)

text \<open>A statement that reports an error has changed nothing.\<close>

lemma failed_stmt_unchanged:
  "CreateExecution p t u d = (Inl e, d') \<Longrightarrow> d' = d"
  "FinishExecution a t u d = (Inl e, d') \<Longrightarrow> d' = d"
  "MarkExecutionRunning i t u d = (Inl e, d') \<Longrightarrow> d' = d"
  "CreateUser x em nm h t u d = (Inl e, d') \<Longrightarrow> d' = d"
  "CreateTenant x ti sl ns tr t u d = (Inl e, d') \<Longrightarrow> d' = d"
  "AddMembership ui ti ro t u d = (Inl e, d') \<Longrightarrow> d' = d"
  "CreateAPIKey ki ui ti nm h t u d = (Inl e, d') \<Longrightarrow> d' = d"
  "CreateRefreshToken j ui ex t u d = (Inl e, d') \<Longrightarrow> d' = d"
  "ConsumeRefreshToken j ui t u d = (Inl e, d') \<Longrightarrow> d' = d"
  by (auto simp: store_defs Let_def split: if_splits option.splits)

end
