(* ===== verification/Executions.thy ===== *)
theory Executions
  imports Store
begin

section \<open>The life of an execution\<close>

text \<open>
  \<open>internal/executions/model.go\<close>, and the discipline the SQL statements impose on the tables:
  a step relation with one rule per statement that writes, the order in which rows may change,
  the invariant of the tables, and the locales in which the guarantee of every operation of the
  program is proved. In the step relation the parameters of an insert are those the gateway
  lets through and the status of a finished run is a terminal one; the components that issue
  the statements prove that they do so.
\<close>

subsection \<open>Languages and statuses\<close>

definition SupportedLanguages :: "string list" where
  "SupportedLanguages =
     [''python'', ''javascript'', ''go'', ''java'', ''ruby'', ''rust'', ''cpp'']"

definition ValidLanguage :: "string \<Rightarrow> bool" where
  "ValidLanguage lang \<longleftrightarrow> lang \<in> set SupportedLanguages"

definition final_status :: "string \<Rightarrow> bool" where
  "final_status s \<longleftrightarrow> s \<in> {''succeeded'', ''failed'', ''timeout''}"

definition terminal :: "execution \<Rightarrow> bool" where
  "terminal r \<longleftrightarrow> final_status (e_status r)"

lemma final_status_valid [simp]: "final_status s \<Longrightarrow> valid_status s"
  by (auto simp: final_status_def valid_status_def)

lemma final_status_simps [simp]:
  "final_status ''succeeded''" "final_status ''failed''" "final_status ''timeout''"
  "\<not> final_status ''queued''" "\<not> final_status ''running''"
  by (simp_all add: final_status_def)

lemma valid_status_simps [simp]: "valid_status ''queued''" "valid_status ''running''"
  by (simp_all add: valid_status_def)

text \<open>What the gateway guarantees of a row it inserts (\<open>ExecutionsHandler.Create\<close>).\<close>

definition params_ok :: "create_execution_params \<Rightarrow> bool" where
  "params_ok p \<longleftrightarrow> ValidLanguage (cp_language p) \<and> 1 \<le> cp_timeout_s p \<and> cp_timeout_s p \<le> 60
     \<and> length (cp_source p) \<le> 102400 \<and> length (cp_stdin p) \<le> 102400"

subsection \<open>One statement\<close>

inductive db_step :: "db \<Rightarrow> db \<Rightarrow> bool" where
  create_execution: "params_ok p \<Longrightarrow> db_step d (snd (CreateExecution p t u d))"
| mark_running: "db_step d (snd (MarkExecutionRunning i t u d))"
| finish: "final_status (fp_status a) \<Longrightarrow> db_step d (snd (FinishExecution a t u d))"
| requeue: "db_step d (snd (RequeueExecution i t u d))"
| set_failed: "db_step d (snd (SetExecutionFailed i msg t u d))"
| reap: "db_step d (snd (ReapStaleExecutions msg secs t u d))"
| reap_queued: "db_step d (snd (MarkStaleQueuedFailed msg j t u d))"
| create_user: "db_step d (snd (CreateUser x em nm h t u d))"
| create_tenant: "db_step d (snd (CreateTenant x ti sl ns tr t u d))"
| add_membership: "db_step d (snd (AddMembership ui ti ro t u d))"
| create_key: "db_step d (snd (CreateAPIKey ki ui ti nm h t u d))"
| revoke_key: "db_step d (snd (RevokeAPIKey ki t u d))"
| create_token: "db_step d (snd (CreateRefreshToken ji ui ex t u d))"
| revoke_token: "db_step d (snd (RevokeRefreshToken ji t u d))"
| revoke_tokens: "db_step d (snd (RevokeAllRefreshTokens ui t u d))"
| consume_token: "db_step d (snd (ConsumeRefreshToken ji ui t u d))"

text \<open>Any number of statements, by any number of processes.\<close>

abbreviation db_path :: "db \<Rightarrow> db \<Rightarrow> bool" where
  "db_path \<equiv> db_step\<^sup>*\<^sup>*"

subsection \<open>How rows may change\<close>

text \<open>The columns written once, by the insert.\<close>

definition same_request :: "execution \<Rightarrow> execution \<Rightarrow> bool" where
  "same_request r r' \<longleftrightarrow>
     e_id r' = e_id r \<and> e_tenant_id r' = e_tenant_id r \<and> e_language r' = e_language r
     \<and> e_source r' = e_source r \<and> e_stdin r' = e_stdin r \<and> e_created_at r' = e_created_at r
     \<and> e_timeout_s r' = e_timeout_s r \<and> e_webhook_url r' = e_webhook_url r
     \<and> e_submitted_by_user_id r' = e_submitted_by_user_id r
     \<and> e_submitted_by_api_key_id r' = e_submitted_by_api_key_id r"

definition row_le :: "execution \<Rightarrow> execution \<Rightarrow> bool" where
  "row_le r r' \<longleftrightarrow> same_request r r' \<and> (terminal r \<longrightarrow> r' = r)"

text \<open>The edges of the status graph a single statement may take.\<close>

definition status_edge :: "string \<Rightarrow> string \<Rightarrow> bool" where
  "status_edge s s' \<longleftrightarrow>
     s' = s \<or> s = ''queued'' \<and> s' \<in> {''running'', ''failed''}
     \<or> s = ''running'' \<and> s' \<in> {''queued'', ''succeeded'', ''failed'', ''timeout''}"

definition key_le :: "api_key \<Rightarrow> api_key \<Rightarrow> bool" where
  "key_le r r' \<longleftrightarrow>
     k_id r' = k_id r \<and> k_user_id r' = k_user_id r \<and> k_tenant_id r' = k_tenant_id r
     \<and> k_name r' = k_name r \<and> k_secret_hash r' = k_secret_hash r
     \<and> k_created_at r' = k_created_at r
     \<and> (k_revoked_at r \<noteq> None \<longrightarrow> k_revoked_at r' = k_revoked_at r)"

definition token_le :: "refresh_token \<Rightarrow> refresh_token \<Rightarrow> bool" where
  "token_le r r' \<longleftrightarrow>
     r_jti r' = r_jti r \<and> r_user_id r' = r_user_id r \<and> r_expires_at r' = r_expires_at r
     \<and> r_created_at r' = r_created_at r
     \<and> (r_revoked_at r \<noteq> None \<longrightarrow> r_revoked_at r' = r_revoked_at r)"

definition member_le :: "membership \<Rightarrow> membership \<Rightarrow> bool" where
  "member_le m m' \<longleftrightarrow> m_user_id m' = m_user_id m \<and> m_tenant_id m' = m_tenant_id m
     \<and> m_created_at m' = m_created_at m"

definition db_le :: "db \<Rightarrow> db \<Rightarrow> bool" where
  "db_le d d' \<longleftrightarrow>
     grows row_le (executions d) (executions d') \<and> grows key_le (api_keys d) (api_keys d')
     \<and> grows token_le (refresh_tokens d) (refresh_tokens d')
     \<and> grows member_le (memberships d) (memberships d')
     \<and> grows (=) (users d) (users d') \<and> grows (=) (tenants d) (tenants d')"

lemmas row_order_defs = row_le_def same_request_def key_le_def token_le_def member_le_def

lemma row_order_refl [simp]: "row_le r r" "key_le k k" "token_le tk tk" "member_le m m"
  by (simp_all add: row_order_defs)

lemma row_order_trans: "transp row_le" "transp key_le" "transp token_le" "transp member_le"
  by (auto simp: transp_def row_order_defs)

lemma db_le_refl [simp]: "db_le d d"
  by (auto simp: db_le_def)

lemmas table_order_trans =
  row_order_trans [THEN grows_trans] grows_trans [OF transp_on_equality]

lemma db_le_trans: "db_le a b \<Longrightarrow> db_le b c \<Longrightarrow> db_le a c"
  unfolding db_le_def by (blast intro: table_order_trans)

text \<open>Every statement respects the order: one line per statement.\<close>

lemma grows_set_status: "s = ''running'' \<and> p = (\<lambda>r. Some (e_id r) = i \<and> e_status r = ''queued'')
    \<or> s = ''queued'' \<and> p = (\<lambda>r. Some (e_id r) = i \<and> e_status r = ''running'') \<Longrightarrow>
  grows row_le rs (update_where p (set_status s t) rs)"
  by (rule grows_update_where)
    (auto simp: row_order_defs set_status_def terminal_def)

lemma grows_set_failed:
  "(\<And>r. p r \<Longrightarrow> \<not> terminal r) \<Longrightarrow> grows row_le rs (update_where p (set_failed msg t) rs)"
  by (rule grows_update_where) (auto simp: row_order_defs set_failed_def)

lemma grows_finish:
  "(\<And>r. p r \<Longrightarrow> \<not> terminal r) \<Longrightarrow> grows row_le rs (update_where p (finish_row a t) rs)"
  by (rule grows_update_where) (auto simp: row_order_defs finish_row_def)

lemma db_le_executions: "grows row_le (executions d) rs \<Longrightarrow> db_le d (d\<lparr>executions := rs\<rparr>)"
  by (simp add: db_le_def)

lemma db_le_revoke_where: "db_le d (revoke_where p t d)"
  by (auto simp: db_le_def revoke_where_def token_le_def intro!: grows_update_where)

text \<open>Every statement, table by table.\<close>

lemma execution_stmts_le:
  "db_le d (snd (MarkExecutionRunning i t u d))"
  "final_status (fp_status a) \<Longrightarrow> db_le d (snd (FinishExecution a t u d))"
  "db_le d (snd (RequeueExecution i t u d))"
  "db_le d (snd (SetExecutionFailed i msg t u d))"
  "db_le d (snd (ReapStaleExecutions msg secs t u d))"
  "db_le d (snd (MarkStaleQueuedFailed msg j t u d))"
  by (auto simp: MarkExecutionRunning_def FinishExecution_def RequeueExecution_def SetExecutionFailed_def
      ReapStaleExecutions_def MarkStaleQueuedFailed_def Let_def terminal_def split: option.split
      intro!: db_le_executions grows_set_status grows_finish grows_set_failed)

lemma insert_stmts_le:
  "db_le d (snd (CreateExecution p t u d))"
  "db_le d (snd (CreateUser x em nm h t u d))" "db_le d (snd (CreateTenant x ti sl ns tr t u d))"
  "db_le d (snd (AddMembership ui ti ro t u d))" "db_le d (snd (CreateAPIKey ki ui ti nm h t u d))"
  "db_le d (snd (RevokeAPIKey ki t u d))" "db_le d (snd (CreateRefreshToken ji ui ex t u d))"
  by (auto simp: CreateExecution_def CreateRefreshToken_def CreateUser_def CreateTenant_def AddMembership_def CreateAPIKey_def RevokeAPIKey_def db_le_def
      member_le_def key_le_def Let_def intro!: grows_update_where split: option.split)

lemma token_stmts_le:
  "db_le d (snd (RevokeRefreshToken ji t u d))"
  "db_le d (snd (RevokeAllRefreshTokens ui t u d))" "db_le d (snd (ConsumeRefreshToken ji ui t u d))"
  by (auto simp: RevokeRefreshToken_def RevokeAllRefreshTokens_def ConsumeRefreshToken_def Let_def db_le_revoke_where
      split: option.split)

lemma db_step_le: "db_step d d' \<Longrightarrow> db_le d d'"
  by (induction rule: db_step.induct) (simp_all add: execution_stmts_le insert_stmts_le token_stmts_le)

lemma db_path_le: "db_path d d' \<Longrightarrow> db_le d d'"
  by (induction rule: rtranclp_induct) (auto dest: db_step_le intro: db_le_trans)

text \<open>A terminal row is kept, unchanged, wherever the tables grow.\<close>

lemma db_le_terminal:
  assumes "db_le d d'" and "r \<in> set (executions d)" and "terminal r"
  shows "r \<in> set (executions d')"
proof -
  from assms(1) have "grows row_le (executions d) (executions d')" by (simp add: db_le_def)
  then obtain r' where "r' \<in> set (executions d')" and "row_le r r'"
    using assms(2) by (rule grows_in)
  with assms(3) show ?thesis by (simp add: row_le_def)
qed

subsection \<open>The invariant of the tables\<close>

definition exec_ok :: "db \<Rightarrow> execution \<Rightarrow> bool" where
  "exec_ok d r \<longleftrightarrow> valid_status (e_status r) \<and> ValidLanguage (e_language r)
     \<and> 1 \<le> e_timeout_s r \<and> e_timeout_s r \<le> 60
     \<and> length (e_source r) \<le> 102400 \<and> length (e_stdin r) \<le> 102400
     \<and> e_tenant_id r \<in> t_id ` set (tenants d)"

definition db_ok :: "db \<Rightarrow> bool" where
  "db_ok d \<longleftrightarrow>
     distinct (map e_id (executions d)) \<and> distinct (map k_id (api_keys d))
     \<and> distinct (map r_jti (refresh_tokens d)) \<and> distinct (map u_id (users d))
     \<and> distinct (map t_id (tenants d))
     \<and> (\<forall>r\<in>set (executions d). exec_ok d r)
     \<and> (\<forall>k\<in>set (api_keys d). k_tenant_id k \<in> t_id ` set (tenants d)
           \<and> k_user_id k \<in> u_id ` set (users d))
     \<and> (\<forall>r\<in>set (refresh_tokens d). r_user_id r \<in> u_id ` set (users d))"

definition empty_db :: db where
  "empty_db = \<lparr>users = [], tenants = [], memberships = [], api_keys = [], executions = [],
     refresh_tokens = [], schema_migrations = []\<rparr>"

lemma db_ok_empty: "db_ok empty_db"
  by (simp add: db_ok_def empty_db_def)

lemma db_ok_update_executions:
  assumes "db_ok d" and "\<And>r. e_id (f r) = e_id r"
    and "\<And>r. r \<in> set (executions d) \<Longrightarrow> p r \<Longrightarrow> exec_ok d r \<Longrightarrow> exec_ok d (f r)"
  shows "db_ok (upd_executions p f d)"
proof -
  have "exec_ok (upd_executions p f d) r = exec_ok d r" for r
    by (simp add: exec_ok_def)
  with assms show ?thesis
    by (auto simp: db_ok_def map_key_update_where in_update_where)
qed

lemma db_ok_revoke_where: "db_ok d \<Longrightarrow> db_ok (revoke_where p t d)"
  by (auto simp: db_ok_def revoke_where_def map_key_update_where in_update_where exec_ok_def)

lemma exec_ok_mono: "exec_ok d r \<Longrightarrow> t_id ` set (tenants d) \<subseteq> t_id ` set (tenants d') \<Longrightarrow> exec_ok d' r"
  by (auto simp: exec_ok_def)

lemma exec_ok_status:
  "exec_ok d r \<Longrightarrow> valid_status s \<Longrightarrow> exec_ok d (set_status s t r)"
  "exec_ok d r \<Longrightarrow> exec_ok d (set_failed msg t r)"
  "exec_ok d r \<Longrightarrow> valid_status (fp_status a) \<Longrightarrow> exec_ok d (finish_row a t r)"
  by (simp_all add: exec_ok_def set_status_def set_failed_def finish_row_def)

lemma row_id [simp]:
  "e_id (set_status s t r) = e_id r" "e_id (set_failed msg t r) = e_id r"
  "e_id (finish_row a t r) = e_id r"
  by (simp_all add: set_status_def set_failed_def finish_row_def)

lemma db_ok_execution_stmt:
  assumes "db_ok d"
  shows "db_ok (snd (MarkExecutionRunning i t u d))" "db_ok (snd (RequeueExecution i t u d))"
    "db_ok (snd (SetExecutionFailed i msg t u d))" "db_ok (snd (ReapStaleExecutions msg secs t u d))"
    "db_ok (snd (MarkStaleQueuedFailed msg j t u d))"
    "final_status (fp_status a) \<Longrightarrow> db_ok (snd (FinishExecution a t u d))"
  using assms
  by (auto simp: store_defs Let_def split: option.split
      intro!: db_ok_update_executions intro: exec_ok_status)

lemma db_ok_CreateExecution: "db_ok d \<Longrightarrow> params_ok p \<Longrightarrow> db_ok (snd (CreateExecution p t u d))"
  by (auto simp: CreateExecution_def db_ok_def exec_ok_def new_execution_def params_ok_def
      split: option.split)

lemma db_ok_identity_stmt:
  assumes "db_ok d"
  shows "db_ok (snd (CreateUser x em nm h t u d))" "db_ok (snd (CreateTenant x ti sl ns tr t u d))"
    "db_ok (snd (AddMembership ui ti ro t u d))" "db_ok (snd (CreateAPIKey ki ui ti nm h t u d))"
    "db_ok (snd (RevokeAPIKey ki t u d))" "db_ok (snd (CreateRefreshToken ji ui ex t u d))"
  using assms
  by (auto simp: store_defs Let_def db_ok_def exec_ok_def map_key_update_where in_update_where
      split: option.split)

lemma db_step_ok: "db_step d d' \<Longrightarrow> db_ok d \<Longrightarrow> db_ok d'"
proof (induction rule: db_step.induct)
  case (consume_token d ji ui t u)
  then show ?case
    by (simp add: ConsumeRefreshToken_def Let_def db_ok_revoke_where split: option.split)
qed (simp_all add: db_ok_execution_stmt db_ok_CreateExecution db_ok_identity_stmt
    RevokeRefreshToken_def RevokeAllRefreshTokens_def db_ok_revoke_where)

lemma db_path_ok: "db_path d d' \<Longrightarrow> db_ok d \<Longrightarrow> db_ok d'"
  by (induction rule: rtranclp_induct) (auto dest: db_step_ok)

subsection \<open>The status graph\<close>

definition edges_ok :: "db \<Rightarrow> db \<Rightarrow> bool" where
  "edges_ok d d' \<longleftrightarrow>
     (\<forall>i<length (executions d). status_edge (e_status (executions d ! i)) (e_status (executions d' ! i)))"

lemma edges_ok_update:
  "(\<And>r. r \<in> set (executions d) \<Longrightarrow> p r \<Longrightarrow> status_edge (e_status r) (e_status (f r))) \<Longrightarrow>
   edges_ok d (upd_executions p f d)"
  by (auto simp: edges_ok_def update_where_def) (simp_all add: status_edge_def)

lemma edges_ok_same: "executions d' = executions d \<Longrightarrow> edges_ok d d'"
  by (simp add: edges_ok_def status_edge_def)

lemma executions_identity_stmt [simp]:
  "executions (snd (CreateUser x em nm h t u d)) = executions d"
  "executions (snd (CreateTenant x ti sl ns tr t u d)) = executions d"
  "executions (snd (AddMembership ui ti ro t u d)) = executions d"
  "executions (snd (CreateAPIKey ki ui ti nm h t u d)) = executions d"
  "executions (snd (RevokeAPIKey ki t u d)) = executions d"
  "executions (snd (CreateRefreshToken ji ui ex t u d)) = executions d"
  "executions (snd (RevokeRefreshToken ji t u d)) = executions d"
  "executions (snd (RevokeAllRefreshTokens ui t u d)) = executions d"
  "executions (snd (ConsumeRefreshToken ji ui t u d)) = executions d"
  by (simp_all add: store_defs revoke_where_def Let_def split: option.split)

lemma edges_ok_refl [simp]: "edges_ok d d"
  by (simp add: edges_ok_same)

lemma edges_execution_stmt:
  "edges_ok d (snd (MarkExecutionRunning i t u d))" "edges_ok d (snd (RequeueExecution i t u d))"
  "edges_ok d (snd (SetExecutionFailed i msg t u d))"
  "edges_ok d (snd (ReapStaleExecutions msg secs t u d))"
  "edges_ok d (snd (MarkStaleQueuedFailed msg j t u d))"
  "final_status (fp_status a) \<Longrightarrow> edges_ok d (snd (FinishExecution a t u d))"
  by (auto simp: store_defs Let_def set_status_def set_failed_def finish_row_def status_edge_def
      final_status_def split: option.split intro!: edges_ok_update)

lemma edges_CreateExecution: "edges_ok d (snd (CreateExecution p t u d))"
  by (auto simp: CreateExecution_def edges_ok_def nth_append status_edge_def split: option.split)

lemma db_step_edges: "db_step d d' \<Longrightarrow> edges_ok d d'"
  by (induction rule: db_step.induct)
    (simp_all add: edges_execution_stmt edges_CreateExecution edges_ok_same)

end
