(* ===== verification/Sample.thy ===== *)
theory Sample
  imports Executions
begin

section \<open>A concrete environment\<close>

text \<open>
  A small instance of the external code, of the tables and of the world, on which the
  properties of the components are applied to concrete inputs: two UUIDs with one-character
  names, one user, one tenant, one queued execution, and a quiet outside world.
\<close>

definition sample_ext :: ext where
  "sample_ext =
     \<lparr>x_lower = (\<lambda>n. n),
      x_uuid_parse = (\<lambda>s. if s = ''1'' then Some 1 else if s = ''2'' then Some 2
                          else if s = ''0'' then Some 0 else None),
      x_uuid_string = (\<lambda>i. if i = 1 then ''1'' else if i = 2 then ''2'' else ''0''),
      x_url_parse = (\<lambda>s. if s = ''https://example.com/hook''
         then Some \<lparr>url_scheme = ''https'', url_host = ''example.com'', url_hostname = ''example.com''\<rparr>
         else None),
      x_mail_ok = (\<lambda>s. s \<noteq> []),
      x_sha256 = (\<lambda>s. s),
      x_hmac = (\<lambda>k s. k @ s),
      x_bcrypt_hash = (\<lambda>salt cost pw. Some (''h'' @ pw)),
      x_bcrypt_check = (\<lambda>h pw. h = ''h'' @ pw),
      x_jwt_sign = (\<lambda>key c. Some (cl_subject c @ ''.'' @ key)),
      x_jwt_parse = (\<lambda>key aud t s. None),
      x_parse_duration = (\<lambda>s. if s = ''15m'' then Some (900 * second) else None),
      x_rfc3339 = (\<lambda>t. ''t''),
      x_citext = (\<lambda>s. s)\<rparr>"

definition sample_exec :: execution where
  "sample_exec =
     \<lparr>e_id = 1, e_tenant_id = 2, e_language = ''python'', e_status = ''queued'',
      e_source = ''print(1)'', e_stdin = [], e_stdout = [], e_stderr = [], e_exit_code = None,
      e_created_at = 0, e_updated_at = 0, e_timeout_s = 5, e_webhook_url = None,
      e_submitted_by_user_id = Some 1, e_submitted_by_api_key_id = None\<rparr>"

definition sample_tenant :: tenant where
  "sample_tenant = \<lparr>t_id = 2, t_slug = ''acme'', t_namespace = ''tenant-2'', t_tier = ''free'',
     t_created_at = 0\<rparr>"

definition sample_user :: user where
  "sample_user = \<lparr>u_id = 1, u_email = ''a@b.c'', u_username = ''ann'', u_password_hash = ''hpw'',
     u_created_at = 0\<rparr>"

definition sample_db :: db where
  "sample_db =
     \<lparr>users = [sample_user], tenants = [sample_tenant],
      memberships = [\<lparr>m_user_id = 1, m_tenant_id = 2, m_role = ''owner'', m_created_at = 0\<rparr>],
      api_keys = [], executions = [sample_exec], refresh_tokens = [], schema_migrations = []\<rparr>"

definition sample_world :: world where
  "sample_world =
     \<lparr>db = sample_db, now = 1000 * second, script = [], published = [], containers = [],
      created = [], started = [], fed = [], posts = [],
      streams = (\<lambda>_. None), consumers = (\<lambda>_. None)\<rparr>"

text \<open>The table with the execution in another state.\<close>

definition sample_with :: "execution \<Rightarrow> db" where
  "sample_with r = sample_db\<lparr>executions := [r]\<rparr>"

text \<open>The execution after it has finished.\<close>

definition sample_done :: execution where
  "sample_done = sample_exec\<lparr>e_status := ''succeeded'', e_stdout := ''1''\<rparr>"

lemma sample_executions [simp]: "executions sample_db = [sample_exec]"
  "executions (sample_with r) = [r]"
  by (simp_all add: sample_db_def sample_with_def)

lemma sample_rows [simp]:
  "tenants sample_db = [sample_tenant]" "t_id sample_tenant = 2" "t_tier sample_tenant = ''free''"
  "users sample_db = [sample_user]" "u_id sample_user = 1" "u_username sample_user = ''ann''"
  "u_email sample_user = ''a@b.c''" "u_password_hash sample_user = ''hpw''"
  "api_keys sample_db = []" "refresh_tokens sample_db = []"
  by (simp_all add: sample_db_def sample_tenant_def sample_user_def)

lemma sample_uuids [simp]:
  "x_uuid_parse sample_ext ''1'' = Some 1" "x_uuid_parse sample_ext ''2'' = Some 2"
  "x_uuid_string sample_ext 1 = ''1''" "x_uuid_string sample_ext 2 = ''2''"
  "x_uuid_string sample_ext 0 = ''0''" "x_uuid_parse sample_ext ''0'' = Some 0"
  by (simp_all add: sample_ext_def)

lemma sample_exec_sel [simp]: "e_status sample_exec = ''queued''" "e_id sample_exec = 1"
  by (simp_all add: sample_exec_def)

lemma sample_world_sel [simp]: "script sample_world = []" "db sample_world = sample_db"
  "now sample_world = 1000 * second"
  by (simp_all add: sample_world_def)

lemma sample_db_ok: "db_ok sample_db"
  by (simp add: db_ok_def sample_db_def sample_exec_def exec_ok_def ValidLanguage_def
      SupportedLanguages_def)

lemmas sample_defs = sample_ext_def sample_exec_def sample_db_def sample_world_def sample_with_def

end
