(* ===== verification/Execution_Laws.thy ===== *)
theory Execution_Laws
  imports Sample
begin

section \<open>The laws of the execution table\<close>

text \<open>
  What holds of the tables under every sequence of the program's SQL statements, whichever
  processes issue them: the consequences of the order and the invariant of theory Executions.
\<close>

text \<open>
  Property C3: whatever statements any number of processes issue, in any order, an execution
  that has reached succeeded, failed or timeout keeps its whole row: status, output, exit code
  and timestamps.
\<close>

theorem terminal_rows_final:
  assumes "db_path d d'" and "r \<in> set (executions d)" and "terminal r"
  shows "r \<in> set (executions d')"
  using db_le_terminal [OF db_path_le [OF assms(1)] assms(2,3)] .

theorem terminal_rows_final_witness:
  "sample_done \<in> set (executions (snd (RequeueExecution (Some 1) 7 0
     (snd (ReapStaleExecutions ''x'' 0 9 0 (sample_with sample_done))))))"
proof -
  have "db_path (sample_with sample_done)
      (snd (RequeueExecution (Some 1) 7 0 (snd (ReapStaleExecutions ''x'' 0 9 0 (sample_with sample_done)))))"
    using db_step.reap db_step.requeue by (meson converse_rtranclp_into_rtranclp r_into_rtranclp)
  then show ?thesis
    by (rule terminal_rows_final) (simp_all add: sample_done_def sample_defs terminal_def)
qed

text \<open>
  Every execution row keeps its place and everything the submitter wrote (id,
  tenant, language, source, stdin, creation time, timeout, webhook URL and submitter) under
  all statements.
\<close>

theorem request_columns_immutable:
  assumes "db_path d d'" and "n < length (executions d)"
  shows "n < length (executions d') \<and> same_request (executions d ! n) (executions d' ! n)"
  using db_path_le [OF assms(1)] assms(2) by (auto simp: db_le_def grows_def row_le_def)

theorem request_columns_immutable_witness:
  "same_request sample_exec
     (executions (snd (MarkExecutionRunning (Some 1) 7 0 sample_db)) ! 0)"
  using request_columns_immutable [of sample_db "snd (MarkExecutionRunning (Some 1) 7 0 sample_db)" 0]
    r_into_rtranclp [of db_step, OF db_step.mark_running] by simp



text \<open>
  A single statement moves an execution only along an edge of the status graph:
  queued to running or failed; running back to queued or to succeeded, failed or timeout.
\<close>

theorem status_graph:
  assumes "db_step d d'" and "n < length (executions d)"
  shows "status_edge (e_status (executions d ! n)) (e_status (executions d' ! n))"
  using db_step_edges [OF assms(1)] assms(2) by (simp add: edges_ok_def)

theorem status_graph_witness:
  "status_edge ''queued'' (e_status (executions (snd (MarkExecutionRunning (Some 1) 7 0 sample_db)) ! 0))"
  using status_graph [OF db_step.mark_running, of 0 sample_db "Some 1" 7 0]
  by simp

end
