(* ===== verification/Guarantee.thy ===== *)
theory Guarantee
  imports Executions
begin

section \<open>Rely and guarantee for operations on the world\<close>

text \<open>
  \<open>keeps P p\<close> says that an operation that returned \<open>p\<close> ended in a world with \<open>P\<close>; its rules
  follow the shape of the translated code (sequencing, conditionals, case distinctions), so the
  proof for a handler is the list of the calls it makes.

  The locale \<open>store_client\<close> is the contract between the tables and the code: a relation
  \<open>R\<close> on tables that is reflexive and transitive and that every SQL statement of the program
  respects. Under the assumption that the other processes respect \<open>R\<close> too (\<open>obeys\<close>), every
  operation of the program does. The instance used is the path relation of the statements,
  from which the order and the invariant of theory Executions follow.
\<close>

definition keeps :: "(world \<Rightarrow> bool) \<Rightarrow> 'a \<times> world \<Rightarrow> bool" where
  "keeps P p \<longleftrightarrow> P (snd p)"

lemma keeps_ret: "P w \<Longrightarrow> keeps P (a, w)"
  by (simp add: keeps_def)

lemma keeps_bind:
  "keeps P p \<Longrightarrow> (\<And>a w1. p = (a, w1) \<Longrightarrow> P w1 \<Longrightarrow> keeps P (g a w1)) \<Longrightarrow>
   keeps P (case p of (a, w1) \<Rightarrow> g a w1)"
  by (cases p) (simp add: keeps_def)

lemma keeps_if: "(b \<Longrightarrow> keeps P p) \<Longrightarrow> (\<not> b \<Longrightarrow> keeps P q) \<Longrightarrow> keeps P (if b then p else q)"
  by simp

lemma keeps_sum:
  "(\<And>e. s = Inl e \<Longrightarrow> keeps P (f e)) \<Longrightarrow> (\<And>a. s = Inr a \<Longrightarrow> keeps P (g a)) \<Longrightarrow>
   keeps P (case s of Inl e \<Rightarrow> f e | Inr a \<Rightarrow> g a)"
  by (simp split: sum.splits)

lemma keeps_option:
  "(s = None \<Longrightarrow> keeps P f) \<Longrightarrow> (\<And>a. s = Some a \<Longrightarrow> keeps P (g a)) \<Longrightarrow>
   keeps P (case s of None \<Rightarrow> f | Some a \<Rightarrow> g a)"
  by (simp split: option.splits)

lemma keeps_let: "keeps P (f a) \<Longrightarrow> keeps P (let v = a in f v)"
  by simp

lemma keeps_triple:
  "(\<And>a b c. s = (a, b, c) \<Longrightarrow> keeps P (f a b c)) \<Longrightarrow> keeps P (case s of (a, b, c) \<Rightarrow> f a b c)"
  by (simp split: prod.splits)

lemmas keeps_rules = keeps_ret keeps_if keeps_sum keeps_option keeps_let

text \<open>
  \<open>same_io w0 w\<close>: nothing has been published, posted, created, started or sent since \<open>w0\<close>.
\<close>

definition same_io :: "world \<Rightarrow> world \<Rightarrow> bool" where
  "same_io w0 w \<longleftrightarrow> published w = published w0 \<and> posts w = posts w0 \<and> started w = started w0
     \<and> containers w = containers w0 \<and> created w = created w0 \<and> fed w = fed w0"

lemma same_io_refl [simp]: "same_io w w"
  by (simp add: same_io_def)

lemma same_io_trans: "same_io a b \<Longrightarrow> same_io b c \<Longrightarrow> same_io a c"
  by (simp add: same_io_def)

lemma same_io_irrelevant [simp]:
  "same_io w0 (w\<lparr>db := d\<rparr>) = same_io w0 w" "same_io w0 (w\<lparr>now := n\<rparr>) = same_io w0 w"
  "same_io w0 (w\<lparr>script := sc\<rparr>) = same_io w0 w" "same_io w0 (tx_rollback t w) = same_io w0 w"
  by (simp_all add: same_io_def tx_rollback_def)

lemma tick_same: "same_io w0 w \<Longrightarrow> keeps (same_io w0) (tick w)"
  by (simp add: keeps_def same_io_def frame)

lemma select_same: "same_io w0 w \<Longrightarrow> keeps (same_io w0) (select_until t w)"
  using tick_same [of w0 w] by (cases "tick w") (simp add: select_until_def keeps_def)

lemma call_same:
  assumes "same_io w0 w"
  shows "keeps (same_io w0) (db_call q w)" "keeps (same_io w0) (tx_begin w)"
    "keeps (same_io w0) (tx_call t q' w)" "keeps (same_io w0) (tx_commit t w)"
    "keeps (same_io w0) (sleep n w)"
  using assms by (simp_all add: keeps_def same_io_def frame)

subsection \<open>Interference\<close>

definition obeys :: "(db \<Rightarrow> db \<Rightarrow> bool) \<Rightarrow> world \<Rightarrow> bool" where
  "obeys R w \<longleftrightarrow> (\<forall>e\<in>set (script w). \<forall>d. R d (ev_interfere e d))"

text \<open>The tables have come from \<open>d0\<close> by \<open>R\<close>, and the others obey \<open>R\<close>.\<close>

definition safe :: "(db \<Rightarrow> db \<Rightarrow> bool) \<Rightarrow> db \<Rightarrow> world \<Rightarrow> bool" where
  "safe R d0 w \<longleftrightarrow> R d0 (db w) \<and> obeys R w"

lemma obeys_call: "obeys R w \<Longrightarrow> db_call q w = (r, w') \<Longrightarrow> obeys R w'"
  by (cases "tick w")
    (auto simp: db_call_def obeys_def tick_def split: fault.splits prod.splits list.splits)

locale rely_guarantee =
  fixes R :: "db \<Rightarrow> db \<Rightarrow> bool"
  assumes R_refl: "R d d"
    and R_trans: "R a b \<Longrightarrow> R b c \<Longrightarrow> R a c"
begin

lemma safe_start: "obeys R w \<Longrightarrow> safe R (db w) w"
  by (simp add: safe_def R_refl)

lemma tick_safe: "safe R d0 w \<Longrightarrow> tick w = (e, w1) \<Longrightarrow> safe R d0 w1"
  by (auto simp: safe_def obeys_def tick_def split: list.splits intro: R_trans)

lemma tick_keeps: "safe R d0 w \<Longrightarrow> keeps (safe R d0) (tick w)"
  by (cases "tick w") (simp add: keeps_def tick_safe)

lemma tx_tick_safe: "safe R d0 w \<Longrightarrow> tx_tick w = (e, w1) \<Longrightarrow> safe R d0 w1"
  by (auto simp: safe_def obeys_def tx_tick_def split: list.splits)

lemma safe_db: "safe R d0 w \<Longrightarrow> R (db w) d \<Longrightarrow> safe R d0 (w\<lparr>db := d\<rparr>)"
  by (auto simp: safe_def obeys_def intro: R_trans)

lemma select_keeps: "safe R d0 w \<Longrightarrow> keeps (safe R d0) (select_until t w)"
  using tick_safe [of d0 w] by (cases "tick w") (simp add: select_until_def keeps_def safe_def obeys_def)

lemma db_call_keeps:
  assumes "\<And>t u d. R d (snd (q t u d))" and "safe R d0 w"
  shows "keeps (safe R d0) (db_call q w)"
proof (cases "tick w")
  case (Pair e w1)
  with assms(2) have w1: "safe R d0 w1" by (rule tick_safe)
  then have "safe R d0 (w1\<lparr>db := snd (q (now w1) (ev_uuid e) (db w1))\<rparr>)"
    using assms(1) by (intro safe_db)
  with Pair w1 show ?thesis
    by (auto simp: keeps_def db_call_def split: fault.split prod.split)
qed

lemma tx_begin_keeps: "safe R d0 w \<Longrightarrow> keeps (safe R d0) (tx_begin w)"
  by (auto simp: keeps_def tx_begin_def dest: tick_safe split: prod.split fault.split)

lemma tx_begin_saved:
  "safe R d0 w \<Longrightarrow> tx_begin w = (Inr t, w1) \<Longrightarrow> R d0 (tx_saved t)"
  by (auto simp: tx_begin_def safe_def dest: tick_safe split: prod.splits fault.splits)
    (metis safe_def tick_safe)

lemma tx_call_keeps:
  assumes "\<And>t u d. R d (snd (q t u d))" and "safe R d0 w"
  shows "keeps (safe R d0) (tx_call t q w)"
proof (cases "tx_tick w")
  case (Pair e w1)
  with assms(2) have w1: "safe R d0 w1" by (rule tx_tick_safe)
  then have "safe R d0 (w1\<lparr>db := snd (q (tx_now t) (ev_uuid e) (db w1))\<rparr>)"
    using assms(1) by (intro safe_db)
  with Pair w1 show ?thesis
    by (auto simp: keeps_def tx_call_def split: fault.split prod.split)
qed

lemma tx_rollback_safe: "safe R d0 w \<Longrightarrow> R d0 (tx_saved t) \<Longrightarrow> safe R d0 (tx_rollback t w)"
  by (simp add: safe_def obeys_def tx_rollback_def)

lemma tx_commit_keeps:
  "safe R d0 w \<Longrightarrow> R d0 (tx_saved t) \<Longrightarrow> keeps (safe R d0) (tx_commit t w)"
  by (auto simp: keeps_def tx_commit_def dest: tx_tick_safe intro: tx_rollback_safe
      split: prod.split fault.split)

lemma sleep_keeps: "safe R d0 w \<Longrightarrow> keeps (safe R d0) (sleep n w)"
  by (auto simp: keeps_def sleep_def safe_def obeys_def dest: tick_safe split: prod.split)
    (metis (no_types, lifting) obeys_def safe_def tick_safe)+

lemma safe_irrelevant [simp]:
  "safe R d0 (w\<lparr>published := p\<rparr>) = safe R d0 w" "safe R d0 (w\<lparr>posts := q\<rparr>) = safe R d0 w"
  "safe R d0 (w\<lparr>started := s\<rparr>) = safe R d0 w" "safe R d0 (w\<lparr>containers := c\<rparr>) = safe R d0 w"
  "safe R d0 (w\<lparr>created := cr\<rparr>) = safe R d0 w" "safe R d0 (w\<lparr>fed := fd\<rparr>) = safe R d0 w"
  "safe R d0 (w\<lparr>now := n\<rparr>) = safe R d0 w" "safe R d0 (w\<lparr>streams := ss\<rparr>) = safe R d0 w"
  "safe R d0 (w\<lparr>consumers := cs\<rparr>) = safe R d0 w"
  by (simp_all add: safe_def obeys_def)

lemma js_publish_keeps: "safe R d0 w \<Longrightarrow> keeps (safe R d0) (js_publish s p w)"
  by (auto simp: keeps_def js_publish_def dest: tick_safe split: prod.split fault.split)

text \<open>A call happens at one point of the history of the tables.\<close>

lemma db_call_point:
  assumes "obeys R w" and "db_call q w = (r, w')"
  shows "\<exists>d t u. R (db w) d \<and> (r = fst (q t u d) \<and> db w' = snd (q t u d)
    \<or> (\<exists>e. r = Inl e \<and> db w' \<in> {d, snd (q t u d)}))"
proof -
  obtain e w1 where t: "tick w = (e, w1)" by (metis prod.exhaust)
  have "R (db w) (db w1)"
    using tick_safe [OF safe_start [OF assms(1)] t] by (simp add: safe_def)
  with assms(2) t show ?thesis
    by (intro exI [of _ "db w1"] exI [of _ "now w1"] exI [of _ "ev_uuid e"])
      (auto simp: db_call_def split: prod.splits fault.splits)
qed

end

locale store_client = rely_guarantee +
  assumes R_stmt: "db_step d d' \<Longrightarrow> R d d'"
begin

lemmas stmt_R = db_step.intros [THEN R_stmt]

lemma read_R:
  "R d (snd (CountActiveExecutions tid t u d))"
  "R d (snd (CountExecutionsSince tid s t u d))"
  "R d (snd (GetExecution i tid t u d))"
  "R d (snd (ListExecutions tid l off t u d))"
  "R d (snd (ListStaleQueuedExecutions secs t u d))"
  "R d (snd (GetUserByEmail x em t u d))"
  "R d (snd (GetUserByID i t u d))"
  "R d (snd (GetUserByUsername nm t u d))"
  "R d (snd (ListTenantMemberships i t u d))"
  "R d (snd (CheckMembership i tid t u d))"
  "R d (snd (GetTenant i t u d))"
  "R d (snd (GetAPIKey kid t u d))"
  "R d (snd (ListAPIKeys tid t u d))"
  by (simp_all add: R_refl)

lemmas store_rules = stmt_R read_R

end

interpretation path: store_client db_path
  by unfold_locales (auto intro: rtranclp_trans)

text \<open>A contract between the tables and one property of them that every statement keeps.\<close>

interpretation table_order: store_client db_le
  by unfold_locales (auto intro: db_le_trans db_step_le)

lemma safe_path_ok: "safe db_path d0 w \<Longrightarrow> db_ok d0 \<Longrightarrow> db_ok (db w)"
  by (auto simp: safe_def dest: db_path_ok)

lemma safe_path_le: "safe db_path d0 w \<Longrightarrow> db_le d0 (db w)"
  by (auto simp: safe_def dest: db_path_le)

subsection \<open>Kinds of scripts\<close>

text \<open>No call of the script is ambiguous.\<close>

definition clear :: "world \<Rightarrow> bool" where
  "clear w \<longleftrightarrow> (\<forall>e\<in>set (script w). ev_fault e \<noteq> Ambiguous)"

lemma tick_clear: "clear w \<Longrightarrow> tick w = (e, w1) \<Longrightarrow> clear w1 \<and> ev_fault e \<noteq> Ambiguous"
  by (auto simp: clear_def tick_def split: list.splits)

text \<open>How many calls of the script fail, and whether it never cancels the context.\<close>

definition faults :: "world \<Rightarrow> nat" where
  "faults w = count_where (\<lambda>e. ev_fault e \<noteq> Done) (script w)"

definition uncancelled :: "world \<Rightarrow> bool" where
  "uncancelled w \<longleftrightarrow> (\<forall>e\<in>set (script w). \<not> ev_cancelled e)"

lemma tick_faults:
  assumes "tick w = (e, w1)"
  shows "faults w = faults w1 + (if ev_fault e = Done then 0 else 1)"
    and "uncancelled w \<Longrightarrow> uncancelled w1 \<and> \<not> ev_cancelled e"
  using assms by (auto simp: faults_def uncancelled_def tick_def split: list.splits)

lemma faults_irrelevant [simp]:
  "faults (w\<lparr>db := d\<rparr>) = faults w" "faults (w\<lparr>now := n\<rparr>) = faults w"
  "uncancelled (w\<lparr>db := d\<rparr>) = uncancelled w" "uncancelled (w\<lparr>now := n\<rparr>) = uncancelled w"
  by (simp_all add: faults_def uncancelled_def)

lemma tick_clear_db: "clear w \<Longrightarrow> db_call q w = (r, w') \<Longrightarrow> clear w'"
  by (cases "tick w") (auto simp: db_call_def clear_def tick_def split: fault.splits prod.splits list.splits)

lemma quiet_obeys: "script w = [] \<Longrightarrow> obeys R w" "script w = [] \<Longrightarrow> clear w"
  by (simp_all add: obeys_def clear_def)

lemma db_call_quiet:
  "script w = [] \<Longrightarrow> db_call q w = (fst (q (now w) 0 (db w)), w\<lparr>db := snd (q (now w) 0 (db w))\<rparr>)"
  by (simp add: db_call_def split: prod.split)

lemma db_call_same: "db_call q w = (r, w') \<Longrightarrow> same_io w w'"
  using call_same(1) [of w w q] by (simp add: keeps_def)

text \<open>What is left of a script is a suffix of it, so what holds of all its events still holds.\<close>

definition later :: "world \<Rightarrow> world \<Rightarrow> bool" where
  "later w0 w \<longleftrightarrow> (\<exists>es. script w0 = es @ script w)"

lemma later_refl [simp]: "later w w"
  by (simp add: later_def)

lemma later_trans: "later a b \<Longrightarrow> later b c \<Longrightarrow> later a c"
  by (auto simp: later_def)

lemma later_obeys: "later w0 w \<Longrightarrow> obeys R w0 \<Longrightarrow> obeys R w"
  by (auto simp: later_def obeys_def)

lemma later_clear: "later w0 w \<Longrightarrow> clear w0 \<Longrightarrow> clear w"
  by (auto simp: later_def clear_def)

lemma later_irrelevant [simp]:
  "later w0 (w\<lparr>db := d\<rparr>) = later w0 w" "later w0 (w\<lparr>now := n\<rparr>) = later w0 w"
  "later w0 (w\<lparr>published := p\<rparr>) = later w0 w" "later w0 (tx_rollback t w) = later w0 w"
  by (simp_all add: later_def tx_rollback_def)

lemma tick_later: "later w0 w \<Longrightarrow> tick w = (e, w1) \<Longrightarrow> later w0 w1"
  by (auto simp: later_def tick_def split: list.splits)

lemma tx_tick_later: "later w0 w \<Longrightarrow> tx_tick w = (e, w1) \<Longrightarrow> later w0 w1"
  by (auto simp: later_def tx_tick_def split: list.splits)

lemma call_later:
  assumes "later w0 w"
  shows "keeps (later w0) (db_call q w)" "keeps (later w0) (tx_begin w)"
    "keeps (later w0) (tx_call t q' w)" "keeps (later w0) (tx_commit t w)"
    "keeps (later w0) (sleep n w)" "keeps (later w0) (js_publish s p w)" "keeps (later w0) (tick w)"
  using tick_later [OF assms] tx_tick_later [OF assms]
  by (cases "tick w"; cases "tx_tick w"; auto simp: keeps_def io_defs split: fault.split prod.split)+

subsection \<open>Operations without interference\<close>

interpretation alone: rely_guarantee "(=)"
  by unfold_locales auto

lemma alone_tick: "obeys (=) w \<Longrightarrow> tick w = (e, w1) \<Longrightarrow> db w1 = db w \<and> obeys (=) w1"
  using alone.tick_safe [of "db w" w e w1] by (simp add: safe_def)

text \<open>A statement answered with an error has happened or not; one answered with success has.\<close>

lemma db_call_alone:
  assumes "obeys (=) w" and "db_call q w = (r, w')"
  shows "obeys (=) w'"
    and "\<exists>t u. r = fst (q t u (db w)) \<and> db w' = snd (q t u (db w))
           \<or> r \<in> {Inl ConnError, Inl (PgError ''55P03'')} \<and> db w' \<in> {db w, snd (q t u (db w))}"
proof -
  obtain e w1 where t: "tick w = (e, w1)" by (metis prod.exhaust)
  have w1: "db w1 = db w" "obeys (=) w1" using alone_tick [OF assms(1) t] by auto
  from assms(2) t w1 show "obeys (=) w'"
    by (auto simp: db_call_def obeys_def split: fault.splits prod.splits)
  from assms(2) t w1 show "\<exists>t u. r = fst (q t u (db w)) \<and> db w' = snd (q t u (db w))
      \<or> r \<in> {Inl ConnError, Inl (PgError ''55P03'')} \<and> db w' \<in> {db w, snd (q t u (db w))}"
    by (intro exI [of _ "now w1"] exI [of _ "ev_uuid e"])
      (auto simp: db_call_def split: fault.splits prod.splits)
qed

end
