(* ===== verification/Messaging.thy ===== *)
theory Messaging
  imports Guarantee
begin

section \<open>JetStream subjects and publishing\<close>

text \<open>
  \<open>internal/nats/client.go\<close>, the publishing half of \<open>internal/nats/publish.go\<close>, and the
  publisher the router falls back to. The locale \<open>submit_publisher\<close> is the interface
  \<open>rnats.Publisher\<close> with what the submit handler relies on.
\<close>

definition StreamSubmit :: string where "StreamSubmit = ''EXEC_SUBMIT''"

definition StreamResult :: string where "StreamResult = ''EXEC_RESULT''"

definition SubjectForSubmit :: "string \<Rightarrow> string" where
  "SubjectForSubmit lang = ''exec.submit.'' @ lang"

definition SubjectForResult :: "string \<Rightarrow> string" where
  "SubjectForResult i = ''exec.result.'' @ i"

text \<open>
  \<open>Client.PublishSubmit\<close> and \<open>Client.PublishResult\<close>. Marshalling a struct of strings and
  an optional number cannot fail, and neither can \<open>jetstream.New\<close> on an open connection.
\<close>

definition PublishSubmit :: "submit_message \<Rightarrow> world \<Rightarrow> unit result \<times> world" where
  "PublishSubmit m w = js_publish (SubjectForSubmit (sm_language m)) (Submit m) w"

definition PublishResult :: "result_message \<Rightarrow> world \<Rightarrow> unit result \<times> world" where
  "PublishResult m w = js_publish (SubjectForResult (rm_execution_id m)) (Result m) w"

text \<open>\<open>errPublisher\<close> of \<open>internal/http/router.go\<close>.\<close>

definition errPublisher :: "submit_message \<Rightarrow> world \<Rightarrow> unit result \<times> world" where
  "errPublisher m w = (Inl (Failure ''nats unavailable''), w)"

subsection \<open>The publisher interface\<close>

locale submit_publisher =
  fixes publish :: "submit_message \<Rightarrow> world \<Rightarrow> unit result \<times> world"
  assumes publish_ok: "publish m w = (nil_err, w') \<Longrightarrow>
      published w' = published w @ [(SubjectForSubmit (sm_language m), Submit m)]"
    and publish_safe: "(\<And>a b c. R a b \<Longrightarrow> R b c \<Longrightarrow> R a c) \<Longrightarrow> (\<And>d. R d d) \<Longrightarrow>
      safe R d0 w \<Longrightarrow> keeps (safe R d0) (publish m w)"
    and publish_err: "clear w \<Longrightarrow> publish m w = (Inl e, w') \<Longrightarrow> published w' = published w"
    and publish_later: "later w0 w \<Longrightarrow> keeps (later w0) (publish m w)"
    and publish_posts: "posts (snd (publish m w)) = posts w"
    and publish_started: "started (snd (publish m w)) = started w"

lemma js_publish_keeps_safe:
  "(\<And>a b c. R a b \<Longrightarrow> R b c \<Longrightarrow> R a c) \<Longrightarrow> (\<And>d. R d d) \<Longrightarrow>
   safe R d0 w \<Longrightarrow> keeps (safe R d0) (js_publish s p w)"
  by (rule rely_guarantee.js_publish_keeps) (unfold_locales, blast+)

lemma js_publish_ok: "js_publish s p w = (nil_err, w') \<Longrightarrow> published w' = published w @ [(s, p)]"
  by (auto simp: js_publish_def tickD split: prod.splits fault.splits)

lemma js_publish_err: "clear w \<Longrightarrow> js_publish s p w = (Inl e, w') \<Longrightarrow> published w' = published w"
  by (cases "tick w") (auto simp: js_publish_def dest: tickD tick_clear split: fault.splits)

interpretation nats: submit_publisher PublishSubmit
  by unfold_locales
    (auto simp: PublishSubmit_def frame dest: js_publish_ok js_publish_err
      intro: js_publish_keeps_safe call_later)

interpretation no_nats: submit_publisher errPublisher
  by unfold_locales (auto simp: errPublisher_def keeps_def)

end
