(* ===== verification/Webhooks.thy ===== *)
theory Webhooks
  imports Messaging Sample
begin

unbundle bit_operations_syntax

section \<open>Webhooks: URL safety, signing and delivery\<close>

text \<open>
  \<open>internal/webhooks/urlsafety.go\<close> and \<open>internal/webhooks/deliver.go\<close>. Go's \<open>net.IP\<close> is a
  byte slice of length 4 or 16; its predicates are written out. DNS answers and the receiver's
  replies come from the script; \<open>net/url\<close>'s parser and HMAC-SHA256 are external.
\<close>

subsection \<open>Addresses\<close>

definition v4InV6Prefix :: ip where
  "v4InV6Prefix = [0, 0, 0, 0, 0, 0, 0, 0, 0, 0, 0xff, 0xff]"

definition To4 :: "ip \<Rightarrow> ip option" where
  "To4 ip =
     (if length ip = 4 then Some ip
      else if length ip = 16 \<and> take 12 ip = v4InV6Prefix then Some (drop 12 ip)
      else None)"

definition IP_Equal :: "ip \<Rightarrow> ip \<Rightarrow> bool" where
  "IP_Equal a b \<longleftrightarrow>
     (if length a = length b then a = b
      else if length a = 4 \<and> length b = 16 then take 12 b = v4InV6Prefix \<and> drop 12 b = a
      else if length a = 16 \<and> length b = 4 then take 12 a = v4InV6Prefix \<and> drop 12 a = b
      else False)"

definition IsUnspecified :: "ip \<Rightarrow> bool" where
  "IsUnspecified ip \<longleftrightarrow> IP_Equal ip (v4InV6Prefix @ [0, 0, 0, 0]) \<or> IP_Equal ip (replicate 16 0)"

definition IsLoopback :: "ip \<Rightarrow> bool" where
  "IsLoopback ip \<longleftrightarrow>
     (case To4 ip of Some v \<Rightarrow> v ! 0 = 127 | None \<Rightarrow> IP_Equal ip (replicate 15 0 @ [1]))"

definition IsPrivate :: "ip \<Rightarrow> bool" where
  "IsPrivate ip \<longleftrightarrow>
     (case To4 ip of
        Some v \<Rightarrow> v ! 0 = 10 \<or> v ! 0 = 172 \<and> v ! 1 AND 0xf0 = 16 \<or> v ! 0 = 192 \<and> v ! 1 = 168
      | None \<Rightarrow> length ip = 16 \<and> ip ! 0 AND 0xfe = 0xfc)"

definition IsMulticast :: "ip \<Rightarrow> bool" where
  "IsMulticast ip \<longleftrightarrow>
     (case To4 ip of
        Some v \<Rightarrow> v ! 0 AND 0xf0 = 0xe0
      | None \<Rightarrow> length ip = 16 \<and> ip ! 0 = 0xff)"

definition IsLinkLocalMulticast :: "ip \<Rightarrow> bool" where
  "IsLinkLocalMulticast ip \<longleftrightarrow>
     (case To4 ip of
        Some v \<Rightarrow> v ! 0 = 224 \<and> v ! 1 = 0 \<and> v ! 2 = 0
      | None \<Rightarrow> length ip = 16 \<and> ip ! 0 = 0xff \<and> ip ! 1 AND 0x0f = 2)"

definition IsLinkLocalUnicast :: "ip \<Rightarrow> bool" where
  "IsLinkLocalUnicast ip \<longleftrightarrow>
     (case To4 ip of
        Some v \<Rightarrow> v ! 0 = 169 \<and> v ! 1 = 254
      | None \<Rightarrow> length ip = 16 \<and> ip ! 0 = 0xfe \<and> ip ! 1 AND 0xc0 = 0x80)"

definition isPublic :: "ip \<Rightarrow> bool" where
  "isPublic ip \<longleftrightarrow> \<not> IsLoopback ip \<and> \<not> IsPrivate ip \<and> \<not> IsLinkLocalUnicast ip
     \<and> \<not> IsLinkLocalMulticast ip \<and> \<not> IsMulticast ip \<and> \<not> IsUnspecified ip"

lemmas ip_defs = isPublic_def IsLoopback_def IsPrivate_def IsLinkLocalUnicast_def
  IsLinkLocalMulticast_def IsMulticast_def IsUnspecified_def IP_Equal_def To4_def v4InV6Prefix_def

subsection \<open>Callback URLs\<close>

definition lookupIP :: "string \<Rightarrow> world \<Rightarrow> ip list result \<times> world" where
  "lookupIP host w =
     (case tick w of (e, w1) \<Rightarrow>
        (case ev_ips e of None \<Rightarrow> Inl ConnError | Some ips \<Rightarrow> Inr ips, w1))"

definition checkPublicHost :: "ext \<Rightarrow> string \<Rightarrow> world \<Rightarrow> unit result \<times> world" where
  "checkPublicHost x host w =
     (let lower = ToLower (x_lower x) host
      in if host = ''localhost'' \<or> HasSuffix lower ''.localhost''
         then (Inl (Failure ''webhook URL must not target localhost''), w)
         else (case lookupIP host w of (r, w1) \<Rightarrow>
           case r of
             Inl e \<Rightarrow> (Inl (Failure ''webhook host does not resolve''), w1)
           | Inr ips \<Rightarrow>
               if ips = [] then (Inl (Failure ''webhook host does not resolve''), w1)
               else if \<not> list_all isPublic ips
                 then (Inl (Failure ''webhook host resolves to a non-public address''), w1)
               else (nil_err, w1)))"

definition ValidateCallbackURL :: "ext \<Rightarrow> string \<Rightarrow> bool \<Rightarrow> world \<Rightarrow> unit result \<times> world" where
  "ValidateCallbackURL x raw allow_private w =
     (case x_url_parse x raw of
        None \<Rightarrow> (Inl (Failure ''parse''), w)
      | Some u \<Rightarrow>
          if url_scheme u \<noteq> ''http'' \<and> url_scheme u \<noteq> ''https''
            then (Inl (Failure ''webhook URL must be http(s)''), w)
          else if url_host u = [] \<or> CHR '' '' \<in> set (url_host u)
            then (Inl (Failure ''webhook URL has invalid host''), w)
          else if allow_private then (nil_err, w)
          else checkPublicHost x (url_hostname u) w)"

subsection \<open>Payload and signature\<close>

text \<open>\<open>encoding/json\<close> of a string, with its HTML escaping.\<close>

definition json_rune :: "nat \<Rightarrow> string" where
  "json_rune r =
     (if r = 34 then [CHR 0x5C, CHR 0x22] else if r = 92 then [CHR 0x5C, CHR 0x5C]
      else if r = 8 then CHR 0x5C # ''b'' else if r = 12 then CHR 0x5C # ''f''
      else if r = 10 then CHR 0x5C # ''n'' else if r = 13 then CHR 0x5C # ''r''
      else if r = 9 then CHR 0x5C # ''t''
      else if r < 32 \<or> r = 60 \<or> r = 62 \<or> r = 38
        then CHR 0x5C # ''u00'' @ [hex_digit (r div 16), hex_digit (r mod 16)]
      else if r = 8232 then CHR 0x5C # ''u2028'' else if r = 8233 then CHR 0x5C # ''u2029''
      else encode_rune r)"

text \<open>
  An invalid byte becomes the escape of U+FFFD; a U+FFFD that stands in the string is written
  as it is.
\<close>

function json_chars :: "string \<Rightarrow> string" where
  "json_chars s =
     (if s = [] then []
      else (if decode_rune s = (65533, 1) then CHR 0x5C # ''ufffd'' else json_rune (fst (decode_rune s)))
        @ json_chars (drop (snd (decode_rune s)) s))"
  by pat_completeness auto
termination
proof (relation "measure length")
  fix s :: string
  assume "s \<noteq> []"
  then show "(drop (snd (decode_rune s)) s, s) \<in> measure length"
    using decode_rune_width [of s] by (cases s) auto
qed simp

declare json_chars.simps [simp del]

definition json_string :: "string \<Rightarrow> string" where
  "json_string s = CHR 0x22 # json_chars s @ [CHR 0x22]"

definition EventExecutionCompleted :: string where
  "EventExecutionCompleted = ''execution.completed''"

record execution_event =
  ee_event :: string
  ee_execution_id :: string
  ee_tenant_id :: string
  ee_status :: string
  ee_exit_code :: "int option"
  ee_duration_ms :: int
  ee_finished_at :: string

definition json_field :: "string \<Rightarrow> string \<Rightarrow> string" where
  "json_field k v = json_string k @ '':'' @ v"

definition marshal_event :: "execution_event \<Rightarrow> string" where
  "marshal_event e =
     ''{'' @ json_field ''event'' (json_string (ee_event e))
     @ '','' @ json_field ''execution_id'' (json_string (ee_execution_id e))
     @ '','' @ json_field ''tenant_id'' (json_string (ee_tenant_id e))
     @ '','' @ json_field ''status'' (json_string (ee_status e))
     @ '','' @ json_field ''exit_code'' (case ee_exit_code e of None \<Rightarrow> ''null'' | Some n \<Rightarrow> Itoa n)
     @ '','' @ json_field ''duration_ms'' (Itoa (ee_duration_ms e))
     @ '','' @ json_field ''finished_at'' (json_string (ee_finished_at e)) @ ''}''"

definition Sign :: "ext \<Rightarrow> string \<Rightarrow> int \<Rightarrow> string \<Rightarrow> string" where
  "Sign x secret ts body =
     ''sha256='' @ hex_encode (x_hmac x secret (Itoa ts @ ''.'' @ body))"

subsection \<open>Delivery\<close>

record deliverer =
  dl_secret :: string
  dl_allow_private :: bool

definition retryDelays :: "int list" where
  "retryDelays = [second, 5 * second]"

definition clientTimeout :: int where "clientTimeout = 10 * second"

definition http_post :: "post \<Rightarrow> world \<Rightarrow> http_reply \<times> world" where
  "http_post p w =
     (case select_until (now w + clientTimeout) w of (reply, w1) \<Rightarrow>
        (case reply of None \<Rightarrow> TransportError | Some e \<Rightarrow> ev_http e, w1\<lparr>posts := posts w1 @ [p]\<rparr>))"

definition mk_post :: "ext \<Rightarrow> string \<Rightarrow> string \<Rightarrow> string \<Rightarrow> int \<Rightarrow> post" where
  "mk_post x secret rawURL body ts =
     \<lparr>p_url = rawURL, p_event = EventExecutionCompleted, p_timestamp = Itoa ts,
      p_signature = Sign x secret ts body, p_body = body\<rparr>"

text \<open>One signed POST: is the failure worth retrying, and the error.\<close>

definition deliverOnce ::
    "ext \<Rightarrow> deliverer \<Rightarrow> string \<Rightarrow> string \<Rightarrow> world \<Rightarrow> (bool \<times> unit result) \<times> world" where
  "deliverOnce x d rawURL body w =
     (let ts = now w div second
      in case x_url_parse x rawURL of
           None \<Rightarrow> ((False, Inl (Failure ''new request'')), w)
         | Some _ \<Rightarrow>
             (case http_post (mk_post x (dl_secret d) rawURL body ts) w of (reply, w1) \<Rightarrow>
               case reply of
                 TransportError \<Rightarrow> ((True, Inl ConnError), w1)
               | HttpStatus c \<Rightarrow>
                   if 200 \<le> c \<and> c < 300 then ((False, nil_err), w1)
                   else if c = 429 \<or> 500 \<le> c
                     then ((True, Inl (Failure ''webhook receiver'')), w1)
                   else ((False, Inl (Failure ''webhook receiver (not retrying)'')), w1)))"

text \<open>The attempts: one now, and one after each remaining delay while failures are retryable.\<close>

fun deliver_attempts ::
    "ext \<Rightarrow> deliverer \<Rightarrow> string \<Rightarrow> string \<Rightarrow> int list \<Rightarrow> world \<Rightarrow> unit result \<times> world" where
  "deliver_attempts x d rawURL body [] w =
     (case deliverOnce x d rawURL body w of ((retryable, r), w1) \<Rightarrow> (r, w1))"
| "deliver_attempts x d rawURL body (delay # delays) w =
     (case deliverOnce x d rawURL body w of ((retryable, r), w1) \<Rightarrow>
        case r of
          Inr _ \<Rightarrow> (nil_err, w1)
        | Inl e \<Rightarrow>
            if \<not> retryable then (Inl e, w1)
            else (case sleep delay w1 of (cancelled, w2) \<Rightarrow>
              if cancelled then (Inl ConnError, w2)
              else deliver_attempts x d rawURL body delays w2))"

definition Deliver ::
    "ext \<Rightarrow> deliverer \<Rightarrow> string \<Rightarrow> execution_event \<Rightarrow> world \<Rightarrow> unit result \<times> world" where
  "Deliver x d rawURL evt w =
     (if dl_secret d = [] then (Inl (Failure ''webhook signing secret not configured''), w)
      else (case ValidateCallbackURL x rawURL (dl_allow_private d) w of (r, w1) \<Rightarrow>
        case r of
          Inl e \<Rightarrow> (Inl e, w1)
        | Inr _ \<Rightarrow> deliver_attempts x d rawURL (marshal_event evt) retryDelays w1))"

subsection \<open>What validation and delivery leave alone\<close>

lemma lookupIP_same: "same_io w0 w \<Longrightarrow> keeps (same_io w0) (lookupIP h w)"
  unfolding lookupIP_def by (intro keeps_bind keeps_rules tick_same)

lemma ValidateCallbackURL_same: "same_io w0 w \<Longrightarrow> keeps (same_io w0) (ValidateCallbackURL x u a w)"
  unfolding ValidateCallbackURL_def checkPublicHost_def
  by (intro keeps_bind keeps_rules lookupIP_same)

lemma ValidateCallbackURL_later: "later w0 w \<Longrightarrow> keeps (later w0) (ValidateCallbackURL x u a w)"
  unfolding ValidateCallbackURL_def checkPublicHost_def lookupIP_def
  by (intro keeps_bind keeps_rules call_later)

context rely_guarantee
begin

lemma lookupIP_keeps: "safe R d0 w \<Longrightarrow> keeps (safe R d0) (lookupIP h w)"
  by (auto simp: lookupIP_def keeps_def dest: tick_safe split: prod.split)

lemma ValidateCallbackURL_keeps:
  "safe R d0 w \<Longrightarrow> keeps (safe R d0) (ValidateCallbackURL x u a w)"
  unfolding ValidateCallbackURL_def checkPublicHost_def
  by (intro keeps_bind keeps_rules lookupIP_keeps)

lemma http_post_keeps: "safe R d0 w \<Longrightarrow> keeps (safe R d0) (http_post p w)"
  using select_keeps [of d0 w "now w + clientTimeout"]
  by (cases "select_until (now w + clientTimeout) w") (simp add: http_post_def keeps_def)

end

subsection \<open>Delivery in steps\<close>

lemma http_post_posts: "http_post p w = (reply, w1) \<Longrightarrow> posts w1 = posts w @ [p]"
  using select_same [of w w "now w + clientTimeout"]
  by (cases "select_until (now w + clientTimeout) w") (auto simp: http_post_def keeps_def same_io_def)

lemma deliverOnce_posts:
  "deliverOnce x d rawURL body w = ((retry, r), w1) \<Longrightarrow>
   posts w1 = posts w \<and> r \<noteq> nil_err \<and> \<not> retry
   \<or> posts w1 = posts w @ [mk_post x (dl_secret d) rawURL body (now w div second)]"
  by (auto simp: deliverOnce_def Let_def dest: http_post_posts
      split: option.splits prod.splits http_reply.splits if_splits)

text \<open>Every attempt sends at most one request, and all of them are the same signed event.\<close>

lemma deliverOnce_posts_cases:
  assumes "deliverOnce x d rawURL body w = ((retry, r), w1)"
  obtains (none) "posts w1 = posts w" "r \<noteq> nil_err" "\<not> retry"
    | (sent) "posts w1 = posts w @ [mk_post x (dl_secret d) rawURL body (now w div second)]"
  using deliverOnce_posts [OF assms] by blast

lemma deliver_attempts_posts:
  "\<exists>tss. posts (snd (deliver_attempts x d rawURL body delays w))
       = posts w @ map (mk_post x (dl_secret d) rawURL body) tss \<and> length tss \<le> Suc (length delays)"
proof (induction delays arbitrary: w)
  case Nil
  obtain retry r w1 where o: "deliverOnce x d rawURL body w = ((retry, r), w1)"
    by (metis prod.exhaust)
  from o show ?case
  proof (cases rule: deliverOnce_posts_cases)
    case none
    then show ?thesis using o by (intro exI [of _ "[]"]) simp
  next
    case sent
    then show ?thesis using o by (intro exI [of _ "[now w div second]"]) simp
  qed
next
  case (Cons delay delays)
  obtain retry r w1 where o: "deliverOnce x d rawURL body w = ((retry, r), w1)"
    by (metis prod.exhaust)
  obtain c w2 where sl: "sleep delay w1 = (c, w2)" by (metis prod.exhaust)
  then have w2: "posts w2 = posts w1" using sleep_frame(6) [of delay w1] by simp
  obtain tss where tss: "posts (snd (deliver_attempts x d rawURL body delays w2))
      = posts w2 @ map (mk_post x (dl_secret d) rawURL body) tss" "length tss \<le> Suc (length delays)"
    using Cons.IH by blast
  from o show ?case
  proof (cases rule: deliverOnce_posts_cases)
    case none
    then show ?thesis using o by (intro exI [of _ "[]"]) (simp split: sum.split)
  next
    case sent
    show ?thesis
    proof (cases "r = nil_err \<or> \<not> retry \<or> c")
      case True
      with sent o sl w2 show ?thesis
        by (intro exI [of _ "[now w div second]"]) (auto split: sum.split)
    next
      case False
      with sent o sl w2 tss show ?thesis
        by (intro exI [of _ "(now w div second) # tss"]) (auto split: sum.split)
    qed
  qed
qed

lemma Deliver_cases:
  assumes "posts (snd (Deliver x d rawURL evt w)) \<noteq> posts w"
  obtains w1 where "ValidateCallbackURL x rawURL (dl_allow_private d) w = (nil_err, w1)"
    and "dl_secret d \<noteq> []"
    and "Deliver x d rawURL evt w = deliver_attempts x d rawURL (marshal_event evt) retryDelays w1"
proof -
  obtain r w1 where v: "ValidateCallbackURL x rawURL (dl_allow_private d) w = (r, w1)"
    by (metis prod.exhaust)
  have "same_io w w1"
    using ValidateCallbackURL_same [of w w x rawURL "dl_allow_private d"] v by (simp add: keeps_def)
  then have "posts w1 = posts w" by (simp add: same_io_def)
  with assms v that show thesis
    by (auto simp: Deliver_def split: if_splits sum.splits)
qed

context rely_guarantee
begin

lemma deliverOnce_keeps: "safe R d0 w \<Longrightarrow> keeps (safe R d0) (deliverOnce x d u b w)"
  using http_post_keeps [of d0 w "mk_post x (dl_secret d) u b (now w div second)"]
  by (cases "http_post (mk_post x (dl_secret d) u b (now w div second)) w")
    (simp add: deliverOnce_def keeps_def Let_def split: option.split http_reply.split)

lemma deliver_attempts_keeps: "safe R d0 w \<Longrightarrow> keeps (safe R d0) (deliver_attempts x d u b ds w)"
proof (induction ds arbitrary: w)
  case Nil
  then show ?case
    using deliverOnce_keeps [of d0 w x d u b] by (auto simp: keeps_def split: prod.split)
next
  case (Cons delay ds)
  from Cons.prems have "keeps (safe R d0) (deliverOnce x d u b w)" by (rule deliverOnce_keeps)
  then show ?case
    using Cons.IH sleep_keeps by (auto simp: keeps_def split: prod.split sum.split) (metis snd_conv)+
qed

lemma Deliver_keeps: "safe R d0 w \<Longrightarrow> keeps (safe R d0) (Deliver x d u evt w)"
  unfolding Deliver_def
  by (intro keeps_bind keeps_rules ValidateCallbackURL_keeps deliver_attempts_keeps)

end

subsection \<open>Octets\<close>

text \<open>The masks of the address predicates, as ranges; decided by the 256 values of an octet.\<close>

lemma octet_masks_nat:
  "\<forall>n<256. ((of_nat n :: 8 word) AND 0xf0 = 16) = (16 \<le> n \<and> n \<le> 31)
         \<and> ((of_nat n :: 8 word) AND 0xf0 = 0xe0) = (224 \<le> n \<and> n \<le> 239)"
  by code_simp

lemma octet_masks:
  fixes b :: "8 word"
  shows "(b AND 0xf0 = 16) = (16 \<le> b \<and> b \<le> 31)" "(b AND 0xf0 = 0xe0) = (224 \<le> b \<and> b \<le> 239)"
proof -
  have "unat b < 256" using unsigned_less [of b] by simp
  from octet_masks_nat [rule_format, OF this]
  show "(b AND 0xf0 = 16) = (16 \<le> b \<and> b \<le> 31)" "(b AND 0xf0 = 0xe0) = (224 \<le> b \<and> b \<le> 239)"
    by (simp_all add: word_le_nat_alt)
qed

subsection \<open>Properties\<close>

lemma zero_bytes:
  "replicate 4 (0 :: 8 word) = [0, 0, 0, 0]"
  "replicate 12 (0 :: 8 word) = [0, 0, 0, 0, 0, 0, 0, 0, 0, 0, 0, 0]"
  "replicate 16 (0 :: 8 word) = [0, 0, 0, 0, 0, 0, 0, 0, 0, 0, 0, 0, 0, 0, 0, 0]"
  by (simp_all add: eval_nat_numeral)

lemma isPublic_mapped: "isPublic (v4InV6Prefix @ [a, b, c, d]) = isPublic [a, b, c, d]"
  by (simp add: ip_defs zero_bytes)

lemma isPublic_v4:
  "isPublic [a, b, c, d] \<longleftrightarrow>
     \<not> (a = 127 \<or> a = 10 \<or> a = 172 \<and> 16 \<le> b \<and> b \<le> 31 \<or> a = 192 \<and> b = 168
        \<or> a = 169 \<and> b = 254 \<or> 224 \<le> a \<and> a \<le> 239 \<or> a = 0 \<and> b = 0 \<and> c = 0 \<and> d = 0)"
  by (auto simp: ip_defs octet_masks zero_bytes)


text \<open>
  The metadata service that some clouds serve at 100.100.100.200, in the shared
  address space of carrier-grade NAT, counts as public.
\<close>

theorem cgnat_metadata_public: "isPublic [100, 100, 100, 200]"
  by (simp add: isPublic_v4)


lemma checkPublicHost_ok:
  assumes "checkPublicHost x host w = (nil_err, w1)"
  shows "\<exists>e ips. tick w = (e, w1) \<and> ev_ips e = Some ips \<and> ips \<noteq> [] \<and> list_all isPublic ips
     \<and> host \<noteq> ''localhost''"
  using assms by (cases "tick w") (auto simp: checkPublicHost_def lookupIP_def Let_def
      split: if_splits option.splits)

text \<open>
  Property C37: unless private targets are allowed, a request is only ever sent after the URL
  was found to be http(s) with a host that is not localhost and whose addresses, looked up for
  this delivery, are all public; and never without a signing secret.
\<close>

theorem deliver_checks_target:
  assumes "posts (snd (Deliver x d rawURL evt w)) \<noteq> posts w" and "\<not> dl_allow_private d"
  shows "dl_secret d \<noteq> [] \<and> (\<exists>u e w1 ips. x_url_parse x rawURL = Some u
     \<and> url_scheme u \<in> {''http'', ''https''} \<and> url_hostname u \<noteq> ''localhost''
     \<and> tick w = (e, w1) \<and> ev_ips e = Some ips \<and> ips \<noteq> [] \<and> list_all isPublic ips)"
proof -
  obtain w1 where v: "ValidateCallbackURL x rawURL (dl_allow_private d) w = (nil_err, w1)"
    and s: "dl_secret d \<noteq> []"
    using assms(1) by (rule Deliver_cases)
  from v assms(2) obtain u where u: "x_url_parse x rawURL = Some u" "url_scheme u \<in> {''http'', ''https''}"
    "checkPublicHost x (url_hostname u) w = (nil_err, w1)"
    by (auto simp: ValidateCallbackURL_def split: option.splits if_splits)
  with s checkPublicHost_ok [OF u(3)] show ?thesis by blast
qed

definition sample_event :: execution_event where
  "sample_event = \<lparr>ee_event = EventExecutionCompleted, ee_execution_id = ''1'', ee_tenant_id = ''2'',
     ee_status = ''succeeded'', ee_exit_code = Some 0, ee_duration_ms = 5, ee_finished_at = ''t''\<rparr>"

definition sample_resolves :: "ip \<Rightarrow> world" where
  "sample_resolves ip = sample_world\<lparr>script := [quiet\<lparr>ev_ips := Some [ip]\<rparr>]\<rparr>"

lemma sample_deliver:
  "posts (snd (Deliver sample_ext \<lparr>dl_secret = ''s'', dl_allow_private = False\<rparr>
      ''https://example.com/hook'' sample_event (sample_resolves [93, 184, 215, 14]))) \<noteq> posts (sample_resolves [93, 184, 215, 14])"
  by (simp add: Deliver_def ValidateCallbackURL_def checkPublicHost_def lookupIP_def sample_resolves_def
      sample_ext_def tick_def isPublic_v4 retryDelays_def deliverOnce_def http_post_def select_until_def clientTimeout_def HasSuffix_def
      sample_world_def Let_def)

theorem deliver_checks_target_witness:
  "\<exists>e w1 ips. tick (sample_resolves [93, 184, 215, 14]) = (e, w1) \<and> ev_ips e = Some ips \<and> list_all isPublic ips"
  using deliver_checks_target [OF sample_deliver] by auto

end
