(* ===== verification/Sandbox.thy ===== *)
theory Sandbox
  imports Webhooks Sample
begin

section \<open>The Docker sandbox\<close>

text \<open>
  \<open>internal/dispatcher/sandbox.go\<close>. The daemon's answers come from the script: an ambiguous
  create or start is one that took place although the client saw an error. A container is
  identified by the name the runner gives it. Log texts are not modelled, error texts only
  where they reach the database.
\<close>

subsection \<open>Languages\<close>

record lang_spec =
  ls_file :: string
  ls_cmd :: string

definition langCommands :: "(string \<times> lang_spec) list" where
  "langCommands =
    [(''python'', \<lparr>ls_file = ''main.py'', ls_cmd = ''exec python /work/main.py < /work/stdin.txt''\<rparr>),
     (''javascript'', \<lparr>ls_file = ''main.js'', ls_cmd = ''exec node /work/main.js < /work/stdin.txt''\<rparr>),
     (''go'', \<lparr>ls_file = ''main.go'', ls_cmd = ''exec go run /work/main.go < /work/stdin.txt''\<rparr>),
     (''java'', \<lparr>ls_file = ''Main.java'', ls_cmd = ''exec java /work/Main.java < /work/stdin.txt''\<rparr>),
     (''ruby'', \<lparr>ls_file = ''main.rb'', ls_cmd = ''exec ruby /work/main.rb < /work/stdin.txt''\<rparr>),
     (''rust'', \<lparr>ls_file = ''main.rs'', ls_cmd = ''exec sh -c '' @ CHR 0x27 #
        ''rustc /work/main.rs -o /tmp/main && exec /tmp/main < /work/stdin.txt'' @ [CHR 0x27]\<rparr>),
     (''cpp'', \<lparr>ls_file = ''main.cpp'', ls_cmd = ''exec sh -c '' @ CHR 0x27 #
        ''g++ /work/main.cpp -o /tmp/main && exec /tmp/main < /work/stdin.txt'' @ [CHR 0x27]\<rparr>)]"

definition resolveLang :: "ext \<Rightarrow> string \<Rightarrow> lang_spec result" where
  "resolveLang x lang =
     (case map_of langCommands (ToLower (x_lower x) (TrimSpace lang)) of
        None \<Rightarrow> Inl (NotStarted ''unsupported language'')
      | Some spec \<Rightarrow> Inr spec)"

subsection \<open>Results\<close>

record run_result =
  rr_exit_code :: int
  rr_stdout :: string
  rr_stderr :: string
  rr_timed_out :: bool
  rr_oom_killed :: bool

definition zero_result :: run_result where
  "zero_result = \<lparr>rr_exit_code = 0, rr_stdout = [], rr_stderr = [], rr_timed_out = False,
     rr_oom_killed = False\<rparr>"

definition maxOutputBytes :: nat where
  "maxOutputBytes = 64 * 1024"

definition truncateOutput :: "string \<Rightarrow> string" where
  "truncateOutput s =
     (if length s \<le> maxOutputBytes then s
      else take maxOutputBytes s @ CHR 0x0A # ''... [truncated ''
           @ Itoa (int (length s) - int maxOutputBytes) @ '' bytes]'')"

definition classify :: "run_result \<Rightarrow> string \<times> int option \<times> string" where
  "classify res =
     (if rr_timed_out res then (''timeout'', None, rr_stderr res)
      else if rr_oom_killed res
        then (''failed'', None,
              TrimSpace (rr_stderr res) @ CHR 0x0A # ''[container killed: out of memory]'')
      else if rr_exit_code res = 0 then (''succeeded'', Some (rr_exit_code res), rr_stderr res)
      else (''failed'', Some (rr_exit_code res), rr_stderr res))"

subsection \<open>Calls to the daemon\<close>

definition ContainerCreate :: "container_spec \<Rightarrow> string \<Rightarrow> world \<Rightarrow> unit result \<times> world" where
  "ContainerCreate cs name w =
     (case tick w of (e, w1) \<Rightarrow>
        let w2 = w1\<lparr>containers := name # containers w1, created := created w1 @ [(name, cs)]\<rparr>
        in if ev_fault e \<noteq> Done \<and> ev_fault e \<noteq> Ambiguous \<or> name \<in> set (containers w1)
             then (Inl (Failure (ev_msg e)), w1)
           else if ev_fault e = Ambiguous then (Inl (Failure (ev_msg e)), w2)
           else (nil_err, w2))"

definition ContainerRemove :: "string \<Rightarrow> world \<Rightarrow> unit result \<times> world" where
  "ContainerRemove name w =
     (case tick w of (e, w1) \<Rightarrow>
        let w2 = w1\<lparr>containers := filter (\<lambda>n. n \<noteq> name) (containers w1)\<rparr>
        in if ev_fault e \<noteq> Done \<and> ev_fault e \<noteq> Ambiguous \<or> name \<notin> set (containers w1)
             then (Inl (Failure (ev_msg e)), w1)
           else if ev_fault e = Ambiguous then (Inl (Failure (ev_msg e)), w2)
           else (nil_err, w2))"

text \<open>A call of which only success or failure matters (attach, write, wait, inspect).\<close>

definition docker_call :: "world \<Rightarrow> event result \<times> world" where
  "docker_call w =
     (case tick w of (e, w1) \<Rightarrow>
        (if ev_fault e = Done then Inr e else Inl (Failure (ev_msg e)), w1))"

definition ContainerStart :: "string \<Rightarrow> world \<Rightarrow> unit result \<times> world" where
  "ContainerStart name w =
     (case tick w of (e, w1) \<Rightarrow>
        let w2 = w1\<lparr>started := started w1 @ [name]\<rparr>
        in case ev_fault e of
             Done \<Rightarrow> (nil_err, w2)
           | Ambiguous \<Rightarrow> (Inl (Failure (ev_msg e)), w2)
           | _ \<Rightarrow> (Inl (Failure (ev_msg e)), w1))"

definition send_archive :: "string \<Rightarrow> tar_entry list \<Rightarrow> world \<Rightarrow> unit result \<times> world" where
  "send_archive name tar w =
     (case docker_call w of (r, w1) \<Rightarrow>
        case r of
          Inl e \<Rightarrow> (Inl e, w1)
        | Inr _ \<Rightarrow> (nil_err, w1\<lparr>fed := fed w1 @ [(name, tar)]\<rparr>))"

text \<open>
  The archive's two files; Go writes them in the order it iterates over the map, which is
  unspecified and does not matter to \<open>tar -x\<close>.
\<close>

definition tar_file :: "string \<Rightarrow> string \<Rightarrow> tar_entry" where
  "tar_file name content =
     \<lparr>te_name = name, te_mode = 420, te_size = length content, te_content = content\<rparr>"

definition workArchive :: "string \<Rightarrow> string \<Rightarrow> string \<Rightarrow> tar_entry list" where
  "workArchive source stdin filename = [tar_file filename source, tar_file ''stdin.txt'' stdin]"

definition containerTTL :: int where "containerTTL = 5 * second"

text \<open>
  \<open>wait\<close>: a timeout kills the container and waits for its end, for \<open>containerTTL\<close> from before the
  kill at most and whatever comes of that.
\<close>

definition wait :: "int \<Rightarrow> world \<Rightarrow> run_result result \<times> world" where
  "wait timeout w =
     (case select_until (now w + timeout) w of (reply, w1) \<Rightarrow>
        let timed_out = (case tick w1 of (_, w2) \<Rightarrow>
              case select_until (now w1 + containerTTL) w2 of (_, w3) \<Rightarrow>
                (Inr (zero_result\<lparr>rr_timed_out := True\<rparr>), w3))
        in case reply of
             None \<Rightarrow> timed_out
           | Some e \<Rightarrow>
               (case ev_wait e of
                  WaitErr msg \<Rightarrow> (Inl (Failure msg), w1)
                | WaitDeadline \<Rightarrow> timed_out
                | WaitCtxDone \<Rightarrow> timed_out
                | WaitRespError msg \<Rightarrow> (Inl (Failure (''container error: '' @ msg)), w1)
                | WaitExit c \<Rightarrow> (Inr (zero_result\<lparr>rr_exit_code := c\<rparr>), w1)))"

definition readLogs :: "world \<Rightarrow> (string \<times> string) result \<times> world" where
  "readLogs w =
     (case docker_call w of (r, w1) \<Rightarrow>
        (case r of Inl e \<Rightarrow> Inl e | Inr e \<Rightarrow> Inr (ev_logs e), w1))"

definition wrap_err :: "string \<Rightarrow> err \<Rightarrow> err" where
  "wrap_err prefix e = (case e of Failure m \<Rightarrow> Failure (prefix @ m) | _ \<Rightarrow> e)"

text \<open>\<open>errors.Is(err, errNotStarted)\<close>.\<close>

fun not_started :: "err \<Rightarrow> bool" where
  "not_started (NotStarted _) = True"
| "not_started _ = False"

subsection \<open>Running one execution\<close>

record docker_runner =
  dr_image :: string
  dr_runtime :: string

definition NewDockerRunner :: "string \<Rightarrow> string \<Rightarrow> docker_runner" where
  "NewDockerRunner img rt = \<lparr>dr_image = img, dr_runtime = rt\<rparr>"

definition sandboxMemory :: int where "sandboxMemory = 192 * 1024 * 1024"
definition sandboxMemorySw :: int where "sandboxMemorySw = 384 * 1024 * 1024"
definition sandboxNanoCPUs :: int where "sandboxNanoCPUs = 500000000"
definition sandboxPids :: int where "sandboxPids = 32"
definition sandboxTmpSize :: int where "sandboxTmpSize = 64 * 1024 * 1024"
definition execLabelKey :: string where "execLabelKey = ''com.runnix.execution''"
definition tenantLabelKey :: string where "tenantLabelKey = ''com.runnix.tenant''"

lemmas sandbox_bounds = sandboxMemory_def sandboxMemorySw_def sandboxNanoCPUs_def sandboxPids_def

definition tmpfs_opts :: string where
  "tmpfs_opts = ''rw,exec,nosuid,nodev,size='' @ Itoa sandboxTmpSize @ '',uid=65534,gid=65534''"

definition sandbox_spec :: "ext \<Rightarrow> docker_runner \<Rightarrow> lang_spec \<Rightarrow> claimed \<Rightarrow> container_spec" where
  "sandbox_spec x r spec c =
     \<lparr>cs_image = dr_image r, cs_user = ''65534:65534'', cs_working_dir = ''/work'',
      cs_entrypoint = [''/bin/sh'', ''-c'', ''tar -x -C /work >/dev/null 2>&1; '' @ ls_cmd spec],
      cs_env = [''PYTHONUNBUFFERED=1'', ''PYTHONDONTWRITEBYTECODE=1'', ''HOME=/tmp'',
                ''GOCACHE=/tmp'', ''GOPATH=/tmp''],
      cs_attach_stdin = True, cs_open_stdin = True, cs_stdin_once = True,
      cs_network_disabled = True,
      cs_labels = [(execLabelKey, PgToString x (c_id c)),
                   (tenantLabelKey, PgToString x (c_tenant_id c))],
      cs_network_mode = ''none'', cs_readonly_rootfs = True,
      cs_tmpfs = [(''/tmp'', tmpfs_opts), (''/work'', tmpfs_opts)],
      cs_cap_drop = [''ALL''], cs_runtime = dr_runtime r,
      cs_memory = sandboxMemory, cs_memory_swap = sandboxMemorySw,
      cs_nano_cpus = sandboxNanoCPUs, cs_pids_limit = sandboxPids\<rparr>"

definition container_name :: "ext \<Rightarrow> claimed \<Rightarrow> string" where
  "container_name x c = ''runnix-exec-'' @ PgToString x (c_id c)"

text \<open>Creation, with the second attempt after removing a left-over of the same name.\<close>

definition create_container :: "container_spec \<Rightarrow> string \<Rightarrow> world \<Rightarrow> unit result \<times> world" where
  "create_container cs name w =
     (case ContainerCreate cs name w of (r, w1) \<Rightarrow>
        case r of
          Inr _ \<Rightarrow> (nil_err, w1)
        | Inl e \<Rightarrow>
            (case ContainerRemove name w1 of (rm, w2) \<Rightarrow>
              case rm of
                Inl _ \<Rightarrow> (Inl e, w2)
              | Inr _ \<Rightarrow> ContainerCreate cs name w2))"

text \<open>What happens once the container exists.\<close>

definition collect :: "int \<Rightarrow> world \<Rightarrow> run_result result \<times> world" where
  "collect timeout w =
     (case wait timeout w of (r, w1) \<Rightarrow>
        case r of
          Inl e \<Rightarrow> (Inl e, w1)
        | Inr res \<Rightarrow>
            (case readLogs w1 of (l, w2) \<Rightarrow>
              case l of
                Inl e \<Rightarrow> (Inl (wrap_err ''read logs: '' e), w2)
              | Inr logs \<Rightarrow>
                  (case docker_call w2 of (info, w3) \<Rightarrow>
                    case info of
                      Inl e \<Rightarrow> (Inl (wrap_err ''inspect container: '' e), w3)
                    | Inr e \<Rightarrow>
                        (Inr (res\<lparr>rr_stdout := truncateOutput (fst logs),
                                  rr_stderr := truncateOutput (snd logs),
                                  rr_oom_killed := ev_oom e\<rparr>), w3))))"

definition run_container ::
    "string \<Rightarrow> tar_entry list \<Rightarrow> int \<Rightarrow> world \<Rightarrow> run_result result \<times> world" where
  "run_container name tar timeout w =
     (case docker_call w of (att, w1) \<Rightarrow>
        case att of
          Inl e \<Rightarrow> (Inl (NotStarted ''attach''), w1)
        | Inr _ \<Rightarrow>
            (case ContainerStart name w1 of (st, w2) \<Rightarrow>
              case st of
                Inl e \<Rightarrow> (Inl (NotStarted ''start container''), w2)
              | Inr _ \<Rightarrow>
                  (case send_archive name tar w2 of (sa, w3) \<Rightarrow>
                    case sa of
                      Inl e \<Rightarrow> (Inl (wrap_err ''send work archive: '' e), w3)
                    | Inr _ \<Rightarrow> collect timeout w3)))"

text \<open>\<open>dockerRunner.Run\<close>; the deferred removal comes last.\<close>

definition Run :: "ext \<Rightarrow> docker_runner \<Rightarrow> claimed \<Rightarrow> world \<Rightarrow> run_result result \<times> world" where
  "Run x r c w =
     (case resolveLang x (c_language c) of
        Inl e \<Rightarrow> (Inl e, w)
      | Inr spec \<Rightarrow>
          let name = container_name x c
          in (case create_container (sandbox_spec x r spec c) name w of (cr, w1) \<Rightarrow>
               case cr of
                 Inl e \<Rightarrow> (Inl (NotStarted ''create container''), w1)
               | Inr _ \<Rightarrow>
                   (case run_container name (workArchive (c_source c) (c_stdin c) (ls_file spec))
                      (c_timeout_s c * second) w1 of
                      (res, w2) \<Rightarrow> (case ContainerRemove name w2 of (_, w3) \<Rightarrow> (res, w3)))))"

text \<open>\<open>EnsureImage\<close>: inspect, else pull and read the progress stream to its end.\<close>

definition EnsureImage :: "docker_runner \<Rightarrow> world \<Rightarrow> unit result \<times> world" where
  "EnsureImage r w =
     (case docker_call w of (inspect, w1) \<Rightarrow>
        case inspect of
          Inr _ \<Rightarrow> (nil_err, w1)
        | Inl _ \<Rightarrow>
            (case docker_call w1 of (pull, w2) \<Rightarrow>
              case pull of
                Inl e \<Rightarrow> (Inl (wrap_err (''pull '' @ dr_image r @ '': '') e), w2)
              | Inr _ \<Rightarrow>
                  (case docker_call w2 of (copy, w3) \<Rightarrow>
                    case copy of
                      Inl e \<Rightarrow> (Inl (wrap_err (''pull '' @ dr_image r @ '': '') e), w3)
                    | Inr _ \<Rightarrow> (nil_err, w3))))"

text \<open>\<open>Sweep\<close>: removes every container that carries the execution label, ignoring errors.\<close>

fun remove_all :: "string list \<Rightarrow> world \<Rightarrow> world" where
  "remove_all [] w = w"
| "remove_all (n # ns) w = remove_all ns (snd (ContainerRemove n w))"

definition Sweep :: "world \<Rightarrow> unit result \<times> world" where
  "Sweep w =
     (case docker_call w of (r, w1) \<Rightarrow>
        case r of
          Inl e \<Rightarrow> (Inl (wrap_err ''list sandbox containers: '' e), w1)
        | Inr _ \<Rightarrow> (nil_err, remove_all (containers w1) w1))"

subsection \<open>What the calls leave alone\<close>

lemma docker_call_same: "same_io w0 w \<Longrightarrow> keeps (same_io w0) (docker_call w)"
  unfolding docker_call_def by (intro keeps_bind keeps_rules tick_same)

lemma keeps_wait_reply:
  assumes "\<And>m. keeps P (f m)" and "keeps P g" and "keeps P h" and "\<And>m. keeps P (k m)" and "\<And>c. keeps P (l c)"
  shows "keeps P (case r of WaitErr m \<Rightarrow> f m | WaitDeadline \<Rightarrow> g | WaitCtxDone \<Rightarrow> h
    | WaitRespError m \<Rightarrow> k m | WaitExit c \<Rightarrow> l c)"
  using assms by (cases r) simp_all

lemma wait_same: "same_io w0 w \<Longrightarrow> keeps (same_io w0) (wait timeout w)"
  unfolding wait_def Let_def by (intro keeps_bind keeps_rules keeps_wait_reply select_same tick_same)

lemma collect_same: "same_io w0 w \<Longrightarrow> keeps (same_io w0) (collect timeout w)"
  unfolding collect_def readLogs_def
  by (intro keeps_bind keeps_rules docker_call_same wait_same)

text \<open>Errors after the start never wrap \<open>errNotStarted\<close>.\<close>

lemma docker_call_err: "docker_call w = (Inl e, w') \<Longrightarrow> \<not> not_started e"
  by (auto simp: docker_call_def split: prod.splits if_splits)

lemma wrap_err_started [simp]: "not_started (wrap_err p e) = not_started e"
  by (cases e) (auto simp: wrap_err_def)

lemma wait_err: "wait timeout w = (Inl e, w') \<Longrightarrow> \<not> not_started e"
  by (auto simp: wait_def Let_def split: prod.splits option.splits wait_reply.splits)

lemma collect_err: "collect timeout w = (Inl e, w') \<Longrightarrow> \<not> not_started e"
  by (auto simp: collect_def readLogs_def dest: wait_err docker_call_err
      split: prod.splits sum.splits)

lemma send_archive_err: "send_archive n tar w = (Inl e, w') \<Longrightarrow> \<not> not_started e"
  by (auto simp: send_archive_def dest: docker_call_err split: prod.splits sum.splits)

text \<open>Which containers an operation has started and created.\<close>

definition unmoved :: "world \<Rightarrow> world \<Rightarrow> bool" where
  "unmoved w0 w \<longleftrightarrow> started w = started w0 \<and> published w = published w0 \<and> posts w = posts w0"

lemma same_unmoved: "same_io w0 w \<Longrightarrow> unmoved w0 w"
  by (simp add: same_io_def unmoved_def)

lemma send_archive_unmoved:
  "send_archive n tar w = (r, w') \<Longrightarrow> unmoved w w' \<and> created w' = created w"
  using docker_call_same [of w w]
  by (auto simp: send_archive_def keeps_def same_io_def unmoved_def split: prod.splits sum.splits)

lemma collect_unmoved: "collect timeout w = (r, w') \<Longrightarrow> unmoved w w' \<and> created w' = created w \<and> fed w' = fed w"
  using collect_same [of w w timeout] by (simp add: keeps_def same_io_def unmoved_def)

lemma docker_call_unmoved:
  "docker_call w = (r, w') \<Longrightarrow> unmoved w w' \<and> created w' = created w \<and> fed w' = fed w"
  using docker_call_same [of w w] by (simp add: keeps_def same_io_def unmoved_def)

lemma ContainerCreate_unmoved: "ContainerCreate cs n w = (r, w') \<Longrightarrow> unmoved w w' \<and> fed w' = fed w"
  by (cases "tick w") (auto simp: ContainerCreate_def unmoved_def Let_def dest: tickD split: if_splits)

lemma ContainerRemove_unmoved:
  "ContainerRemove n w = (r, w') \<Longrightarrow> unmoved w w' \<and> created w' = created w \<and> fed w' = fed w"
  by (cases "tick w") (auto simp: ContainerRemove_def unmoved_def Let_def dest: tickD split: if_splits)

lemma create_container_unmoved: "create_container cs n w = (r, w') \<Longrightarrow> unmoved w w' \<and> fed w' = fed w"
  unfolding create_container_def
  by (auto split: prod.splits sum.splits simp: unmoved_def
      dest!: ContainerCreate_unmoved ContainerRemove_unmoved)

lemma ContainerStart_started:
  assumes "ContainerStart n w = (r, w')"
  shows "published w' = published w \<and> posts w' = posts w \<and> created w' = created w \<and> fed w' = fed w"
    and "r = nil_err \<Longrightarrow> started w' = started w @ [n]"
    and "started w' = started w \<or> started w' = started w @ [n]"
    and "clear w \<Longrightarrow> r \<noteq> nil_err \<Longrightarrow> started w' = started w"
  using assms tick_clear [of w]
  by (cases "tick w";
      auto simp: ContainerStart_def Let_def dest: tickD split: fault.splits)+

text \<open>
  The container is started unless the error wraps \<open>errNotStarted\<close>; and then it is not, if no
  answer of the daemon was ambiguous.
\<close>

definition aborted :: "'a result \<Rightarrow> bool" where
  "aborted r \<longleftrightarrow> (case r of Inl e \<Rightarrow> not_started e | Inr _ \<Rightarrow> False)"

lemma aborted_simps [simp]: "aborted (Inl e) = not_started e" "\<not> aborted (Inr a)"
  by (simp_all add: aborted_def)

lemma run_container_started:
  assumes "run_container n tar timeout w = (r, w')"
  shows "published w' = published w \<and> posts w' = posts w"
    and "started w' = started w \<or> started w' = started w @ [n]"
    and "\<not> aborted r \<Longrightarrow> started w' = started w @ [n]"
    and "clear w \<Longrightarrow> aborted r \<Longrightarrow> started w' = started w"
proof -
  obtain att w1 where att: "docker_call w = (att, w1)" by (metis prod.exhaust)
  note a = docker_call_unmoved [OF att]
  have cl: "clear w1" if "clear w"
    using that att tick_clear by (auto simp: docker_call_def split: prod.splits)
  obtain st w2 where st: "ContainerStart n w1 = (st, w2)" by (metis prod.exhaust)
  note b = ContainerStart_started [OF st]
  obtain sa w3 where sa: "send_archive n tar w2 = (sa, w3)" by (metis prod.exhaust)
  note c = send_archive_unmoved [OF sa]
  obtain co w4 where co: "collect timeout w3 = (co, w4)" by (metis prod.exhaust)
  note d = collect_unmoved [OF co]
  have errs: "sa = Inl e \<Longrightarrow> \<not> not_started e" "co = Inl e \<Longrightarrow> \<not> not_started e" for e
    using send_archive_err collect_err sa co by auto
  have run: "(r, w') = (case att of Inl e \<Rightarrow> (Inl (NotStarted ''attach''), w1)
      | Inr _ \<Rightarrow> (case st of Inl e \<Rightarrow> (Inl (NotStarted ''start container''), w2)
        | Inr _ \<Rightarrow> (case sa of Inl e \<Rightarrow> (Inl (wrap_err ''send work archive: '' e), w3)
          | Inr _ \<Rightarrow> (co, w4))))"
    using assms att st sa co by (auto simp: run_container_def split: sum.splits)
  show "published w' = published w \<and> posts w' = posts w"
    using run a b(1) c d by (auto simp: unmoved_def split: sum.splits)
  show "started w' = started w \<or> started w' = started w @ [n]"
    using run a b(3) c d by (auto simp: unmoved_def split: sum.splits)
  show "started w' = started w @ [n]" if "\<not> aborted r"
    using that run a b(2) c d by (auto simp: unmoved_def split: sum.splits)
  show "started w' = started w" if "clear w" and "aborted r"
    using that run a b(4) cl errs by (cases co) (auto simp: unmoved_def split: sum.splits)
qed

lemma ContainerCreate_clear: "ContainerCreate cs n w = (r, w') \<Longrightarrow> clear w \<Longrightarrow> clear w'"
  by (cases "tick w") (auto simp: ContainerCreate_def Let_def clear_def tick_def
      split: if_splits list.splits)

lemma ContainerRemove_clear: "ContainerRemove n w = (r, w') \<Longrightarrow> clear w \<Longrightarrow> clear w'"
  by (cases "tick w") (auto simp: ContainerRemove_def Let_def clear_def tick_def
      split: if_splits list.splits)

lemma create_container_clear: "create_container cs n w = (r, w') \<Longrightarrow> clear w \<Longrightarrow> clear w'"
  unfolding create_container_def
  by (auto split: prod.splits sum.splits dest: ContainerCreate_clear ContainerRemove_clear)

text \<open>The same for the whole of \<open>Run\<close>.\<close>

lemma Run_cases:
  assumes "Run x r c w = (res, w')"
  obtains (lang) m where "res = Inl (NotStarted m)" "w' = w"
  | (create) m cs where "create_container cs (container_name x c) w = (Inl m, w')"
      "res = Inl (NotStarted ''create container'')"
  | (ran) spec w1 w2 rm where "resolveLang x (c_language c) = Inr spec"
      "create_container (sandbox_spec x r spec c) (container_name x c) w = (nil_err, w1)"
      "run_container (container_name x c) (workArchive (c_source c) (c_stdin c) (ls_file spec))
         (c_timeout_s c * second) w1 = (res, w2)"
      "ContainerRemove (container_name x c) w2 = (rm, w')"
proof (cases "resolveLang x (c_language c)")
  case (Inl e)
  then show thesis using assms lang by (auto simp: Run_def resolveLang_def split: option.splits)
next
  case (Inr spec)
  obtain cr w1 where c: "create_container (sandbox_spec x r spec c) (container_name x c) w = (cr, w1)"
    by (metis prod.exhaust)
  then show thesis
    using assms Inr create ran by (cases cr) (auto simp: Run_def Let_def split: prod.splits)
qed

lemma Run_starts:
  assumes "Run x r c w = (res, w')"
  shows "published w' = published w \<and> posts w' = posts w
    \<and> (started w' = started w \<or> started w' = started w @ [container_name x c])
    \<and> (\<not> aborted res \<longrightarrow> started w' = started w @ [container_name x c])
    \<and> (clear w \<longrightarrow> aborted res \<longrightarrow> started w' = started w)"
  using assms
proof (cases rule: Run_cases)
  case (create m cs)
  with create_container_unmoved [OF create(1)] show ?thesis by (simp add: unmoved_def)
next
  case (ran spec w1 w2 rm)
  from create_container_unmoved [OF ran(2)] create_container_clear [OF ran(2)]
    run_container_started [OF ran(3)] ContainerRemove_unmoved [OF ran(4)]
  show ?thesis by (auto simp: unmoved_def)
qed simp

subsection \<open>The runner interface\<close>

text \<open>
  \<open>dispatcher.Runner\<close>: a run disturbs neither the tables nor the queue, starts at most one
  container, named after the execution, and starts it exactly when its error does not wrap
  \<open>errNotStarted\<close> (as far as the daemon's answers can be trusted).
\<close>

locale runner =
  fixes x :: ext and run :: "claimed \<Rightarrow> world \<Rightarrow> run_result result \<times> world"
  assumes run_safe: "(\<And>a b c. R a b \<Longrightarrow> R b c \<Longrightarrow> R a c) \<Longrightarrow> (\<And>d. R d d) \<Longrightarrow>
      safe R d0 w \<Longrightarrow> keeps (safe R d0) (run c w)"
    and run_frame: "run c w = (res, w') \<Longrightarrow> published w' = published w \<and> posts w' = posts w"
    and run_at_most_once: "run c w = (res, w') \<Longrightarrow>
      started w' = started w \<or> started w' = started w @ [container_name x c]"
    and run_ran: "run c w = (res, w') \<Longrightarrow> \<not> aborted res \<Longrightarrow>
      started w' = started w @ [container_name x c]"
    and run_aborted: "run c w = (res, w') \<Longrightarrow> clear w \<Longrightarrow> aborted res \<Longrightarrow> started w' = started w"

context rely_guarantee
begin

lemma docker_keeps:
  assumes "safe R d0 w"
  shows "keeps (safe R d0) (docker_call w)" "keeps (safe R d0) (ContainerCreate cs n w)"
    "keeps (safe R d0) (ContainerRemove n w)" "keeps (safe R d0) (ContainerStart n w)"
    "keeps (safe R d0) (send_archive n tar w)"
  using assms
  by (auto simp: docker_call_def ContainerCreate_def ContainerRemove_def ContainerStart_def
      send_archive_def keeps_def Let_def dest: tick_safe
      split: prod.split fault.split sum.split)

lemma wait_keeps: "safe R d0 w \<Longrightarrow> keeps (safe R d0) (wait timeout w)"
  unfolding wait_def Let_def by (intro keeps_bind keeps_rules keeps_wait_reply select_keeps tick_keeps)

lemma Run_keeps: "safe R d0 w \<Longrightarrow> keeps (safe R d0) (Run x r c w)"
  unfolding Run_def create_container_def run_container_def collect_def readLogs_def
  by (intro keeps_bind keeps_rules docker_keeps wait_keeps)

end

lemma Run_safe:
  "(\<And>a b c. R a b \<Longrightarrow> R b c \<Longrightarrow> R a c) \<Longrightarrow> (\<And>d. R d d) \<Longrightarrow>
   safe R d0 w \<Longrightarrow> keeps (safe R d0) (Run x r c w)"
  by (rule rely_guarantee.Run_keeps) (unfold_locales, blast+)

interpretation docker: runner x "Run x r" for x r
  by unfold_locales (blast intro: Run_safe dest: Run_starts)+

subsection \<open>Runs in a quiet world\<close>

lemma docker_quiet:
  assumes "script w = []"
  shows "docker_call w = (Inr quiet, w)" "0 \<le> timeout \<Longrightarrow> wait timeout w = (Inr zero_result, w)"
    "ContainerStart n w = (nil_err, w\<lparr>started := started w @ [n]\<rparr>)"
    "send_archive n tar w = (nil_err, w\<lparr>fed := fed w @ [(n, tar)]\<rparr>)"
    "ContainerRemove n w = (if n \<in> set (containers w)
       then (nil_err, w\<lparr>containers := filter (\<lambda>m. m \<noteq> n) (containers w)\<rparr>) else (Inl (Failure []), w))"
    "ContainerCreate cs n w = (if n \<in> set (containers w) then (Inl (Failure []), w)
       else (nil_err, w\<lparr>containers := n # containers w, created := created w @ [(n, cs)]\<rparr>))"
  using assms
  by (simp_all add: docker_call_def wait_def select_until_def ContainerStart_def send_archive_def ContainerRemove_def
      ContainerCreate_def zero_result_def Let_def)

lemma collect_quiet: "script w = [] \<Longrightarrow> 0 \<le> timeout \<Longrightarrow> collect timeout w = (Inr zero_result, w)"
  by (simp add: collect_def readLogs_def docker_quiet zero_result_def truncateOutput_def)

lemma Run_quiet:
  assumes "script w = []" and "resolveLang x (c_language c) = Inr spec"
    and "container_name x c \<notin> set (containers w)" and "0 \<le> c_timeout_s c"
  shows "Run x r c w = (Inr zero_result,
     w\<lparr>created := created w @ [(container_name x c, sandbox_spec x r spec c)],
       started := started w @ [container_name x c],
       fed := fed w @ [(container_name x c, workArchive (c_source c) (c_stdin c) (ls_file spec))]\<rparr>)"
proof -
  have "filter (\<lambda>m. m \<noteq> container_name x c) (containers w) = containers w"
    using assms(3) by (auto simp: filter_id_conv)
  with assms show ?thesis
    by (simp add: Run_def create_container_def run_container_def docker_quiet collect_quiet Let_def)
qed

subsection \<open>Properties\<close>

text \<open>
  Every language the gateway accepts has a file name and a command in the runner,
  so a claimed execution never fails for its language.
\<close>

theorem accepted_languages_run:
  assumes "ValidLanguage lang"
  shows "\<exists>spec. resolveLang x lang = Inr spec \<and> ls_file spec \<noteq> [] \<and> ls_cmd spec \<noteq> []"
proof -
  have g: "graphic lang" using assms
    by (auto simp: ValidLanguage_def SupportedLanguages_def graphic_def)
  then have "ToLower (x_lower x) (TrimSpace lang) = map ascii_lower lang"
    by (simp add: TrimSpace_graphic ToLower_ascii graphic_ascii)
  with assms show ?thesis
    by (auto simp: resolveLang_def ValidLanguage_def SupportedLanguages_def langCommands_def ascii_lower_def)
qed

theorem accepted_languages_run_witness:
  "\<exists>spec. resolveLang sample_ext ''rust'' = Inr spec \<and> ls_file spec \<noteq> [] \<and> ls_cmd spec \<noteq> []"
  using accepted_languages_run [of "''rust''"]
  by (simp add: ValidLanguage_def SupportedLanguages_def)

text \<open>The limits and the isolation of a sandbox container.\<close>

definition isolated :: "container_spec \<Rightarrow> bool" where
  "isolated cs \<longleftrightarrow> cs_network_disabled cs \<and> cs_network_mode cs = ''none''
     \<and> cs_readonly_rootfs cs \<and> cs_user cs = ''65534:65534'' \<and> ''ALL'' \<in> set (cs_cap_drop cs)
     \<and> cs_memory cs \<le> 192 * 2 ^ 20 \<and> cs_memory_swap cs \<le> 384 * 2 ^ 20
     \<and> cs_nano_cpus cs \<le> 500000000 \<and> cs_pids_limit cs \<le> 32"

lemma sandbox_spec_isolated: "isolated (sandbox_spec x r spec c)"
  by (simp add: isolated_def sandbox_spec_def sandbox_bounds)

lemma ContainerCreate_created:
  "ContainerCreate cs n w = (r, w') \<Longrightarrow> created w' = created w \<or> created w' = created w @ [(n, cs)]"
  by (cases "tick w") (auto simp: ContainerCreate_def Let_def dest: tickD split: if_splits)

lemma create_container_created:
  assumes "create_container cs n w = (r, w')"
  shows "\<exists>k. created w' = created w @ replicate k (n, cs) \<and> k \<le> 2"
proof -
  obtain r1 w1 where c1: "ContainerCreate cs n w = (r1, w1)" by (metis prod.exhaust)
  obtain r2 w2 where rm: "ContainerRemove n w1 = (r2, w2)" by (metis prod.exhaust)
  obtain r3 w3 where c2: "ContainerCreate cs n w2 = (r3, w3)" by (metis prod.exhaust)
  have k: "\<exists>k. created w1 = created w @ replicate k (n, cs) \<and> k \<le> 1"
    using ContainerCreate_created [OF c1] by (metis append_Nil2 le_numeral_extra(4)
        One_nat_def replicate_0 replicate_Suc zero_le)
  then obtain k where k: "created w1 = created w @ replicate k (n, cs)" "k \<le> 1" by blast
  from assms c1 rm c2 have "w' = w1 \<or> w' = w2 \<or> w' = w3"
    by (auto simp: create_container_def split: sum.splits)
  moreover have "created w2 = created w1" using ContainerRemove_unmoved [OF rm] by simp
  moreover have "created w3 = created w2 \<or> created w3 = created w2 @ [(n, cs)]"
    by (rule ContainerCreate_created [OF c2])
  ultimately have "created w' = created w @ replicate k (n, cs)
      \<or> created w' = created w @ replicate (Suc k) (n, cs)"
    using k by (auto simp: replicate_append_same)
  with k(2) show ?thesis by (metis Suc_le_mono le_SucI numeral_2_eq_2 One_nat_def)
qed

lemma run_container_created: "run_container n tar timeout w = (r, w') \<Longrightarrow> created w' = created w"
  by (auto simp: run_container_def split: prod.splits sum.splits
      dest!: docker_call_unmoved ContainerStart_started(1) send_archive_unmoved collect_unmoved)

text \<open>
  Property C34: whatever Docker answers, every container a run creates is named after its
  execution and isolated: no network, a read-only root, an unprivileged user, no capabilities,
  and at most 192 MiB of memory, half a CPU and 32 processes; a run creates at most two (the
  second one after removing a left-over).
\<close>

theorem run_isolated:
  assumes "Run x r c w = (res, w')"
  shows "\<exists>new. created w' = created w @ new \<and> length new \<le> 2
     \<and> (\<forall>nc\<in>set new. fst nc = container_name x c \<and> isolated (snd nc))"
proof (cases "resolveLang x (c_language c)")
  case (Inl e)
  with assms show ?thesis by (intro exI [of _ "[]"]) (simp add: Run_def)
next
  case (Inr spec)
  obtain cr w1 where c: "create_container (sandbox_spec x r spec c) (container_name x c) w = (cr, w1)"
    by (metis prod.exhaust)
  then obtain k where k: "created w1 = created w
      @ replicate k (container_name x c, sandbox_spec x r spec c)" "k \<le> 2"
    using create_container_created by blast
  have "created w' = created w1"
    using assms Inr c
    by (auto simp: Run_def Let_def split: sum.splits prod.splits
        dest!: run_container_created ContainerRemove_unmoved)
  with k show ?thesis
    by (intro exI [of _ "replicate k (container_name x c, sandbox_spec x r spec c)"])
      (auto simp: sandbox_spec_isolated)
qed

lemma sample_lang: "resolveLang sample_ext (c_language (claimed_of sample_exec))
    = Inr \<lparr>ls_file = ''main.py'', ls_cmd = ''exec python /work/main.py < /work/stdin.txt''\<rparr>"
  by (simp add: resolveLang_def claimed_of_def sample_exec_def TrimSpace_graphic graphic_def
      langCommands_def ascii_lower_def)

lemma sample_timeout: "0 \<le> c_timeout_s (claimed_of sample_exec)"
  by (simp add: claimed_of_def sample_exec_def)

lemmas sample_run = Run_quiet [of sample_world sample_ext "claimed_of sample_exec", OF _ sample_lang _ sample_timeout]

theorem run_isolated_witness:
  "\<exists>new. created (snd (Run sample_ext (NewDockerRunner ''img'' ''runsc'') (claimed_of sample_exec) sample_world))
       = created sample_world @ new \<and> length new \<le> 2
     \<and> (\<forall>nc\<in>set new. fst nc = container_name sample_ext (claimed_of sample_exec) \<and> isolated (snd nc))"
  by (rule run_isolated [OF prod.collapse [symmetric]])

text \<open>
  As far as Docker's answers can be trusted, a run starts exactly one container
  unless it reports that the sandbox was not started, and then none; this is what lets the
  dispatcher requeue exactly the runs that reported it.
\<close>

theorem run_starts_unless_aborted:
  assumes "Run x r c w = (res, w')" and "clear w"
  shows "started w' = started w @ (if aborted res then [] else [container_name x c])"
  using Run_starts [OF assms(1)] assms(2) by auto

theorem run_starts_unless_aborted_witness:
  "started (snd (Run sample_ext (NewDockerRunner ''img'' ''runsc'') (claimed_of sample_exec) sample_world))
     = [container_name sample_ext (claimed_of sample_exec)]"
proof -
  have "Run sample_ext (NewDockerRunner ''img'' ''runsc'') (claimed_of sample_exec) sample_world
     = (Inr zero_result, snd (Run sample_ext (NewDockerRunner ''img'' ''runsc'') (claimed_of sample_exec) sample_world))"
    by (subst (1 2) sample_run) (simp_all add: sample_world_def)
  from run_starts_unless_aborted [OF this] show ?thesis
    by (simp add: clear_def) (simp add: sample_world_def)
qed

text \<open>The digits of a number below a power of ten.\<close>

lemma length_utoa: "n < 10 ^ Suc k \<Longrightarrow> length (utoa n) \<le> Suc k"
proof (induction k arbitrary: n)
  case 0
  then show ?case by (subst utoa.simps) simp
next
  case (Suc k)
  then have "n div 10 < 10 ^ Suc k" by (intro less_mult_imp_div_less) (simp add: mult.commute)
  from Suc.IH [OF this] show ?case by (subst utoa.simps) simp
qed

lemma truncateOutput_bound:
  assumes "length s < 10 ^ 18"
  shows "length (truncateOutput s) \<le> maxOutputBytes + 41"
proof (cases "length s \<le> maxOutputBytes")
  case False
  define n where "n = length s - maxOutputBytes"
  have i: "Itoa (int (length s) - int maxOutputBytes) = utoa n"
    using False by (simp add: Itoa_def n_def nat_diff_distrib)
  have "n < 10 ^ Suc 17" using assms by (simp add: n_def)
  from length_utoa [OF this] False show ?thesis
    unfolding truncateOutput_def i by simp
qed (simp add: truncateOutput_def)

lemma collect_outputs:
  "collect timeout w = (Inr res, w') \<Longrightarrow>
   \<exists>out err. rr_stdout res = truncateOutput out \<and> rr_stderr res = truncateOutput err"
  by (auto simp: collect_def split: prod.splits sum.splits)

lemma Run_outputs:
  assumes "Run x r c w = (Inr res, w')"
  shows "\<exists>out err. rr_stdout res = truncateOutput out \<and> rr_stderr res = truncateOutput err"
  using assms
proof (cases rule: Run_cases)
  case (ran spec w1 w2 rm)
  from ran(3) obtain w3 where "collect (c_timeout_s c * second) w3 = (Inr res, w2)"
    by (auto simp: run_container_def split: prod.splits sum.splits)
  then show ?thesis by (rule collect_outputs)
qed auto



text \<open>A sweep leaves no container behind when no call fails.\<close>

lemma ContainerRemove_faults:
  assumes "faults w = 0" and "ContainerRemove n w = (r, w')"
  shows "faults w' = 0 \<and> containers w' = filter (\<lambda>m. m \<noteq> n) (containers w)"
proof -
  obtain e w1 where t: "tick w = (e, w1)" by (metis prod.exhaust)
  have "filter (\<lambda>m. m \<noteq> n) (containers w) = containers w" if "n \<notin> set (containers w)"
    using that by (auto simp: filter_id_conv)
  then show ?thesis
    using assms t tick_faults(1) [OF t] tickD(2) [OF t]
    by (auto simp: ContainerRemove_def Let_def faults_def split: if_splits)
qed

lemma remove_all_faults:
  "faults w = 0 \<Longrightarrow> containers (remove_all ns w) = filter (\<lambda>m. m \<notin> set ns) (containers w)"
proof (induction ns arbitrary: w)
  case (Cons n ns)
  obtain r w1 where "ContainerRemove n w = (r, w1)" by (metis prod.exhaust)
  with Cons ContainerRemove_faults [of w n r w1] show ?case
    by (auto intro: filter_cong simp: filter_filter)
qed simp

text \<open>
  The sweep at start-up, when no call to Docker fails, removes every sandbox
  container left over from a previous dispatcher.
\<close>

theorem sweep_removes_all:
  assumes "faults w = 0"
  shows "fst (Sweep w) = nil_err \<and> containers (snd (Sweep w)) = []"
proof -
  obtain e w1 where t: "tick w = (e, w1)" by (metis prod.exhaust)
  from tick_faults(1) [OF t] assms have "ev_fault e = Done" "faults w1 = 0" by (auto split: if_splits)
  with t show ?thesis by (simp add: Sweep_def docker_call_def remove_all_faults)
qed

theorem sweep_removes_all_witness:
  "containers (snd (Sweep (sample_world\<lparr>containers := [''runnix-exec-1'', ''runnix-exec-2'']\<rparr>))) = []"
  using sweep_removes_all [of "sample_world\<lparr>containers := [''runnix-exec-1'', ''runnix-exec-2'']\<rparr>"]
  by (simp add: faults_def)

end
