(* ===== verification/Dispatcher.thy ===== *)
theory Dispatcher
  imports Sandbox
begin

section \<open>The dispatcher\<close>

text \<open>
  \<open>internal/dispatcher/dispatcher.go\<close>. A dispatcher is
  wired with a runner and, when a signing secret is configured, a webhook sender; its store is
  Postgres and its publisher is the NATS client, as in \<open>cmd/dispatcher/main.go\<close>.
\<close>

record dispatcher =
  ds_runner :: "claimed \<Rightarrow> world \<Rightarrow> run_result result \<times> world"
  ds_webhooks :: "(string \<Rightarrow> execution_event \<Rightarrow> world \<Rightarrow> unit result \<times> world) option"

definition maxDeliver :: nat where "maxDeliver = 5"
definition ackWait :: int where "ackWait = 90 * second"
definition nakDelay :: int where "nakDelay = 5 * second"
definition finishAttempts :: nat where "finishAttempts = 3"
definition finishBackoff :: int where "finishBackoff = 100 * 1000000"

subsection \<open>Persisting a result\<close>

text \<open>\<open>n\<close> more attempts may follow the next one.\<close>

fun finish_attempts :: "finish_params \<Rightarrow> int \<Rightarrow> nat \<Rightarrow> world \<Rightarrow> unit result \<times> world" where
  "finish_attempts a delay 0 w = db_call (FinishExecution a) w"
| "finish_attempts a delay (Suc n) w =
     (case db_call (FinishExecution a) w of (r, w1) \<Rightarrow>
        case r of
          Inr _ \<Rightarrow> (nil_err, w1)
        | Inl e \<Rightarrow>
            (case sleep delay w1 of (cancelled, w2) \<Rightarrow>
              if cancelled then (Inl e, w2) else finish_attempts a (2 * delay) n w2))"

definition finish :: "finish_params \<Rightarrow> world \<Rightarrow> unit result \<times> world" where
  "finish a w = finish_attempts a finishBackoff (finishAttempts - 1) w"

subsection \<open>Webhook\<close>

definition deliverWebhook ::
    "ext \<Rightarrow> dispatcher \<Rightarrow> submit_message \<Rightarrow> claimed \<Rightarrow> string \<Rightarrow> int option \<Rightarrow> int \<Rightarrow> world \<Rightarrow> world" where
  "deliverWebhook x d msg c status exit_code took w =
     (let u = (case c_webhook_url c of Some s \<Rightarrow> s | None \<Rightarrow> [])
      in case ds_webhooks d of
           None \<Rightarrow> w
         | Some send \<Rightarrow>
             if u = [] then w
             else snd (send u
               \<lparr>ee_event = EventExecutionCompleted, ee_execution_id = sm_execution_id msg,
                ee_tenant_id = sm_tenant_id msg, ee_status = status, ee_exit_code = exit_code,
                ee_duration_ms = go_div took 1000000, ee_finished_at = x_rfc3339 x (now w)\<rparr> w))"

subsection \<open>One message\<close>

text \<open>The text of an error, as far as it reaches the database.\<close>

fun err_text :: "err \<Rightarrow> string" where
  "err_text (Failure m) = m"
| "err_text (NotStarted m) = ''sandbox not started: '' @ m"
| "err_text (PgError c) = ''SQLSTATE '' @ c"
| "err_text NoRows = ''no rows in result set''"
| "err_text ConnError = ''connection error''"

text \<open>What follows a failed run, and what follows a finished one.\<close>

definition run_failed ::
    "ext \<Rightarrow> dispatcher \<Rightarrow> submit_message \<Rightarrow> claimed \<Rightarrow> int \<Rightarrow> err \<Rightarrow> world \<Rightarrow> unit result \<times> world" where
  "run_failed x d msg c began e w =
     (if not_started e
      then (case db_call (RequeueExecution (c_id c)) w of (_, w1) \<Rightarrow> (Inl e, w1))
      else (case finish \<lparr>fp_id = c_id c, fp_status = ''failed'', fp_stdout = [],
                         fp_stderr = ''runner error: '' @ err_text e, fp_exit_code = None\<rparr> w of
              (_, w1) \<Rightarrow> (nil_err, deliverWebhook x d msg c ''failed'' None (now w1 - began) w1)))"

definition result_params :: "claimed \<Rightarrow> run_result \<Rightarrow> finish_params" where
  "result_params c res =
     (case classify res of (status, exit_code, stderr) \<Rightarrow>
        \<lparr>fp_id = c_id c, fp_status = status, fp_stdout = rr_stdout res, fp_stderr = stderr,
         fp_exit_code = map_option to_int32 exit_code\<rparr>)"

definition run_finished ::
    "ext \<Rightarrow> dispatcher \<Rightarrow> submit_message \<Rightarrow> claimed \<Rightarrow> int \<Rightarrow> run_result \<Rightarrow> world
      \<Rightarrow> unit result \<times> world" where
  "run_finished x d msg c began res w =
     (case classify res of (status, exit_code, _) \<Rightarrow>
       (case finish (result_params c res) w of (f, w1) \<Rightarrow>
         case f of
           Inl e \<Rightarrow> (Inl e, w1)
         | Inr _ \<Rightarrow>
             (case PublishResult \<lparr>rm_execution_id = sm_execution_id msg,
                 rm_tenant_id = sm_tenant_id msg, rm_status = status, rm_exit_code = exit_code\<rparr> w1 of
               (_, w2) \<Rightarrow> (nil_err, deliverWebhook x d msg c status exit_code (now w2 - began) w2))))"

definition handle :: "ext \<Rightarrow> dispatcher \<Rightarrow> payload \<Rightarrow> world \<Rightarrow> unit result \<times> world" where
  "handle x d raw w =
     (case unmarshal_submit raw of
        None \<Rightarrow> (nil_err, w)
      | Some msg \<Rightarrow>
          if sm_execution_id msg = [] \<or> \<not> ValidLanguage (sm_language msg) then (nil_err, w)
          else (case ParsePg x (sm_execution_id msg) of
              Inl _ \<Rightarrow> (nil_err, w)
            | Inr i \<Rightarrow>
                (case db_call (MarkExecutionRunning i) w of (claim, w1) \<Rightarrow>
                  case claim of
                    Inl e \<Rightarrow> (if e = NoRows then (nil_err, w1) else (Inl e, w1))
                  | Inr c \<Rightarrow>
                      (case ds_runner d c w1 of (run, w2) \<Rightarrow>
                        case run of
                          Inl e \<Rightarrow> run_failed x d msg c (now w1) e w2
                        | Inr res \<Rightarrow> run_finished x d msg c (now w1) res w2))))"

subsection \<open>The worker loop\<close>

text \<open>
  \<open>it.Next()\<close> gives a message, a transient error (back off a second) or the end of the
  iterator; every message is acknowledged or sent back for redelivery after \<open>nakDelay\<close>.
\<close>

datatype pull = Msg payload | PullError | Closed

datatype disposition = Ack | NakWithDelay int

text \<open>One round of the loop: what is done with the message, and whether the loop goes on.\<close>

fun worker_turn :: "ext \<Rightarrow> dispatcher \<Rightarrow> pull \<Rightarrow> world \<Rightarrow> (disposition list \<times> bool) \<times> world" where
  "worker_turn x d Closed w = (([], False), w)"
| "worker_turn x d PullError w = (case sleep second w of (cancelled, w1) \<Rightarrow> (([], \<not> cancelled), w1))"
| "worker_turn x d (Msg raw) w =
     (case handle x d raw w of (r, w1) \<Rightarrow>
        (([case r of Inl _ \<Rightarrow> NakWithDelay nakDelay | Inr _ \<Rightarrow> Ack], True), w1))"

fun worker :: "ext \<Rightarrow> dispatcher \<Rightarrow> pull list \<Rightarrow> world \<Rightarrow> disposition list \<times> world" where
  "worker x d [] w = ([], w)"
| "worker x d (p # ps) w =
     (case worker_turn x d p w of (t, w1) \<Rightarrow>
        if snd t then (case worker x d ps w1 of (acks, w2) \<Rightarrow> (fst t @ acks, w2)) else (fst t, w1))"

subsection \<open>Wiring\<close>

text \<open>The dispatcher that \<open>cmd/dispatcher/main.go\<close> wires up.\<close>

definition wire :: "ext \<Rightarrow> string \<Rightarrow> string \<Rightarrow> string \<Rightarrow> bool \<Rightarrow> dispatcher" where
  "wire x runner_image runner_runtime secret allow_private =
     \<lparr>ds_runner = Run x (NewDockerRunner runner_image runner_runtime),
      ds_webhooks =
        (if secret = [] then None
         else Some (Deliver x \<lparr>dl_secret = secret, dl_allow_private = allow_private\<rparr>))\<rparr>"

subsection \<open>Statuses\<close>

lemma classify_final: "final_status (fst (classify res))"
  by (simp add: classify_def)

lemma result_params_final: "final_status (fp_status (result_params c res))"
  using classify_final [of res] by (cases "classify res") (simp add: result_params_def)

lemma fp_id_result_params [simp]: "fp_id (result_params c res) = c_id c"
  by (simp add: result_params_def split: prod.split)

subsection \<open>Guarantee\<close>

text \<open>\<open>finish\<close> talks to the database only.\<close>

lemma finish_attempts_same: "same_io w0 w \<Longrightarrow> keeps (same_io w0) (finish_attempts a delay n w)"
proof (induction n arbitrary: delay w)
  case 0
  then show ?case by (simp add: call_same)
next
  case (Suc n)
  then show ?case
    unfolding finish_attempts.simps by (intro keeps_bind keeps_rules call_same Suc.IH)
qed

lemma finish_same: "finish a w = (r, w') \<Longrightarrow> same_io w w'"
  using finish_attempts_same [of w w a finishBackoff "finishAttempts - 1"]
  by (simp add: finish_def keeps_def)

context store_client
begin

lemma finish_attempts_keeps:
  "final_status (fp_status a) \<Longrightarrow> safe R d0 w \<Longrightarrow> keeps (safe R d0) (finish_attempts a delay n w)"
proof (induction n arbitrary: delay w)
  case 0
  then show ?case by (simp add: db_call_keeps store_rules)
next
  case (Suc n)
  then show ?case
    unfolding finish_attempts.simps
    by (intro keeps_bind keeps_rules db_call_keeps sleep_keeps Suc.IH store_rules)
qed

lemma finish_keeps:
  "final_status (fp_status a) \<Longrightarrow> safe R d0 w \<Longrightarrow> keeps (safe R d0) (finish a w)"
  unfolding finish_def by (rule finish_attempts_keeps)

lemma PublishResult_keeps: "safe R d0 w \<Longrightarrow> keeps (safe R d0) (PublishResult m w)"
  unfolding PublishResult_def by (rule js_publish_keeps)

end

text \<open>The dispatcher's parts: a runner and a webhook sender, both neutral to a relation on tables.\<close>

locale dispatch_parts = rely_guarantee R + runner x "ds_runner d" for R x and d :: dispatcher +
  assumes hook_safe: "ds_webhooks d = Some send \<Longrightarrow> safe R d0 w \<Longrightarrow> keeps (safe R d0) (send u e w)"
    and hook_frame: "ds_webhooks d = Some send \<Longrightarrow> send u e w = (r, w') \<Longrightarrow>
      started w' = started w \<and> published w' = published w"
begin

lemma deliverWebhook_safe: "safe R d0 w \<Longrightarrow> safe R d0 (deliverWebhook x d msg c s ec n w)"
  using hook_safe by (simp add: deliverWebhook_def keeps_def Let_def split: option.split)

lemma deliverWebhook_frame:
  "started (deliverWebhook x d msg c s ec n w) = started w"
  "published (deliverWebhook x d msg c s ec n w) = published w"
  using hook_frame by (auto simp: deliverWebhook_def Let_def split: option.split) (metis prod.collapse)+

lemma run_keeps: "safe R d0 w \<Longrightarrow> keeps (safe R d0) (ds_runner d c w)"
  by (rule run_safe) (blast intro: R_trans R_refl)+

text \<open>After a run that failed nothing more is started.\<close>

lemma run_failed_started: "run_failed x d msg c n e w = (r, w') \<Longrightarrow> started w' = started w"
  by (auto simp: run_failed_def deliverWebhook_frame same_io_def split: if_splits prod.splits
      dest!: finish_same db_call_same)

lemma run_finished_started: "run_finished x d msg c n res w = (r, w') \<Longrightarrow> started w' = started w"
  by (auto simp: run_finished_def deliverWebhook_frame same_io_def PublishResult_def
      split: prod.splits sum.splits dest!: finish_same)
    (metis js_publish_frame(3) snd_conv)

end

text \<open>With a store on top, the dispatcher issues statements only.\<close>

locale dispatch = dispatch_parts R x d + store_client R for R x and d :: dispatcher
begin

lemma run_failed_keeps: "safe R d0 w \<Longrightarrow> keeps (safe R d0) (run_failed x d msg c n e w)"
  unfolding run_failed_def
  by (intro keeps_bind keeps_rules db_call_keeps store_rules deliverWebhook_safe finish_keeps) simp_all

lemma run_finished_keeps: "safe R d0 w \<Longrightarrow> keeps (safe R d0) (run_finished x d msg c n res w)"
  unfolding run_finished_def
  by (intro keeps_triple keeps_bind keeps_sum keeps_ret deliverWebhook_safe finish_keeps
      PublishResult_keeps result_params_final)

lemma handle_keeps: "safe R d0 w \<Longrightarrow> keeps (safe R d0) (handle x d raw w)"
  unfolding handle_def
  by (intro keeps_bind keeps_rules db_call_keeps store_rules run_keeps run_failed_keeps
      run_finished_keeps)

lemma worker_turn_keeps: "safe R d0 w \<Longrightarrow> keeps (safe R d0) (worker_turn x d p w)"
  by (cases p; simp only: worker_turn.simps) (intro keeps_bind keeps_ret handle_keeps sleep_keeps; assumption)+

lemma worker_keeps: "safe R d0 w \<Longrightarrow> keeps (safe R d0) (worker x d ps w)"
proof (induction ps arbitrary: w)
  case Nil
  then show ?case by (simp add: keeps_def)
next
  case (Cons p ps)
  then show ?case
    unfolding worker.simps by (intro keeps_bind keeps_rules worker_turn_keeps Cons.IH)
qed

end

subsection \<open>The cases of a message\<close>

definition claimable :: "ext \<Rightarrow> payload \<Rightarrow> (submit_message \<times> uuid) option" where
  "claimable x raw =
     (case unmarshal_submit raw of
        None \<Rightarrow> None
      | Some msg \<Rightarrow>
          if sm_execution_id msg = [] \<or> \<not> ValidLanguage (sm_language msg) then None
          else map_option (Pair msg) (x_uuid_parse x (sm_execution_id msg)))"

lemma handle_poison: "claimable x raw = None \<Longrightarrow> handle x d raw w = (nil_err, w)"
  by (auto simp: handle_def claimable_def ParsePg_def split: option.splits if_splits)

lemma handle_claimable:
  "claimable x raw = Some (msg, i) \<Longrightarrow>
   handle x d raw w =
     (case db_call (MarkExecutionRunning (Some i)) w of (claim, w1) \<Rightarrow>
        case claim of
          Inl e \<Rightarrow> (if e = NoRows then (nil_err, w1) else (Inl e, w1))
        | Inr c \<Rightarrow>
            (case ds_runner d c w1 of (run, w2) \<Rightarrow>
              case run of
                Inl e \<Rightarrow> run_failed x d msg c (now w1) e w2
              | Inr res \<Rightarrow> run_finished x d msg c (now w1) res w2))"
  by (auto simp: handle_def claimable_def ParsePg_def UUIDToPg_def split: option.splits if_splits)

lemma handle_cases:
  assumes "handle x d raw w = (r, w')"
  obtains (poison) "claimable x raw = None" "r = nil_err" "w' = w"
  | (unclaimed) msg i e where "claimable x raw = Some (msg, i)"
      "db_call (MarkExecutionRunning (Some i)) w = (Inl e, w')"
      "r = (if e = NoRows then nil_err else Inl e)"
  | (failed) msg i c w1 e w2 where "claimable x raw = Some (msg, i)"
      "db_call (MarkExecutionRunning (Some i)) w = (Inr c, w1)"
      "ds_runner d c w1 = (Inl e, w2)" "run_failed x d msg c (now w1) e w2 = (r, w')"
  | (finished) msg i c w1 res w2 where "claimable x raw = Some (msg, i)"
      "db_call (MarkExecutionRunning (Some i)) w = (Inr c, w1)"
      "ds_runner d c w1 = (Inr res, w2)" "run_finished x d msg c (now w1) res w2 = (r, w')"
proof (cases "claimable x raw")
  case None
  then show thesis using handle_poison [of x raw d w] assms poison by simp
next
  case (Some mi)
  obtain msg i where "mi = (msg, i)" by (cases mi)
  with Some have ok: "claimable x raw = Some (msg, i)" by simp
  obtain claim w1 where c: "db_call (MarkExecutionRunning (Some i)) w = (claim, w1)"
    by (metis prod.exhaust)
  show thesis
  proof (cases claim)
    case (Inl e)
    then show thesis using handle_claimable [OF ok, of d w] assms c unclaimed [OF ok]
      by (auto split: if_splits)
  next
    case (Inr a)
    obtain run w2 where "ds_runner d a w1 = (run, w2)" by (metis prod.exhaust)
    then show thesis
      using handle_claimable [OF ok, of d w] assms c Inr failed [OF ok] finished [OF ok]
      by (cases run) auto
  qed
qed

text \<open>A claim returns the row it took.\<close>

lemma MarkExecutionRunning_Inr:
  "MarkExecutionRunning i t u d = (Inr c, d') \<Longrightarrow>
   \<exists>r\<in>set (executions d). Some (e_id r) = i \<and> e_status r = ''queued'' \<and> c = claimed_of r
     \<and> d' = upd_executions (\<lambda>r. Some (e_id r) = i \<and> e_status r = ''queued'') (set_status ''running'' t) d"
  by (auto simp: MarkExecutionRunning_def Let_def dest: find_SomeD split: option.splits)

lemma db_call_Inr:
  assumes "db_call q w = (Inr a, w')"
  obtains e w1 where "tick w = (e, w1)" "q (now w1) (ev_uuid e) (db w1) = (Inr a, db w')"
    "w' = w1\<lparr>db := db w'\<rparr>"
  using assms by (cases "tick w") (auto simp: db_call_def split: fault.splits prod.splits)

lemma claim_id: "db_call (MarkExecutionRunning i) w = (Inr c, w') \<Longrightarrow> c_id c = i"
  by (elim db_call_Inr) (auto dest!: MarkExecutionRunning_Inr simp: claimed_of_def)

subsection \<open>The wired dispatcher\<close>

lemma http_post_frame:
  "http_post p w = (q, w') \<Longrightarrow> started w' = started w \<and> published w' = published w"
  using select_same [of w w "now w + clientTimeout"]
  by (cases "select_until (now w + clientTimeout) w") (auto simp: http_post_def keeps_def same_io_def)

lemma deliverOnce_frame:
  "deliverOnce x d u b w = (q, w') \<Longrightarrow> started w' = started w \<and> published w' = published w"
  by (auto simp: deliverOnce_def Let_def dest: http_post_frame split: option.splits prod.splits http_reply.splits if_splits)

lemma deliver_attempts_frame:
  "started (snd (deliver_attempts x d u b ds w)) = started w \<and>
   published (snd (deliver_attempts x d u b ds w)) = published w"
proof (induction ds arbitrary: w)
  case Nil
  obtain retry r w1 where "deliverOnce x d u b w = ((retry, r), w1)" by (metis prod.exhaust)
  then show ?case using deliverOnce_frame by fastforce
next
  case (Cons delay ds)
  obtain retry r w1 where o: "deliverOnce x d u b w = ((retry, r), w1)" by (metis prod.exhaust)
  obtain c w2 where c: "sleep delay w1 = (c, w2)" by (metis prod.exhaust)
  then have "started w2 = started w1 \<and> published w2 = published w1"
    using sleep_frame [of delay w1] by simp
  with o deliverOnce_frame [OF o] c Cons.IH show ?case by (simp split: sum.split)
qed

lemma Deliver_frame:
  "Deliver x d u e w = (r, w') \<Longrightarrow> started w' = started w \<and> published w' = published w"
proof -
  assume d: "Deliver x d u e w = (r, w')"
  obtain q w1 where v: "ValidateCallbackURL x u (dl_allow_private d) w = (q, w1)"
    by (metis prod.exhaust)
  then have "same_io w w1"
    using ValidateCallbackURL_same [of w w x u "dl_allow_private d"] by (simp add: keeps_def)
  with d v deliver_attempts_frame [of x d u "marshal_event e" retryDelays w1] show ?thesis
    by (auto simp: Deliver_def same_io_def split: if_splits sum.splits)
qed

lemma wire_parts: "rely_guarantee R \<Longrightarrow> dispatch_parts R x (wire x i rt secret ap)"
  unfolding dispatch_parts_def dispatch_parts_axioms_def
  by (auto simp: docker.runner_axioms wire_def dest: Deliver_frame intro: rely_guarantee.Deliver_keeps
      split: if_splits)

interpretation live: dispatch db_path x "wire x i rt secret ap" for x i rt secret ap
  by (simp add: dispatch_def wire_parts path.rely_guarantee_axioms path.store_client_axioms)

interpretation solo: dispatch_parts "(=)" x "wire x i rt secret ap" for x i rt secret ap
  by (simp add: wire_parts alone.rely_guarantee_axioms)

end
