(* ===== verification/Dispatch_Effect.thy ===== *)
theory Dispatch_Effect
  imports Dispatcher Sample
begin

section \<open>What handling a message does\<close>

text \<open>
  The retries of \<open>finish\<close>, and the exact effect of \<open>handle\<close> on the row of its message when no
  other process interferes.
\<close>

subsection \<open>Persisting a result, without interference\<close>

text \<open>Writing a result twice is writing it once.\<close>

lemma FinishExecution_uuid: "FinishExecution a t u d = FinishExecution a t 0 d"
  by (simp add: FinishExecution_def)

lemma FinishExecution_twice:
  assumes "final_status (fp_status a)"
  shows "snd (FinishExecution a t' u' (snd (FinishExecution a t u d))) = snd (FinishExecution a t u d)"
proof -
  have ne: "fp_status a \<noteq> ''running''" using assms by auto
  have "update_where (\<lambda>r. Some (e_id r) = fp_id a \<and> e_status r = ''running'') (finish_row a t')
      (update_where (\<lambda>r. Some (e_id r) = fp_id a \<and> e_status r = ''running'') (finish_row a t) rs)
    = update_where (\<lambda>r. Some (e_id r) = fp_id a \<and> e_status r = ''running'') (finish_row a t) rs"
    for rs
    using ne by (induction rs) (simp_all add: finish_row_def)
  with assms show ?thesis by (simp add: FinishExecution_def Let_def)
qed

lemma FinishExecution_ok:
  "final_status (fp_status a) \<Longrightarrow> list_all text_ok [fp_status a, fp_stdout a, fp_stderr a] \<Longrightarrow>
   fst (FinishExecution a t u d) = nil_err"
  by (simp add: FinishExecution_def Let_def)

lemma sleep_alone: "obeys (=) w \<Longrightarrow> sleep n w = (c, w') \<Longrightarrow> db w' = db w \<and> obeys (=) w'"
  using alone.sleep_keeps [of "db w" w n] by (simp add: safe_def keeps_def)

text \<open>
  Whatever attempts fail and however, the row is written at most once, and it has been written
  when the answer is success.
\<close>

lemma FinishExecution_call:
  assumes "final_status (fp_status a)" and "obeys (=) w"
    and "db_call (FinishExecution a) w = (r, w')"
    and "db w = d \<or> (\<exists>t. db w = snd (FinishExecution a t 0 d))"
  shows "db w' = d \<and> r \<noteq> nil_err \<or> (\<exists>t. db w' = snd (FinishExecution a t 0 d))"
proof -
  from db_call_alone(2) [OF assms(2,3)]
  obtain t where "db w' = snd (FinishExecution a t 0 (db w)) \<or> r \<noteq> nil_err \<and> db w' = db w"
    by (subst (asm) (1 2 3) FinishExecution_uuid) auto
  with assms(4) FinishExecution_twice [OF assms(1)] show ?thesis by (elim disjE exE) auto
qed

lemma finish_attempts_once:
  assumes "final_status (fp_status a)" and "obeys (=) w"
    and "finish_attempts a delay n w = (r, w')"
    and "db w = d \<or> (\<exists>t. db w = snd (FinishExecution a t 0 d))"
  shows "db w' = d \<and> r \<noteq> nil_err \<or> (\<exists>t. db w' = snd (FinishExecution a t 0 d))"
  using assms(2-4)
proof (induction n arbitrary: delay w)
  case 0
  with FinishExecution_call [OF assms(1)] show ?case by simp
next
  case (Suc n)
  obtain q w1 where q: "db_call (FinishExecution a) w = (q, w1)" by (metis prod.exhaust)
  obtain c w2 where c: "sleep delay w1 = (c, w2)" by (metis prod.exhaust)
  note w2 = sleep_alone [OF db_call_alone(1) [OF Suc.prems(1) q] c]
  note d1 = FinishExecution_call [OF assms(1) Suc.prems(1) q Suc.prems(3)]
  show ?case
  proof (cases "q = nil_err \<or> c")
    case True
    with Suc.prems(2) q c d1 w2 show ?thesis by (cases q) auto
  next
    case False
    with Suc.prems(2) q c have "finish_attempts a (2 * delay) n w2 = (r, w')" by (cases q) auto
    moreover have "db w2 = d \<or> (\<exists>t. db w2 = snd (FinishExecution a t 0 d))" using w2 d1 by metis
    ultimately show ?thesis using w2 Suc.IH by blast
  qed
qed

text \<open>Output that Postgres cannot store as text is never stored, however often it is tried.\<close>

definition storable :: "finish_params \<Rightarrow> bool" where
  "storable a \<longleftrightarrow> list_all text_ok [fp_status a, fp_stdout a, fp_stderr a]"

lemma FinishExecution_unstorable:
  "\<not> storable a \<Longrightarrow> FinishExecution a t u d = (Inl (PgError ''22021''), d)"
  by (simp add: FinishExecution_def storable_def)

lemma finish_attempts_storable:
  "finish_attempts a delay n w = (nil_err, w') \<Longrightarrow> storable a"
proof (induction n arbitrary: delay w)
  case 0
  then show ?case
    by (cases "tick w", cases "storable a")
      (auto simp: db_call_def FinishExecution_unstorable split: fault.splits)
next
  case (Suc n)
  obtain q w1 where q: "db_call (FinishExecution a) w = (q, w1)" by (metis prod.exhaust)
  have "storable a" if "q = nil_err"
    using q that by (cases "tick w", cases "storable a")
      (auto simp: db_call_def FinishExecution_unstorable split: fault.splits)
  with q Suc show ?case by (auto split: sum.splits prod.splits if_splits)
qed

lemma db_call_faults:
  assumes "db_call q w = (r, w')" and "\<And>t u d. fst (q t u d) = Inr a"
  shows "r = Inr a \<or> faults w = Suc (faults w')"
    and "faults w' \<le> faults w" and "uncancelled w \<Longrightarrow> uncancelled w'"
proof -
  obtain e w1 where t: "tick w = (e, w1)" by (metis prod.exhaust)
  note f = tick_faults [OF t]
  show "r = Inr a \<or> faults w = Suc (faults w')" and "faults w' \<le> faults w"
    using assms t f(1) by (auto simp: db_call_def split: fault.splits prod.splits) (metis fst_conv)+
  show "uncancelled w'" if "uncancelled w"
    using assms(1) t f(2) [OF that] by (auto simp: db_call_def split: fault.splits prod.splits)
qed

lemma sleep_uncancelled:
  assumes "uncancelled w" and "sleep n w = (c, w')"
  shows "\<not> c" and "faults w' \<le> faults w" and "uncancelled w'"
proof -
  obtain e w1 where t: "tick w = (e, w1)" by (metis prod.exhaust)
  note f = tick_faults [OF t]
  from assms t f show "\<not> c" and "faults w' \<le> faults w" and "uncancelled w'"
    by (auto simp: sleep_def split: if_splits)
qed

lemma finish_attempts_survives:
  assumes "final_status (fp_status a)" and "list_all text_ok [fp_status a, fp_stdout a, fp_stderr a]"
  shows "uncancelled w \<Longrightarrow> faults w \<le> n \<Longrightarrow> fst (finish_attempts a delay n w) = nil_err"
proof (induction n arbitrary: delay w)
  case 0
  obtain q w1 where q: "db_call (FinishExecution a) w = (q, w1)" by (metis prod.exhaust)
  with db_call_faults(1) [OF q FinishExecution_ok [OF assms]] 0 show ?case by auto
next
  case (Suc n)
  obtain q w1 where q: "db_call (FinishExecution a) w = (q, w1)" by (metis prod.exhaust)
  note f = db_call_faults [OF q FinishExecution_ok [OF assms]]
  obtain c w2 where c: "sleep delay w1 = (c, w2)" by (metis prod.exhaust)
  note g = sleep_uncancelled [OF f(3) [OF Suc.prems(1)] c]
  show ?case
  proof (cases q)
    case (Inl e)
    then have "faults w2 \<le> n" using f(1) g(2) Suc.prems(2) by auto
    with Inl q c g Suc.IH show ?thesis by simp
  qed (use q in simp)
qed

text \<open>Time and events that \<open>finish\<close> may use.\<close>

definition elapsed :: "event list \<Rightarrow> int" where
  "elapsed es = int (sum_list (map ev_elapsed es))"

lemma elapsed_append: "elapsed (xs @ ys) = elapsed xs + elapsed ys"
  by (simp add: elapsed_def)

lemma tick_time:
  "tick w = (e, w1) \<Longrightarrow>
   \<exists>es. script w = es @ script w1 \<and> length es \<le> 1 \<and> now w1 = now w + elapsed es"
  by (auto simp: tick_def elapsed_def split: list.splits)

lemma db_call_time:
  "db_call q w = (r, w') \<Longrightarrow>
   \<exists>es. script w = es @ script w' \<and> length es \<le> 1 \<and> now w' = now w + elapsed es"
  by (cases "tick w") (auto simp: db_call_def dest!: tick_time split: fault.splits prod.splits)

lemma sleep_time:
  "sleep n w = (c, w') \<Longrightarrow> 0 \<le> n \<Longrightarrow>
   \<exists>es. script w = es @ script w' \<and> length es \<le> 1 \<and> now w' \<le> now w + elapsed es + n"
  by (cases "tick w") (auto simp: sleep_def dest!: tick_time split: if_splits)

lemma finish_attempts_time:
  "0 \<le> delay \<Longrightarrow> finish_attempts a delay n w = (r, w') \<Longrightarrow>
   \<exists>es. script w = es @ script w' \<and> length es \<le> 2 * n + 1
      \<and> now w' \<le> now w + elapsed es + (2 ^ n - 1) * delay"
proof (induction n arbitrary: delay w)
  case 0
  then show ?case using db_call_time by fastforce
next
  case (Suc n)
  obtain q w1 where q: "db_call (FinishExecution a) w = (q, w1)" by (metis prod.exhaust)
  then obtain es1 where es1: "script w = es1 @ script w1" "length es1 \<le> 1" "now w1 = now w + elapsed es1"
    using db_call_time by blast
  obtain c w2 where c: "sleep delay w1 = (c, w2)" by (metis prod.exhaust)
  then obtain es2 where es2: "script w1 = es2 @ script w2" "length es2 \<le> 1"
      "now w2 \<le> now w1 + elapsed es2 + delay"
    using sleep_time Suc.prems(1) by blast
  define k where "k = (2 ^ n - 1) * (2 * delay)"
  have split: "(2 ^ Suc n - 1) * delay = delay + k" by (simp add: k_def algebra_simps)
  have pos: "0 \<le> k" using Suc.prems(1) by (simp add: k_def)
  consider (stop) "w' = w1" | (cancel) "w' = w2" | (more) "finish_attempts a (2 * delay) n w2 = (r, w')"
    using Suc.prems(2) q c by (auto split: sum.splits if_splits)
  then show ?case
  proof cases
    case stop
    with es1 pos Suc.prems(1) show ?thesis unfolding split by (intro exI [of _ es1]) simp
  next
    case cancel
    with es1 es2 pos show ?thesis
      unfolding split by (intro exI [of _ "es1 @ es2"]) (simp add: elapsed_append)
  next
    case more
    with Suc.IH [of "2 * delay" w2] Suc.prems(1)
    obtain es3 where "script w2 = es3 @ script w'" "length es3 \<le> 2 * n + 1"
        "now w' \<le> now w2 + elapsed es3 + k" by (auto simp: k_def)
    with es1 es2 show ?thesis
      unfolding split by (intro exI [of _ "es1 @ es2 @ es3"]) (simp add: elapsed_append)
  qed
qed

subsection \<open>What a message does to its row\<close>

text \<open>The row \<open>r\<close> of a table is replaced and every other row is kept.\<close>

definition replaces :: "execution \<Rightarrow> execution \<Rightarrow> db \<Rightarrow> db \<Rightarrow> bool" where
  "replaces r r' d d' \<longleftrightarrow> d' = d\<lparr>executions := map (\<lambda>s. if s = r then r' else s) (executions d)\<rparr>"

lemma update_one:
  assumes "distinct (map k rs)" and "r \<in> set rs" and "p r"
    and "\<And>s. p s \<Longrightarrow> k s = k r"
  shows "update_where p f rs = map (\<lambda>s. if s = r then f r else s) rs"
proof -
  have "s = r" if "s \<in> set rs" "p s" for s
    by (rule distinct_map_eq [OF assms(1) that(1) assms(2) assms(4) [OF that(2)]])
  with assms(3) have "\<forall>s\<in>set rs. (if p s then f s else s) = (if s = r then f r else s)" by metis
  then show ?thesis unfolding update_where_def by simp
qed

lemma replaces_in: "replaces r r' d d' \<Longrightarrow> r \<in> set (executions d) \<Longrightarrow> r' \<in> set (executions d')"
  by (force simp: replaces_def)

lemma replaces_refl: "replaces r r d d"
  by (simp add: replaces_def map_idI)

lemma replaces_ids:
  "replaces r r' d d' \<Longrightarrow> e_id r' = e_id r \<Longrightarrow> map e_id (executions d') = map e_id (executions d)"
  by (auto simp: replaces_def)

lemma replaces_trans:
  assumes "replaces r r' d d'" and "replaces r' r'' d' d''"
    and "distinct (map e_id (executions d))" and "r \<in> set (executions d)" and "e_id r' = e_id r"
  shows "replaces r r'' d d''"
proof -
  have "s \<noteq> r'" if "s \<in> set (executions d)" "s \<noteq> r" for s
    using that assms(3-5) distinct_map_eq by metis
  then have "map (\<lambda>s. if (if s = r then r' else s) = r' then r'' else if s = r then r' else s) (executions d)
      = map (\<lambda>s. if s = r then r'' else s) (executions d)"
    by (intro map_cong refl) simp
  then show ?thesis using assms(1,2) by (simp add: replaces_def o_def)
qed

text \<open>\<open>r\<close> is the only row of its id.\<close>

definition sole_row :: "execution \<Rightarrow> db \<Rightarrow> bool" where
  "sole_row r d \<longleftrightarrow> distinct (map e_id (executions d)) \<and> r \<in> set (executions d)"

lemma sole_row_replaces: "sole_row r d \<Longrightarrow> replaces r r' d d' \<Longrightarrow> e_id r' = e_id r \<Longrightarrow> sole_row r' d'"
  by (simp add: sole_row_def replaces_in replaces_ids)

lemma replaces_update:
  assumes "sole_row r d" "p r" "\<And>s. p s \<Longrightarrow> e_id s = e_id r"
  shows "replaces r (f r) d (upd_executions p f d)"
proof -
  have "update_where p f (executions d) = map (\<lambda>s. if s = r then f r else s) (executions d)"
    using assms(1) by (intro update_one [where k = e_id and p = p and r = r, OF _ _ assms(2,3)])
      (simp_all add: sole_row_def)
  then show ?thesis by (simp only: replaces_def)
qed

lemma claim_replaces:
  assumes "sole_row r d" and "e_status r = ''queued''"
  shows "fst (MarkExecutionRunning (Some (e_id r)) t u d) = Inr (claimed_of r)"
    and "replaces r (set_status ''running'' t r) d (snd (MarkExecutionRunning (Some (e_id r)) t u d))"
proof -
  have f: "find (\<lambda>s. Some (e_id s) = Some (e_id r) \<and> e_status s = ''queued'') (executions d) = Some r"
    using assms by (intro find_unique [of e_id]) (auto simp: sole_row_def)
  show "fst (MarkExecutionRunning (Some (e_id r)) t u d) = Inr (claimed_of r)"
    unfolding MarkExecutionRunning_def Let_def f by simp
  show "replaces r (set_status ''running'' t r) d (snd (MarkExecutionRunning (Some (e_id r)) t u d))"
    unfolding MarkExecutionRunning_def Let_def f using assms by (auto intro!: replaces_update)
qed

lemma requeue_replaces:
  "sole_row r d \<Longrightarrow> e_status r = ''running'' \<Longrightarrow>
   replaces r (set_status ''queued'' t r) d (snd (RequeueExecution (Some (e_id r)) t u d))"
  unfolding RequeueExecution_def Let_def snd_conv by (intro replaces_update) auto

lemma finish_replaces:
  assumes "sole_row r d" and "e_status r = ''running''" and "fp_id a = Some (e_id r)"
  shows "snd (FinishExecution a t u d) = d \<and> fst (FinishExecution a t u d) \<noteq> nil_err
   \<or> replaces r (finish_row a t r) d (snd (FinishExecution a t u d))"
proof -
  have "replaces r (finish_row a t r) d (upd_executions 
      (\<lambda>s. Some (e_id s) = fp_id a \<and> e_status s = ''running'') (finish_row a t) d)"
    by (rule replaces_update) (use assms in auto)
  then show ?thesis unfolding FinishExecution_def Let_def by (simp split del: if_split split: if_split)
qed

lemma same_request_rows [simp]:
  "same_request r (set_status st t r)" "same_request r (finish_row a t r)" "same_request r r"
  by (simp_all add: same_request_def set_status_def finish_row_def)

lemma finish_effect:
  assumes "final_status (fp_status a)" and "obeys (=) w" and "sole_row r (db w)"
    and "e_status r = ''running''" and "fp_id a = Some (e_id r)" and "finish a w = (q, w')"
  shows "\<exists>r'. replaces r r' (db w) (db w')
    \<and> (r' = r \<and> q \<noteq> nil_err \<or> (\<exists>t. r' = finish_row a t r))"
proof -
  from finish_attempts_once [OF assms(1,2) assms(6) [unfolded finish_def], of "db w"]
  consider "db w' = db w" "q \<noteq> nil_err" | t where "db w' = snd (FinishExecution a t 0 (db w))" by blast
  then show ?thesis
  proof cases
    case 1
    then show ?thesis using replaces_refl by metis
  next
    case (2 t)
    show ?thesis
    proof (cases "storable a")
      case True
      then have "fst (FinishExecution a t 0 (db w)) = nil_err"
        using assms(1) unfolding storable_def by (intro FinishExecution_ok)
      with finish_replaces [OF assms(3-5), of t 0] 2 show ?thesis by metis
    next
      case False
      then have "q \<noteq> nil_err"
        using assms(6) finish_attempts_storable unfolding finish_def by blast
      with 2 False show ?thesis by (metis FinishExecution_unstorable replaces_refl snd_conv)
    qed
  qed
qed

text \<open>What is left of the row when the handler ends.\<close>

definition failed_params :: "claimed \<Rightarrow> err \<Rightarrow> finish_params" where
  "failed_params c e = \<lparr>fp_id = c_id c, fp_status = ''failed'', fp_stdout = [],
     fp_stderr = ''runner error: '' @ err_text e, fp_exit_code = None\<rparr>"

lemma failed_params_simps [simp]:
  "fp_id (failed_params c e) = c_id c" "fp_status (failed_params c e) = ''failed''"
  by (simp_all add: failed_params_def)

lemma alone_hook: "obeys (=) w \<Longrightarrow> db (deliverWebhook x (wire x i rt sc ap) msg c s ec n w) = db w"
  using solo.deliverWebhook_safe [of "db w" w] by (simp add: safe_def)

lemma finish_alone: "obeys (=) w \<Longrightarrow> finish a w = (q, w') \<Longrightarrow> obeys (=) w'"
proof -
  have "obeys (=) w \<Longrightarrow> finish_attempts a delay n w = (q, w') \<Longrightarrow> obeys (=) w'" for delay n
  proof (induction n arbitrary: delay w)
    case 0
    then show ?case using db_call_alone(1) by auto
  next
    case (Suc n)
    obtain q1 w1 where q: "db_call (FinishExecution a) w = (q1, w1)" by (metis prod.exhaust)
    obtain c w2 where c: "sleep delay w1 = (c, w2)" by (metis prod.exhaust)
    note w1 = db_call_alone(1) [OF Suc.prems(1) q]
    with sleep_alone [OF w1 c] Suc q c show ?case by (auto split: sum.splits if_splits)
  qed
  then show "obeys (=) w \<Longrightarrow> finish a w = (q, w') \<Longrightarrow> obeys (=) w'" by (simp add: finish_def)
qed

lemma run_failed_effect:
  assumes "obeys (=) w" and "sole_row r (db w)" and "e_status r = ''running''"
    and "c_id c = Some (e_id r)"
    and "run_failed x (wire x i rt sc ap) msg c n e w = (q, w')"
  shows "\<exists>r'. replaces r r' (db w) (db w') \<and>
    (if not_started e then q = Inl e \<and> (r' = r \<or> (\<exists>t. r' = set_status ''queued'' t r))
     else q = nil_err \<and> (r' = r \<or> (\<exists>t. r' = finish_row (failed_params c e) t r)))"
proof (cases "not_started e")
  case True
  obtain k w1 where k: "db_call (RequeueExecution (c_id c)) w = (k, w1)" by (metis prod.exhaust)
  with True assms(5) have q: "q = Inl e" "w' = w1" by (simp_all add: run_failed_def)
  from db_call_alone(2) [OF assms(1) k] obtain t u
    where "db w1 = db w \<or> db w1 = snd (RequeueExecution (Some (e_id r)) t u (db w))"
    using assms(4) by auto
  with True q requeue_replaces [OF assms(2,3)] show ?thesis by (metis replaces_refl)
next
  case False
  obtain k w1 where k: "finish (failed_params c e) w = (k, w1)" by (metis prod.exhaust)
  with False assms(5) have q: "q = nil_err"
      "w' = deliverWebhook x (wire x i rt sc ap) msg c ''failed'' None (now w1 - n) w1"
    by (simp_all add: run_failed_def failed_params_def)
  have "db w' = db w1" using q(2) finish_alone [OF assms(1) k] by (simp add: alone_hook)
  with False q finish_effect [OF _ assms(1-3) _ k] assms(4) show ?thesis by simp metis
qed

lemma run_finished_effect:
  assumes "obeys (=) w" and "sole_row r (db w)" and "e_status r = ''running''"
    and "c_id c = Some (e_id r)"
    and "run_finished x (wire x i rt sc ap) msg c n res w = (q, w')"
  shows "\<exists>r'. replaces r r' (db w) (db w')
    \<and> (r' = r \<and> q \<noteq> nil_err \<or> (\<exists>t. r' = finish_row (result_params c res) t r))"
proof -
  obtain k w1 where k: "finish (result_params c res) w = (k, w1)" by (metis prod.exhaust)
  have w1: "obeys (=) w1" by (rule finish_alone [OF assms(1) k])
  obtain status exit_code stderr where cl: "classify res = (status, exit_code, stderr)"
    by (metis prod.exhaust)
  have q: "q = k \<and> db w' = db w1"
  proof (cases k)
    case (Inl e)
    with assms(5) k cl show ?thesis by (simp add: run_finished_def)
  next
    case (Inr v)
    define m where "m = \<lparr>rm_execution_id = sm_execution_id msg, rm_tenant_id = sm_tenant_id msg,
      rm_status = status, rm_exit_code = exit_code\<rparr>"
    obtain p w2 where p: "PublishResult m w1 = (p, w2)" by (metis prod.exhaust)
    then have w2: "obeys (=) w2 \<and> db w2 = db w1"
      using alone.js_publish_keeps [of "db w1" w1] w1 by (simp add: PublishResult_def safe_def keeps_def)
        (metis snd_conv)
    with assms(5) k cl Inr p have "q = nil_err"
        "w' = deliverWebhook x (wire x i rt sc ap) msg c status exit_code (now w2 - n) w2"
      by (simp_all add: run_finished_def m_def)
    with w2 Inr show ?thesis by (simp add: alone_hook)
  qed
  with finish_effect [OF result_params_final assms(1-3) _ k] assms(4) show ?thesis by simp
qed

text \<open>The claim of a queued row, with the row it leaves.\<close>

lemma claim_effect:
  assumes "obeys (=) w" and "sole_row r (db w)" and "e_status r = ''queued''"
    and "db_call (MarkExecutionRunning (Some (e_id r))) w = (q, w1)"
  shows "obeys (=) w1"
    and "(\<exists>e. q = Inl e \<and> e \<noteq> NoRows \<and> db w1 = db w)
      \<or> (\<exists>t. replaces r (set_status ''running'' t r) (db w) (db w1)
            \<and> (q = Inr (claimed_of r) \<or> (\<exists>e. q = Inl e \<and> e \<noteq> NoRows)))"
proof -
  show "obeys (=) w1" by (rule db_call_alone(1) [OF assms(1,4)])
  from db_call_alone(2) [OF assms(1,4)] claim_replaces [OF assms(2,3)]
  show "(\<exists>e. q = Inl e \<and> e \<noteq> NoRows \<and> db w1 = db w)
      \<or> (\<exists>t. replaces r (set_status ''running'' t r) (db w) (db w1)
            \<and> (q = Inr (claimed_of r) \<or> (\<exists>e. q = Inl e \<and> e \<noteq> NoRows)))"
    by fastforce
qed

lemma set_status_simps [simp]: "e_status (set_status st t r) = st"
  by (simp add: set_status_def)

lemma finish_row_status [simp]: "e_status (finish_row a t r) = fp_status a"
  by (simp add: finish_row_def)

lemma claimed_of_id [simp]: "c_id (claimed_of r) = Some (e_id r)"
  by (simp add: claimed_of_def)

lemma same_request_trans: "same_request a b \<Longrightarrow> same_request b c \<Longrightarrow> same_request a c"
  by (simp add: same_request_def)

text \<open>
  The outcome of one message for a queued row, when no other process interferes and the
  answers of Docker are unambiguous: either nothing was started and the row is queued or (when
  the answer of a statement was lost) running, and the message is sent back; or exactly one
  container was started and the row is not queued.
\<close>

definition outcome :: "ext \<Rightarrow> execution \<Rightarrow> execution \<Rightarrow> unit result \<Rightarrow> world \<Rightarrow> world \<Rightarrow> bool" where
  "outcome x r r' q w w' \<longleftrightarrow>
     (if started w' = started w
      then q \<noteq> nil_err \<and> e_status r' \<in> {''queued'', ''running''}
      else started w' = started w @ [container_name x (claimed_of r)]
           \<and> (e_status r' = ''running'' \<or> terminal r'))"

lemma claimed_effect:
  assumes "claimable x raw = Some (msg, e_id r)"
    and "handle x (wire x i rt sc ap) raw w = (q, w')"
    and "db_call (MarkExecutionRunning (Some (e_id r))) w = (Inr (claimed_of r), w1)"
    and "ds_runner (wire x i rt sc ap) (claimed_of r) w1 = (run, w2)"
    and "obeys (=) w2" and "sole_row (set_status ''running'' t r) (db w2)"
  shows "\<exists>r'. replaces (set_status ''running'' t r) r' (db w2) (db w')
    \<and> same_request (set_status ''running'' t r) r'
    \<and> (if aborted run then q \<noteq> nil_err \<and> e_status r' \<in> {''queued'', ''running''}
       else e_status r' = ''running'' \<or> terminal r') \<and> started w' = started w2"
proof (cases run)
  case (Inl e)
  then have f: "run_failed x (wire x i rt sc ap) msg (claimed_of r) (now w1) e w2 = (q, w')"
    using handle_claimable [OF assms(1), of "wire x i rt sc ap" w] assms(2,3,4) by simp
  from run_failed_effect [OF assms(5,6) _ _ f] solo.run_failed_started [OF f] Inl
  show ?thesis by (auto simp: terminal_def split: if_splits)
next
  case (Inr res)
  then have f: "run_finished x (wire x i rt sc ap) msg (claimed_of r) (now w1) res w2 = (q, w')"
    using handle_claimable [OF assms(1), of "wire x i rt sc ap" w] assms(2,3,4) by simp
  from run_finished_effect [OF assms(5,6) _ _ f] solo.run_finished_started [OF f] Inr
  show ?thesis using result_params_final [of "claimed_of r" res] by (auto simp: terminal_def)
qed

lemma handle_effect:
  assumes "obeys (=) w" and "clear w" and "sole_row r (db w)" and "e_status r = ''queued''"
    and "claimable x raw = Some (msg, e_id r)"
    and "handle x (wire x i rt sc ap) raw w = (q, w')"
  shows "\<exists>r'. replaces r r' (db w) (db w') \<and> same_request r r' \<and> outcome x r r' q w w'"
proof -
  obtain claim w1 where c: "db_call (MarkExecutionRunning (Some (e_id r))) w = (claim, w1)"
    by (metis prod.exhaust)
  note w1 = claim_effect [OF assms(1,3,4) c]
  have st1: "started w1 = started w" using db_call_same [OF c] by (simp add: same_io_def)
  show ?thesis
  proof (cases claim)
    case (Inl e)
    with handle_claimable [OF assms(5), of "wire x i rt sc ap" w] assms(6) c w1(2)
    have q: "q = Inl e" "w' = w1" by auto
    from w1(2) obtain r' where "replaces r r' (db w) (db w1)" "r' = r \<or> (\<exists>t. r' = set_status ''running'' t r)"
      by (metis replaces_refl)
    with q st1 assms(4) show ?thesis by (intro exI [of _ r']) (auto simp: outcome_def)
  next
    case (Inr k)
    with w1(2) obtain t where k: "k = claimed_of r"
      and rep1: "replaces r (set_status ''running'' t r) (db w) (db w1)" by auto
    let ?r1 = "set_status ''running'' t r"
    obtain run w2 where run: "ds_runner (wire x i rt sc ap) k w1 = (run, w2)" by (metis prod.exhaust)
    have w2: "obeys (=) w2" "db w2 = db w1"
      using solo.run_keeps [of "db w1" w1] w1(1) run by (simp_all add: safe_def keeps_def) (metis snd_conv)+
    have sole: "sole_row ?r1 (db w2)"
      using sole_row_replaces [OF assms(3) rep1] w2(2) by simp
    from claimed_effect [OF assms(5,6) c [unfolded Inr k] run [unfolded k] w2(1) sole]
    obtain r' where r': "replaces ?r1 r' (db w2) (db w')" "same_request ?r1 r'"
      and out: "if aborted run then q \<noteq> nil_err \<and> e_status r' \<in> {''queued'', ''running''}
         else e_status r' = ''running'' \<or> terminal r'" "started w' = started w2" by blast
    have "replaces r r' (db w) (db w')"
      using replaces_trans [OF rep1] r'(1) w2(2) assms(3) by (simp add: sole_row_def)
    moreover have "same_request r r'" using r'(2) same_request_trans same_request_rows(1) by blast
    moreover have "outcome x r r' q w w'"
      using out st1 docker.run_aborted docker.run_ran tick_clear_db [OF assms(2) c] run k
      by (cases "aborted run") (fastforce simp: outcome_def wire_def)+
    ultimately show ?thesis by blast
  qed
qed

text \<open>The summary on the wire.\<close>

definition result_message_of :: "submit_message \<Rightarrow> run_result \<Rightarrow> result_message" where
  "result_message_of msg res =
     \<lparr>rm_execution_id = sm_execution_id msg, rm_tenant_id = sm_tenant_id msg,
      rm_status = fst (classify res), rm_exit_code = fst (snd (classify res))\<rparr>"

lemma js_publish_published:
  "js_publish s p w = (q, w') \<Longrightarrow> published w' \<in> {published w, published w @ [(s, p)]}"
  by (cases "tick w") (auto simp: js_publish_def dest: tickD split: fault.splits)

lemma run_finished_published:
  assumes "run_finished x (wire x i rt sc ap) msg c n res w = (q, w')"
  shows "published w' = published w \<or> q = nil_err
    \<and> published w' = published w @ [(SubjectForResult (sm_execution_id msg), Result (result_message_of msg res))]"
proof -
  obtain k w1 where k: "finish (result_params c res) w = (k, w1)" by (metis prod.exhaust)
  then have w1: "published w1 = published w" using finish_same by (fastforce simp: same_io_def)
  obtain p w2 where p: "PublishResult (result_message_of msg res) w1 = (p, w2)" by (metis prod.exhaust)
  then have "published w2 \<in> {published w1, published w1 @
      [(SubjectForResult (sm_execution_id msg), Result (result_message_of msg res))]}"
    by (auto simp: PublishResult_def result_message_of_def dest: js_publish_published)
  with assms k p w1 show ?thesis
    by (cases "classify res"; cases k)
      (auto simp: run_finished_def result_message_of_def solo.deliverWebhook_frame)
qed

subsection \<open>Properties\<close>

lemma wire_runner [simp]: "ds_runner (wire x i rt sc ap) = Run x (NewDockerRunner i rt)"
  by (simp add: wire_def)

text \<open>
  Handling the message of a queued execution, with no other process interfering
  and no ambiguous answer from Docker, touches that row only, keeps what the submitter wrote,
  and either starts nothing, leaves the row queued (or running, when the store was unreachable)
  and asks for redelivery, or starts exactly one container named after the execution and leaves
  the row running or terminal, never queued: code that ran is never offered to a worker again.
\<close>

theorem handle_outcome:
  assumes "obeys (=) w" and "clear w" and "sole_row r (db w)" and "e_status r = ''queued''"
    and "claimable x raw = Some (msg, e_id r)"
    and "handle x (wire x img rt secret allow) raw w = (q, w')"
  shows "\<exists>r'. replaces r r' (db w) (db w') \<and> same_request r r' \<and> outcome x r r' q w w'"
  using handle_effect assms by blast

definition sample_msg :: submit_message where
  "sample_msg = \<lparr>sm_execution_id = ''1'', sm_tenant_id = ''2'', sm_language = ''python''\<rparr>"

lemma sample_claimable: "claimable sample_ext (Submit sample_msg) = Some (sample_msg, 1)"
  by (simp add: claimable_def sample_msg_def sample_ext_def ValidLanguage_def SupportedLanguages_def)

lemma sample_sole: "sole_row sample_exec sample_db" "sole_row r (sample_with r)"
  by (simp_all add: sole_row_def)

theorem handle_outcome_witness:
  "\<exists>q w' r'. handle sample_ext (wire sample_ext ''img'' ''runsc'' [] False) (Submit sample_msg) sample_world
       = (q, w') \<and> replaces sample_exec r' sample_db (db w') \<and> same_request sample_exec r'
     \<and> outcome sample_ext sample_exec r' q sample_world w'"
  using handle_outcome [of sample_world sample_exec sample_ext "Submit sample_msg" sample_msg]
  by (simp add: quiet_obeys sample_sole sample_claimable) (metis prod.collapse)


definition sample_claimed :: world where
  "sample_claimed = snd (db_call (MarkExecutionRunning (Some 1)) sample_world)"

lemma sample_claim:
  "db_call (MarkExecutionRunning (Some 1)) sample_world = (Inr (claimed_of sample_exec), sample_claimed)"
  "script sample_claimed = []" "containers sample_claimed = []"
  using claim_replaces(1) [OF sample_sole(1)]
  by (simp_all add: sample_claimed_def db_call_quiet sample_world_def)

lemma handle_sample:
  "\<exists>w'. handle sample_ext (wire sample_ext ''img'' ''runsc'' [] False) (Submit sample_msg) sample_world
     = (nil_err, w')"
proof -
  obtain w2 where run: "Run sample_ext (NewDockerRunner ''img'' ''runsc'') (claimed_of sample_exec) sample_claimed
      = (Inr zero_result, w2)" and w2: "script w2 = []"
    using Run_quiet [OF sample_claim(2) sample_lang _ sample_timeout] sample_claim by auto
  have "fst (finish (result_params (claimed_of sample_exec) zero_result) w2) = nil_err"
    unfolding finish_def using w2
    by (intro finish_attempts_survives)
      (auto simp: faults_def uncancelled_def result_params_def classify_def zero_result_def
        text_ok_def)
  then obtain w3 where "finish (result_params (claimed_of sample_exec) zero_result) w2 = (nil_err, w3)"
    by (metis prod.collapse)
  then have "fst (run_finished sample_ext (wire sample_ext ''img'' ''runsc'' [] False) sample_msg
      (claimed_of sample_exec) n zero_result w2) = nil_err" for n
    by (simp add: run_finished_def split: prod.split)
  then show ?thesis
    using handle_claimable [OF sample_claimable, of "wire sample_ext ''img'' ''runsc'' [] False" sample_world]
      sample_claim(1) run by simp (metis prod.collapse)
qed


text \<open>
  The redelivery of a message whose execution is not queued (already claimed or
  finished, or unknown) changes no table, starts and publishes nothing, and is acknowledged
  when the store answers.
\<close>

theorem handle_duplicate:
  assumes "obeys (=) w" and "claimable x raw = Some (msg, i)"
    and "\<forall>r\<in>set (executions (db w)). e_id r = i \<longrightarrow> e_status r \<noteq> ''queued''"
    and "handle x d raw w = (q, w')"
  shows "db w' = db w \<and> same_io w w' \<and> (q = nil_err \<or> faults w \<noteq> 0)"
proof -
  obtain c w1 where c: "db_call (MarkExecutionRunning (Some i)) w = (c, w1)" by (metis prod.exhaust)
  have none: "MarkExecutionRunning (Some i) t u (db w) = (Inl NoRows, db w)" for t u
    using assms(3) by (auto simp: MarkExecutionRunning_def Let_def find_None split: option.split
        dest!: find_SomeD)
  obtain e wt where t: "tick w = (e, wt)" by (metis prod.exhaust)
  have "db w1 = db w \<and> (c = Inl NoRows \<or> (\<exists>e. c = Inl e \<and> faults w \<noteq> 0))"
    using c t alone_tick [OF assms(1) t] none tick_faults(1) [OF t]
    by (auto simp: db_call_def split: fault.splits)
  with handle_claimable [OF assms(2), of d w] assms(4) c db_call_same [OF c] show ?thesis
    by (auto split: if_splits)
qed

theorem handle_duplicate_witness:
  "db (snd (handle sample_ext (wire sample_ext ''img'' ''runsc'' [] False) (Submit sample_msg)
      (sample_world\<lparr>db := sample_with sample_done\<rparr>))) = sample_with sample_done"
  using handle_duplicate [of "sample_world\<lparr>db := sample_with sample_done\<rparr>" sample_ext "Submit sample_msg"
      sample_msg 1, OF _ _ _ prod.collapse [symmetric]]
  by (simp add: quiet_obeys sample_claimable sample_done_def)

text \<open>
  Persisting a result writes the row at most once however many of the three
  attempts took effect, and success means that it was written.
\<close>

theorem finish_once:
  assumes "final_status (fp_status a)" and "obeys (=) w" and "finish a w = (q, w')"
  shows "db w' = db w \<and> q \<noteq> nil_err \<or> (\<exists>t. db w' = snd (FinishExecution a t 0 (db w)))"
  using finish_attempts_once [OF assms(1,2) assms(3) [unfolded finish_def], of "db w"] by simp

definition sample_finish :: finish_params where
  "sample_finish = \<lparr>fp_id = Some 1, fp_status = ''succeeded'', fp_stdout = ''1'', fp_stderr = [],
     fp_exit_code = Some 0\<rparr>"

definition flaky :: "fault list \<Rightarrow> world" where
  "flaky fs = sample_world\<lparr>script := map (\<lambda>f. quiet\<lparr>ev_fault := f\<rparr>) fs\<rparr>"

theorem finish_once_witness:
  "\<exists>q w'. finish sample_finish (flaky [Ambiguous, Done, Lost]) = (q, w') \<and>
     (db w' = sample_db \<and> q \<noteq> nil_err \<or> (\<exists>t. db w' = snd (FinishExecution sample_finish t 0 sample_db)))"
  using finish_once [of sample_finish "flaky [Ambiguous, Done, Lost]", OF _ _ prod.collapse [symmetric]]
  by (simp add: sample_finish_def flaky_def obeys_def) (metis prod.collapse)

text \<open>
  Persisting a storable result succeeds whenever at most two calls fail and the
  context is not cancelled, whatever the other processes do meanwhile.
\<close>

theorem finish_survives_two_faults:
  assumes "final_status (fp_status a)" and "storable a" and "uncancelled w" and "faults w \<le> 2"
  shows "fst (finish a w) = nil_err"
  using finish_attempts_survives [OF assms(1) assms(2) [unfolded storable_def] assms(3)] assms(4)
  by (simp add: finish_def finishAttempts_def)

theorem finish_survives_two_faults_witness:
  "fst (finish sample_finish (flaky [Ambiguous, Done, Lost])) = nil_err"
  by (rule finish_survives_two_faults)
    (simp_all add: sample_finish_def flaky_def storable_def text_ok_def uncancelled_def faults_def)

text \<open>
  Property C32: persisting a result makes at most three statements and two waits, and waits at
  most 300 ms beyond what the calls themselves take.
\<close>

theorem finish_bounded:
  assumes "finish a w = (q, w')"
  shows "\<exists>es. script w = es @ script w' \<and> length es \<le> 5 \<and> now w' \<le> now w + elapsed es + 300 * 1000000"
  using finish_attempts_time [of finishBackoff a 2 w q w'] assms
  by (simp add: finish_def finishAttempts_def finishBackoff_def)

theorem finish_bounded_witness:
  "\<exists>es. script (flaky [Lost, Done, Lost, Done, Lost, Done])
      = es @ script (snd (finish sample_finish (flaky [Lost, Done, Lost, Done, Lost, Done]))) \<and> length es \<le> 5"
  using finish_bounded [of sample_finish "flaky [Lost, Done, Lost, Done, Lost, Done]",
      OF prod.collapse [symmetric]]
  by blast

text \<open>
  When the output of a finished run is not valid text for Postgres (a NUL byte, or
  a multi-byte character cut by the 64 KiB limit), the handler never acknowledges, publishes
  nothing, and the result is lost: no attempt stores it.
\<close>

theorem unstorable_output_lost:
  assumes "\<not> text_ok (rr_stdout res)"
    and "run_finished x (wire x img rt secret allow) msg c n res w = (q, w')"
  shows "q \<noteq> nil_err \<and> published w' = published w \<and> posts w' = posts w"
proof -
  have ns: "\<not> storable (result_params c res)"
    using assms(1) by (cases "classify res") (simp add: storable_def result_params_def)
  obtain k w1 where k: "finish (result_params c res) w = (k, w1)" by (metis prod.exhaust)
  then have "k \<noteq> nil_err" using ns finish_attempts_storable unfolding finish_def by blast
  with k assms(2) finish_same [OF k] show ?thesis
    by (cases "classify res"; cases k) (auto simp: run_finished_def same_io_def)
qed

theorem unstorable_output_lost_witness:
  "fst (run_finished sample_ext (wire sample_ext ''img'' ''runsc'' [] False) sample_msg
      (claimed_of sample_exec) 0 (zero_result\<lparr>rr_stdout := [CHR 0x00]\<rparr>) sample_world) \<noteq> nil_err"
  using unstorable_output_lost [of "zero_result\<lparr>rr_stdout := [CHR 0x00]\<rparr>", OF _ prod.collapse [symmetric]]
  by (simp add: text_ok_def)

text \<open>
  A result that arrives after the reaper failed its row is dropped without an
  error, so the handler publishes a status that the row does not have.
\<close>

theorem late_result_contradicts_row:
  assumes "script w = []" and "sole_row r (db w)" and "terminal r" and "e_id r = i" and "c_id c = Some i"
    and "storable (result_params c res)" and "e_status r \<noteq> fst (classify res)"
  shows "\<exists>w'. run_finished x (wire x img rt [] allow) msg c n res w = (nil_err, w')
    \<and> r \<in> set (executions (db w'))
    \<and> published w' = published w @
        [(SubjectForResult (sm_execution_id msg), Result (result_message_of msg res))]"
proof -
  let ?a = "result_params c res"
  have fin: "finish ?a w = (nil_err, w\<lparr>db := snd (FinishExecution ?a (now w) 0 (db w))\<rparr>)"
    using assms(1,6) FinishExecution_ok [OF result_params_final]
    by (simp add: finish_def finishAttempts_def numeral_2_eq_2 db_call_quiet storable_def)
  have "r \<in> set (executions (snd (FinishExecution ?a (now w) 0 (db w))))"
    using assms(2,3) by (auto simp: FinishExecution_def Let_def sole_row_def terminal_def in_update_where
        intro!: bexI [of _ r])
  with fin assms(1) show ?thesis
    by (cases "classify res") (simp add: run_finished_def PublishResult_def js_publish_def
        deliverWebhook_def wire_def result_message_of_def)
qed

theorem late_result_contradicts_row_witness:
  "\<exists>w'. run_finished sample_ext (wire sample_ext ''img'' ''runsc'' [] False) sample_msg
      (claimed_of sample_exec) 0 zero_result
      (sample_world\<lparr>db := sample_with (sample_exec\<lparr>e_status := ''failed''\<rparr>)\<rparr>) = (nil_err, w')
    \<and> sample_exec\<lparr>e_status := ''failed''\<rparr> \<in> set (executions (db w'))"
  using late_result_contradicts_row
    [of "sample_world\<lparr>db := sample_with (sample_exec\<lparr>e_status := ''failed''\<rparr>)\<rparr>"
      "sample_exec\<lparr>e_status := ''failed''\<rparr>" 1 "claimed_of sample_exec" zero_result sample_ext
      "''img''" "''runsc''" False sample_msg 0]
  by (auto simp: sample_sole terminal_def storable_def result_params_def classify_def zero_result_def text_ok_def)

text \<open>
  A dispatcher that works through any sequence of messages and pull errors, with
  any failures of its calls and any statements of other processes in between, leaves tables
  that are reached by the program's guarded statements alone: the invariant is kept, finished
  executions and submitted requests are untouched.
\<close>

theorem worker_guarantee:
  assumes "obeys db_path w" and "db_ok (db w)"
    and "worker x (wire x img rt secret allow) ps w = (acks, w')"
  shows "db_path (db w) (db w') \<and> db_ok (db w') \<and> db_le (db w) (db w')"
proof -
  have "safe db_path (db w) w'"
    using live.worker_keeps [OF path.safe_start [OF assms(1)], of x img rt secret allow ps] assms(3)
    by (simp add: keeps_def)
  with assms(2) show ?thesis by (auto simp: safe_def dest: db_path_ok db_path_le)
qed

theorem worker_guarantee_witness:
  "db_ok (db (snd (worker sample_ext (wire sample_ext ''img'' ''runsc'' [] False)
      [Msg (Submit sample_msg), PullError, Msg (Garbage ''x''), Closed] sample_world)))"
  using worker_guarantee [of sample_world, OF _ _ prod.collapse [symmetric]] quiet_obeys(1) sample_db_ok
  by (metis sample_world_sel(1,2))

end
