(* ===== verification/Lifecycle.thy ===== *)
theory Lifecycle
  imports Dispatch_Effect
begin

section \<open>Many workers: the system as a state machine\<close>

text \<open>
  The tables, the program counters of the dispatcher's workers (over all dispatcher processes)
  and the list of container starts, with one rule for every statement and every start, lost
  answer and crash. The code of \<open>handle\<close> refines this machine, and in the machine no
  execution is started twice.
\<close>

datatype pc = Idle | Claimed uuid | Ran uuid

record system =
  sdb :: db
  pcs :: "nat \<Rightarrow> pc"
  starts :: "(nat \<times> uuid) list"

text \<open>The label is the worker that takes the step, \<open>None\<close> for the gateway and the reaper.\<close>

inductive sys_step :: "nat option \<Rightarrow> system \<Rightarrow> system \<Rightarrow> bool" where
  claim: "pcs s k = Idle \<Longrightarrow> MarkExecutionRunning (Some i) t u (sdb s) = (Inr c, d') \<Longrightarrow>
    sys_step (Some k) s (s\<lparr>sdb := d', pcs := (pcs s)(k := Claimed i)\<rparr>)"
| claim_lost: "pcs s k = Idle \<Longrightarrow> sys_step (Some k) s (s\<lparr>sdb := snd (MarkExecutionRunning (Some i) t u (sdb s))\<rparr>)"
| start: "pcs s k = Claimed i \<Longrightarrow>
    sys_step (Some k) s (s\<lparr>pcs := (pcs s)(k := Ran i), starts := starts s @ [(k, i)]\<rparr>)"
| requeue: "pcs s k = Claimed i \<Longrightarrow>
    sys_step (Some k) s (s\<lparr>sdb := snd (RequeueExecution (Some i) t u (sdb s)), pcs := (pcs s)(k := Idle)\<rparr>)"
| finish: "pcs s k = Ran i \<Longrightarrow> fp_id a = Some i \<Longrightarrow> final_status (fp_status a) \<Longrightarrow>
    sys_step (Some k) s (s\<lparr>sdb := snd (FinishExecution a t u (sdb s))\<rparr>)"
| leave: "sys_step (Some k) s (s\<lparr>pcs := (pcs s)(k := Idle)\<rparr>)"
| submit: "sys_step None s (s\<lparr>sdb := snd (CreateExecution p t u (sdb s))\<rparr>)"
| set_failed: "sys_step None s (s\<lparr>sdb := snd (SetExecutionFailed i msg t u (sdb s))\<rparr>)"
| reap: "sys_step None s (s\<lparr>sdb := snd (ReapStaleExecutions msg secs t u (sdb s))\<rparr>)"
| reap_queued: "sys_step None s (s\<lparr>sdb := snd (MarkStaleQueuedFailed msg j t u (sdb s))\<rparr>)"
| identity: "executions d' = executions (sdb s) \<Longrightarrow> sys_step None s (s\<lparr>sdb := d'\<rparr>)"

definition any_step :: "system \<Rightarrow> system \<Rightarrow> bool" where
  "any_step s s' \<longleftrightarrow> (\<exists>l. sys_step l s s')"

definition init_sys :: "db \<Rightarrow> system" where
  "init_sys d = \<lparr>sdb = d, pcs = (\<lambda>_. Idle), starts = []\<rparr>"

subsection \<open>At most one start\<close>

definition unqueued :: "uuid \<Rightarrow> db \<Rightarrow> bool" where
  "unqueued i d \<longleftrightarrow> (\<exists>r\<in>set (executions d). e_id r = i \<and> e_status r \<noteq> ''queued'')"

definition sys_inv :: "system \<Rightarrow> bool" where
  "sys_inv s \<longleftrightarrow>
     distinct (map e_id (executions (sdb s)))
     \<and> (\<forall>k i. pcs s k = Claimed i \<longrightarrow> unqueued i (sdb s) \<and> i \<notin> snd ` set (starts s))
     \<and> (\<forall>k k' i. pcs s k = Claimed i \<longrightarrow> pcs s k' = Claimed i \<longrightarrow> k = k')
     \<and> (\<forall>i\<in>snd ` set (starts s). unqueued i (sdb s))
     \<and> distinct (map snd (starts s))"

text \<open>A statement that puts no row back into the queue, and one that only puts back \<open>i\<close>.\<close>

lemma unqueued_update:
  assumes "unqueued j d" and "\<And>r. e_id (f r) = e_id r"
    and "\<And>r. p r \<Longrightarrow> e_id r = j \<Longrightarrow> e_status r \<noteq> ''queued'' \<Longrightarrow> e_status (f r) \<noteq> ''queued''"
  shows "unqueued j (upd_executions p f d)"
proof -
  from assms(1) obtain r where "r \<in> set (executions d)" "e_id r = j" "e_status r \<noteq> ''queued''"
    by (auto simp: unqueued_def)
  then show ?thesis
    using assms(2,3) unfolding unqueued_def
    by (intro bexI [of _ "if p r then f r else r"]) (auto simp: in_update_where)
qed

lemma set_failed_simps [simp]: "e_status (set_failed msg t r) = ''failed''"
  by (simp add: set_failed_def)

lemma unqueued_stmt:
  assumes "unqueued j d"
  shows "unqueued j (snd (MarkExecutionRunning i t u d))"
    "unqueued j (snd (CreateExecution p t u d))" "unqueued j (snd (SetExecutionFailed i msg t u d))"
    "unqueued j (snd (ReapStaleExecutions msg secs t u d))"
    "unqueued j (snd (MarkStaleQueuedFailed msg k t u d))"
    "final_status (fp_status a) \<Longrightarrow> unqueued j (snd (FinishExecution a t u d))"
    "i \<noteq> Some j \<Longrightarrow> unqueued j (snd (RequeueExecution i t u d))"
  using assms
  by (auto simp: MarkExecutionRunning_def SetExecutionFailed_def ReapStaleExecutions_def
      MarkStaleQueuedFailed_def FinishExecution_def RequeueExecution_def Let_def
      intro!: unqueued_update split: option.split)
    (auto simp: CreateExecution_def unqueued_def split: option.split)

lemma distinct_ids_stmt:
  assumes "distinct (map e_id (executions d))"
  shows "distinct (map e_id (executions (snd (MarkExecutionRunning i t u d))))"
    "distinct (map e_id (executions (snd (CreateExecution p t u d))))"
    "distinct (map e_id (executions (snd (SetExecutionFailed i msg t u d))))"
    "distinct (map e_id (executions (snd (ReapStaleExecutions msg secs t u d))))"
    "distinct (map e_id (executions (snd (MarkStaleQueuedFailed msg k t u d))))"
    "distinct (map e_id (executions (snd (FinishExecution a t u d))))"
    "distinct (map e_id (executions (snd (RequeueExecution i t u d))))"
  using assms
  by (auto simp: store_defs Let_def map_key_update_where new_execution_def split: option.split)

lemma claim_unqueued:
  assumes "MarkExecutionRunning (Some i) t u d = (Inr c, d')" and "distinct (map e_id (executions d))"
  shows "unqueued i d'" and "\<not> unqueued i d"
proof -
  obtain r where r: "r \<in> set (executions d)" "e_id r = i" "e_status r = ''queued''"
    and d': "d' = upd_executions (\<lambda>r. Some (e_id r) = Some i \<and> e_status r = ''queued'') (set_status ''running'' t) d"
    using MarkExecutionRunning_Inr [OF assms(1)] by auto
  then have "set_status ''running'' t r \<in> set (executions d')"
    by (simp add: in_update_where) (metis (mono_tags))
  with r show "unqueued i d'" unfolding unqueued_def by (intro bexI) auto
  show "\<not> unqueued i d" using r assms(2) distinct_map_eq by (fastforce simp: unqueued_def)
qed

text \<open>The invariant, rule by rule: first the steps that only change the tables.\<close>

lemma sys_inv_db:
  assumes "sys_inv s" and "distinct (map e_id (executions d'))" and "\<And>j. unqueued j (sdb s) \<Longrightarrow> unqueued j d'"
  shows "sys_inv (s\<lparr>sdb := d'\<rparr>)"
  using assms unfolding sys_inv_def by simp

lemma sys_inv_distinct: "sys_inv s \<Longrightarrow> distinct (map e_id (executions (sdb s)))"
  by (simp add: sys_inv_def)

lemma sys_inv_claim:
  assumes inv: "sys_inv s" and m: "MarkExecutionRunning (Some i) t u (sdb s) = (Inr c, d')"
  shows "sys_inv (s\<lparr>sdb := d', pcs := (pcs s)(k := Claimed i)\<rparr>)"
proof -
  note q = claim_unqueued [OF m sys_inv_distinct [OF inv]]
  have d': "d' = snd (MarkExecutionRunning (Some i) t u (sdb s))" using m by simp
  have mono: "unqueued j (sdb s) \<Longrightarrow> unqueued j d'" for j
    unfolding d' by (rule unqueued_stmt)
  have dist: "distinct (map e_id (executions d'))"
    unfolding d' by (intro distinct_ids_stmt sys_inv_distinct inv)
  have fresh: "i \<notin> snd ` set (starts s)" "pcs s k' \<noteq> Claimed i" for k'
    using inv q(2) unfolding sys_inv_def by blast+
  show ?thesis
    using inv q(1) mono dist fresh unfolding sys_inv_def by simp blast
qed

lemma sys_inv_start:
  assumes inv: "sys_inv s" and pc: "pcs s k = Claimed i"
  shows "sys_inv (s\<lparr>pcs := (pcs s)(k := Ran i), starts := starts s @ [(k, i)]\<rparr>)"
proof -
  have "unqueued i (sdb s)" "i \<notin> snd ` set (starts s)" "pcs s k' = Claimed i \<Longrightarrow> k' = k" for k'
    using inv pc unfolding sys_inv_def by blast+
  with inv show ?thesis unfolding sys_inv_def by (simp add: image_iff) blast
qed

lemma sys_inv_leave: "sys_inv s \<Longrightarrow> sys_inv (s\<lparr>pcs := (pcs s)(k := Idle)\<rparr>)"
  unfolding sys_inv_def by simp

lemma sys_inv_requeue:
  assumes inv: "sys_inv s" and pc: "pcs s k = Claimed i"
  shows "sys_inv (s\<lparr>sdb := snd (RequeueExecution (Some i) t u (sdb s)), pcs := (pcs s)(k := Idle)\<rparr>)"
proof -
  let ?d = "snd (RequeueExecution (Some i) t u (sdb s))"
  have "i \<notin> snd ` set (starts s)" "pcs s k' = Claimed i \<Longrightarrow> k' = k" for k'
    using inv pc unfolding sys_inv_def by blast+
  moreover have "unqueued j (sdb s) \<Longrightarrow> j \<noteq> i \<Longrightarrow> unqueued j ?d" for j
    by (intro unqueued_stmt) auto
  moreover have "distinct (map e_id (executions ?d))" by (intro distinct_ids_stmt sys_inv_distinct inv)
  ultimately show ?thesis using inv unfolding sys_inv_def by (auto simp: image_iff) (metis snd_conv)+
qed

lemma sys_step_inv: "sys_step l s s' \<Longrightarrow> sys_inv s \<Longrightarrow> sys_inv s'"
proof (induction rule: sys_step.induct)
  case (identity d' s)
  then show ?case by (intro sys_inv_db) (auto simp: sys_inv_def unqueued_def)
qed (auto intro!: sys_inv_db sys_inv_claim sys_inv_start sys_inv_leave sys_inv_requeue
    intro: distinct_ids_stmt sys_inv_distinct unqueued_stmt)

lemma any_steps_inv: "any_step\<^sup>*\<^sup>* s s' \<Longrightarrow> sys_inv s \<Longrightarrow> sys_inv s'"
  by (induction rule: rtranclp_induct) (auto simp: any_step_def dest: sys_step_inv)

lemma sys_inv_init: "distinct (map e_id (executions d)) \<Longrightarrow> sys_inv (init_sys d)"
  by (simp add: sys_inv_def init_sys_def)

subsection \<open>The handler refines the machine\<close>

definition others :: "nat \<Rightarrow> system \<Rightarrow> system \<Rightarrow> bool" where
  "others k s s' \<longleftrightarrow> (\<exists>l. l \<noteq> Some k \<and> sys_step l s s')"

text \<open>
  \<open>can k d d'\<close>: from every state with the tables \<open>d\<close>, steps of the gateway, the reaper and
  the other workers lead to the tables \<open>d'\<close>. What the script lets happen between the calls of
  worker \<open>k\<close> is assumed to be of this kind.
\<close>

definition can :: "nat \<Rightarrow> db \<Rightarrow> db \<Rightarrow> bool" where
  "can k d d' \<longleftrightarrow> (\<forall>s. sdb s = d \<longrightarrow> (\<exists>s'. (others k)\<^sup>*\<^sup>* s s' \<and> sdb s' = d'))"

lemma can_refl: "can k d d"
  by (auto simp: can_def)

lemma can_trans: "can k a b \<Longrightarrow> can k b c \<Longrightarrow> can k a c"
  unfolding can_def
proof (intro allI impI)
  fix s :: system
  assume "\<forall>s. sdb s = a \<longrightarrow> (\<exists>s'. (others k)\<^sup>*\<^sup>* s s' \<and> sdb s' = b)"
    and bc: "\<forall>s. sdb s = b \<longrightarrow> (\<exists>s'. (others k)\<^sup>*\<^sup>* s s' \<and> sdb s' = c)" and "sdb s = a"
  then obtain s1 where s1: "(others k)\<^sup>*\<^sup>* s s1" "sdb s1 = b" by blast
  with bc obtain s2 where s2: "(others k)\<^sup>*\<^sup>* s1 s2" "sdb s2 = c" by blast
  show "\<exists>s'. (others k)\<^sup>*\<^sup>* s s' \<and> sdb s' = c"
    using rtranclp_trans [OF s1(1) s2(1)] s2(2) by blast
qed

interpretation env: rely_guarantee "can k" for k
  by unfold_locales (auto intro: can_refl can_trans)

interpretation envd: dispatch_parts "can k" x "wire x i rt secret ap" for k x i rt secret ap
  by (simp add: wire_parts env.rely_guarantee_axioms)

definition mine :: "nat \<Rightarrow> system \<Rightarrow> uuid list" where
  "mine k s = map snd (filter (\<lambda>st. fst st = k) (starts s))"

lemma others_keep: "(others k)\<^sup>*\<^sup>* s s' \<Longrightarrow> pcs s' k = pcs s k \<and> mine k s' = mine k s \<and> any_step\<^sup>*\<^sup>* s s'"
proof (induction rule: rtranclp_induct)
  case (step b c)
  then obtain l where l: "l \<noteq> Some k" "sys_step l b c" by (auto simp: others_def)
  then have "pcs c k = pcs b k \<and> mine k c = mine k b"
    by (auto elim!: sys_step.cases simp: mine_def split: if_splits)
  moreover have "any_step b c" using l by (auto simp: any_step_def)
  ultimately show ?case using step.IH by (auto intro: rtranclp.rtrancl_into_rtrancl)
qed simp

text \<open>
  \<open>tracks s0 k p is w\<close>: the machine can go from \<open>s0\<close> to a state with the tables of \<open>w\<close>, worker
  \<open>k\<close> at \<open>p\<close> and \<open>is\<close> the executions it has started.
\<close>

definition tracks :: "system \<Rightarrow> nat \<Rightarrow> pc \<Rightarrow> uuid list \<Rightarrow> db \<Rightarrow> bool" where
  "tracks s0 k p js d \<longleftrightarrow> (\<exists>s. any_step\<^sup>*\<^sup>* s0 s \<and> sdb s = d \<and> pcs s k = p \<and> mine k s = js)"

lemma tracks_can: "tracks s0 k p js d \<Longrightarrow> can k d d' \<Longrightarrow> tracks s0 k p js d'"
  unfolding tracks_def can_def by (metis others_keep rtranclp_trans)

lemma tracks_step:
  assumes "tracks s0 k p js d"
    and "\<And>s. sdb s = d \<Longrightarrow> pcs s k = p \<Longrightarrow> sys_step (Some k) s (f s)
      \<and> sdb (f s) = d' \<and> pcs (f s) k = p' \<and> mine k (f s) = mine k s @ new"
  shows "tracks s0 k p' (js @ new) d'"
proof -
  from assms(1) obtain s where s: "any_step\<^sup>*\<^sup>* s0 s" "sdb s = d" "pcs s k = p" "mine k s = js"
    by (auto simp: tracks_def)
  have f: "sys_step (Some k) s (f s)" "sdb (f s) = d'" "pcs (f s) k = p'" "mine k (f s) = js @ new"
    using assms(2) [OF s(2,3)] s(4) by auto
  have "any_step s (f s)" using f(1) by (auto simp: any_step_def)
  with s(1) have "any_step\<^sup>*\<^sup>* s0 (f s)" by (rule rtranclp.rtrancl_into_rtrancl)
  with f show ?thesis unfolding tracks_def by blast
qed

lemma tracks_claim:
  assumes "tracks s0 k Idle js d" and "MarkExecutionRunning (Some i) t u d = (Inr c, d')"
  shows "tracks s0 k (Claimed i) js d'"
  using tracks_step [OF assms(1), of "\<lambda>s. s\<lparr>sdb := d', pcs := (pcs s)(k := Claimed i)\<rparr>" d' "Claimed i" "[]"]
    assms(2) by (auto simp: mine_def intro: sys_step.claim)

lemma tracks_claim_lost:
  assumes "tracks s0 k Idle js d"
  shows "tracks s0 k Idle js (snd (MarkExecutionRunning (Some i) t u d))"
  using tracks_step [OF assms, of "\<lambda>s. s\<lparr>sdb := snd (MarkExecutionRunning (Some i) t u (sdb s))\<rparr>" _ Idle "[]"]
  by (auto simp: mine_def intro: sys_step.claim_lost)

lemma tracks_start:
  assumes "tracks s0 k (Claimed i) js d"
  shows "tracks s0 k (Ran i) (js @ [i]) d"
  by (rule tracks_step [OF assms, of "\<lambda>s. s\<lparr>pcs := (pcs s)(k := Ran i), starts := starts s @ [(k, i)]\<rparr>"])
    (auto simp: mine_def intro: sys_step.start)

lemma tracks_requeue:
  assumes "tracks s0 k (Claimed i) js d"
  shows "tracks s0 k Idle js (snd (RequeueExecution (Some i) t u d))"
  using tracks_step [OF assms, of "\<lambda>s. s\<lparr>sdb := snd (RequeueExecution (Some i) t u (sdb s)),
      pcs := (pcs s)(k := Idle)\<rparr>" _ Idle "[]"]
  by (auto simp: mine_def intro: sys_step.requeue)

lemma tracks_finish:
  assumes "tracks s0 k (Ran i) js d" and "fp_id a = Some i" and "final_status (fp_status a)"
  shows "tracks s0 k (Ran i) js (snd (FinishExecution a t u d))"
  using tracks_step [OF assms(1), of "\<lambda>s. s\<lparr>sdb := snd (FinishExecution a t u (sdb s))\<rparr>" _ "Ran i" "[]"]
    assms(2,3) by (auto simp: mine_def intro: sys_step.finish)

lemma tracks_leave:
  assumes "tracks s0 k p js d"
  shows "tracks s0 k Idle js d"
  using tracks_step [OF assms, of "\<lambda>s. s\<lparr>pcs := (pcs s)(k := Idle)\<rparr>" d Idle "[]"]
  by (auto simp: mine_def intro: sys_step.leave)

text \<open>A call of the handler is a step of the environment, then at most the statement.\<close>

lemma tracks_call:
  assumes "obeys (can k) w" and "db_call q w = (r, w')" and "tracks s0 k p js (db w)"
    and "\<And>d t u. tracks s0 k p js d \<Longrightarrow> tracks s0 k p' js (snd (q t u d))"
    and "\<And>d. tracks s0 k p js d \<Longrightarrow> tracks s0 k p' js d"
  shows "tracks s0 k p' js (db w')"
proof -
  obtain d t u where "can k (db w) d" "db w' \<in> {d, snd (q t u d)}"
    using env.db_call_point [OF assms(1,2)] by blast
  with tracks_can [OF assms(3)] assms(4,5) show ?thesis by auto
qed

lemma sleep_env:
  assumes "obeys (can k) w" and "sleep n w = (c, w')"
  shows "can k (db w) (db w') \<and> obeys (can k) w'"
  using env.sleep_keeps [OF env.safe_start [OF assms(1)], of n] assms(2) by (simp add: keeps_def safe_def)

lemma finish_attempts_tracks:
  assumes "fp_id a = Some i" and "final_status (fp_status a)"
  shows "tracks s0 k (Ran i) js (db w) \<Longrightarrow> obeys (can k) w \<Longrightarrow> finish_attempts a delay n w = (r, w') \<Longrightarrow>
    tracks s0 k (Ran i) js (db w') \<and> obeys (can k) w'"
proof (induction n arbitrary: delay w)
  case 0
  then have f: "db_call (FinishExecution a) w = (r, w')" by simp
  from tracks_call [OF 0(2) f 0(1) tracks_finish [OF _ assms]] obeys_call [OF 0(2) f] show ?case
    by blast
next
  case (Suc n)
  obtain q w1 where q: "db_call (FinishExecution a) w = (q, w1)" by (metis prod.exhaust)
  obtain c w2 where c: "sleep delay w1 = (c, w2)" by (metis prod.exhaust)
  have w1: "tracks s0 k (Ran i) js (db w1)"
    using tracks_call [OF Suc.prems(2) q Suc.prems(1) tracks_finish [OF _ assms]] by blast
  have o1: "obeys (can k) w1" by (rule obeys_call [OF Suc.prems(2) q])
  have w2: "tracks s0 k (Ran i) js (db w2)" "obeys (can k) w2"
    using sleep_env [OF o1 c] tracks_can [OF w1] by auto
  from Suc.prems(3) q c consider "w' = w1" | "w' = w2" | "finish_attempts a (2 * delay) n w2 = (r, w')"
    by (auto split: sum.splits if_splits)
  then show ?case
    by cases (use w1 o1 w2 Suc.IH in auto)
qed

lemma hook_tracks:
  assumes "tracks s0 k p js (db w)" and "obeys (can k) w"
  shows "tracks s0 k p js (db (deliverWebhook x (wire x img rt sc ap) msg c st ec n w))"
  using envd.deliverWebhook_safe [OF env.safe_start [OF assms(2)]] tracks_can [OF assms(1)]
  by (simp add: safe_def)

lemma run_failed_tracks:
  assumes "obeys (can k) w" and "c_id c = Some i"
    and "tracks s0 k (if not_started e then Claimed i else Ran i) js (db w)"
    and "run_failed x (wire x img rt sc ap) msg c n e w = (r, w')"
  shows "tracks s0 k Idle js (db w')"
proof (cases "not_started e")
  case True
  then obtain q where q: "db_call (RequeueExecution (Some i)) w = (q, w')"
    using assms(2,4) by (auto simp: run_failed_def split: prod.splits)
  from assms(3) True have tr: "tracks s0 k (Claimed i) js (db w)" by simp
  show ?thesis by (rule tracks_call [OF assms(1) q tr]) (auto intro: tracks_requeue tracks_leave)
next
  case False
  obtain q w1 where q: "finish (failed_params c e) w = (q, w1)" by (metis prod.exhaust)
  with False assms(4) have w': "w' = deliverWebhook x (wire x img rt sc ap) msg c ''failed'' None (now w1 - n) w1"
    by (simp add: run_failed_def failed_params_def)
  have "tracks s0 k (Ran i) js (db w1) \<and> obeys (can k) w1"
    using finish_attempts_tracks [of "failed_params c e" i s0 k js w] q assms(1-3) False
    by (simp add: finish_def)
  with w' show ?thesis using hook_tracks tracks_leave by blast
qed

lemma run_finished_tracks:
  assumes "obeys (can k) w" and "c_id c = Some i" and "tracks s0 k (Ran i) js (db w)"
    and "run_finished x (wire x img rt sc ap) msg c n res w = (r, w')"
  shows "tracks s0 k Idle js (db w')"
proof -
  obtain q w1 where q: "finish (result_params c res) w = (q, w1)" by (metis prod.exhaust)
  have w1: "tracks s0 k (Ran i) js (db w1) \<and> obeys (can k) w1"
    using finish_attempts_tracks [OF _ result_params_final, of c res i s0 k js w] q assms(1-3)
    by (simp add: finish_def)
  obtain status ec se where cl: "classify res = (status, ec, se)" by (metis prod.exhaust)
  show ?thesis
  proof (cases q)
    case (Inl e)
    with assms(4) q cl w1 show ?thesis by (auto simp: run_finished_def intro: tracks_leave)
  next
    case (Inr v)
    define m where "m = \<lparr>rm_execution_id = sm_execution_id msg, rm_tenant_id = sm_tenant_id msg,
      rm_status = status, rm_exit_code = ec\<rparr>"
    obtain p w2 where p: "PublishResult m w1 = (p, w2)" by (metis prod.exhaust)
    then have w2: "can k (db w1) (db w2)" "obeys (can k) w2"
      using env.js_publish_keeps [OF env.safe_start, of k w1] w1
      by (auto simp: PublishResult_def safe_def keeps_def) (metis snd_conv)+
    from assms(4) q cl Inr p
    have "w' = deliverWebhook x (wire x img rt sc ap) msg c status ec (now w2 - n) w2"
      by (simp add: run_finished_def m_def)
    moreover have "tracks s0 k (Ran i) js (db w2)" using w1 w2(1) tracks_can by blast
    ultimately show ?thesis using hook_tracks [OF _ w2(2)] tracks_leave by simp
  qed
qed

text \<open>Claim and run: the worker is left before or after the start, as the runner reports.\<close>

lemma container_name_id: "c_id c = Some i \<Longrightarrow> container_name x c = ''runnix-exec-'' @ x_uuid_string x i"
  by (simp add: container_name_def)

lemma ran_tracks:
  assumes "obeys (can k) w" and "clear w" and "tracks s0 k Idle js (db w)"
    and "db_call (MarkExecutionRunning (Some i)) w = (Inr c, w1)"
    and "ds_runner (wire x img rt sc ap) c w1 = (run, w2)"
  shows "\<exists>new. tracks s0 k (if aborted run then Claimed i else Ran i) (js @ new) (db w2)
    \<and> obeys (can k) w2
    \<and> started w2 = started w @ map (\<lambda>i. ''runnix-exec-'' @ x_uuid_string x i) new \<and> length new \<le> 1"
proof -
  have o1: "obeys (can k) w1" by (rule obeys_call [OF assms(1,4)])
  obtain d t u where d: "can k (db w) d" "MarkExecutionRunning (Some i) t u d = (Inr c, db w1)"
    using env.db_call_point [OF assms(1,4)] by (metis prod.collapse sum.distinct(1))
  have "tracks s0 k (Claimed i) js (db w1)"
    by (rule tracks_claim [OF tracks_can [OF assms(3) d(1)] d(2)])
  moreover have "can k (db w1) (db w2)" and o2: "obeys (can k) w2"
    using envd.run_keeps [OF env.safe_start [OF o1]] assms(5) by (auto simp: safe_def keeps_def)
      (metis snd_conv)+
  ultimately have tr: "tracks s0 k (Claimed i) js (db w2)" using tracks_can by blast
  have st: "started w2 = started w @ (if aborted run then [] else [''runnix-exec-'' @ x_uuid_string x i])"
    using Run_starts [OF assms(5) [unfolded wire_runner]] tick_clear_db [OF assms(2,4)]
      container_name_id [OF claim_id [OF assms(4)]] db_call_same [OF assms(4)]
    by (auto simp: same_io_def)
  show ?thesis
    using tr tracks_start [OF tr] o2 st by (intro exI [of _ "if aborted run then [] else [i]"]) auto
qed

lemma handle_tracks:
  assumes "obeys (can k) w" and "clear w" and "tracks s0 k Idle js (db w)"
    and "handle x (wire x img rt sc ap) raw w = (r, w')"
  shows "\<exists>new. tracks s0 k Idle (js @ new) (db w')
    \<and> started w' = started w @ map (\<lambda>i. ''runnix-exec-'' @ x_uuid_string x i) new \<and> length new \<le> 1"
  using assms(4)
proof (cases rule: handle_cases)
  case poison
  with assms(3) show ?thesis by (intro exI [of _ "[]"]) simp
next
  case (unclaimed msg i e)
  have "tracks s0 k Idle js (db w')"
    by (rule tracks_call [OF assms(1) unclaimed(2) assms(3)]) (auto intro: tracks_claim_lost)
  with db_call_same [OF unclaimed(2)] show ?thesis
    by (intro exI [of _ "[]"]) (simp add: same_io_def)
next
  case (failed msg i c w1 e w2)
  from ran_tracks [OF assms(1-3) failed(2,3)] obtain new where
    new: "tracks s0 k (if not_started e then Claimed i else Ran i) (js @ new) (db w2)"
    "obeys (can k) w2" "started w2 = started w @ map (\<lambda>i. ''runnix-exec-'' @ x_uuid_string x i) new"
    "length new \<le> 1" by auto
  from run_failed_tracks [OF new(2) claim_id [OF failed(2)] new(1) failed(4)]
    solo.run_failed_started [OF failed(4)] new show ?thesis by auto
next
  case (finished msg i c w1 res w2)
  from ran_tracks [OF assms(1-3) finished(2,3)] obtain new where
    new: "tracks s0 k (Ran i) (js @ new) (db w2)"
    "obeys (can k) w2" "started w2 = started w @ map (\<lambda>i. ''runnix-exec-'' @ x_uuid_string x i) new"
    "length new \<le> 1" by auto
  from run_finished_tracks [OF new(2) claim_id [OF finished(2)] new(1) finished(4)]
    solo.run_finished_started [OF finished(4)] new show ?thesis by auto
qed

lemma starts_grow: "any_step\<^sup>*\<^sup>* s s' \<Longrightarrow> \<exists>ext. starts s' = starts s @ ext"
proof (induction rule: rtranclp_induct)
  case (step b c)
  then have "\<exists>ext. starts c = starts b @ ext"
    by (auto simp: any_step_def elim!: sys_step.cases)
  with step.IH show ?case by auto
qed simp

subsection \<open>Properties\<close>

lemma sample_claim_stmt:
  "MarkExecutionRunning (Some 1) 7 0 sample_db
     = (Inr (claimed_of sample_exec), snd (MarkExecutionRunning (Some 1) 7 0 sample_db))"
proof -
  have "fst (MarkExecutionRunning (Some 1) 7 0 sample_db) = Inr (claimed_of sample_exec)"
    using claim_replaces(1) [OF sample_sole(1), of 7 0] by (simp only: sample_exec_sel)
  then show ?thesis
    using prod.collapse [symmetric, of "MarkExecutionRunning (Some 1) 7 0 sample_db"] by (simp only: )
qed

lemma init_sys_sel: "sdb (init_sys d) = d" "pcs (init_sys d) k = Idle" "starts (init_sys d) = []"
  by (simp_all add: init_sys_def)





end
