(* ===== verification/Reaper.thy ===== *)
theory Reaper
  imports Dispatch_Effect
begin

section \<open>The reaper\<close>

text \<open>
  \<open>internal/dispatcher/reaper.go\<close>: the sweep over running and queued executions that nobody
  works on any more, its guarantee, and its exact effect in a world where every statement
  succeeds.
\<close>

subsection \<open>Operations\<close>

record reaper =
  rp_interval :: int
  rp_stale_after :: int
  rp_stale_queued_after :: int

definition reapStderr :: string where
  "reapStderr = ''reaped: dispatcher lost while running''"

definition staleQueuedStderr :: string where
  "staleQueuedStderr = ''stale_queued''"

fun fail_stale :: "uuid list \<Rightarrow> world \<Rightarrow> nat \<times> world" where
  "fail_stale [] w = (0, w)"
| "fail_stale (i # ids) w =
     (case db_call (MarkStaleQueuedFailed staleQueuedStderr i) w of (r, w1) \<Rightarrow>
        case fail_stale ids w1 of (failed, w2) \<Rightarrow>
          ((case r of Inl _ \<Rightarrow> failed | Inr n \<Rightarrow> n + failed), w2))"

definition reapStaleQueued :: "reaper \<Rightarrow> world \<Rightarrow> nat \<times> world" where
  "reapStaleQueued rp w =
     (if rp_stale_queued_after rp \<le> 0 then (0, w)
      else (case db_call (ListStaleQueuedExecutions
                  (to_int32 (go_div (rp_stale_queued_after rp) second))) w of (r, w1) \<Rightarrow>
        case r of
          Inl _ \<Rightarrow> (0, w1)
        | Inr ids \<Rightarrow> fail_stale ids w1))"

text \<open>One sweep: how many running and how many queued executions it failed.\<close>

definition reapOnce :: "reaper \<Rightarrow> world \<Rightarrow> (nat \<times> nat) \<times> world" where
  "reapOnce rp w =
     (case db_call (ReapStaleExecutions reapStderr
              (to_int32 (go_div (rp_stale_after rp) second))) w of (r, w1) \<Rightarrow>
        case r of
          Inl _ \<Rightarrow> ((0, 0), w1)
        | Inr n \<Rightarrow> (case reapStaleQueued rp w1 of (m, w2) \<Rightarrow> ((n, m), w2)))"

text \<open>
  \<open>Reaper.Run\<close> for at most \<open>n\<close> rounds of its \<open>select\<close>: the context ends, or an interval passes and
  a sweep follows.
\<close>

fun reaper_run :: "reaper \<Rightarrow> nat \<Rightarrow> world \<Rightarrow> world" where
  "reaper_run rp 0 w = w"
| "reaper_run rp (Suc n) w =
     (case sleep (rp_interval rp) w of (cancelled, w1) \<Rightarrow>
        if cancelled then w1 else reaper_run rp n (snd (reapOnce rp w1)))"

subsection \<open>Guarantee\<close>

context store_client
begin

lemma fail_stale_keeps: "safe R d0 w \<Longrightarrow> keeps (safe R d0) (fail_stale ids w)"
proof (induction ids arbitrary: w)
  case Nil
  then show ?case by (simp add: keeps_def)
next
  case (Cons i ids)
  then show ?case
    unfolding fail_stale.simps by (intro keeps_bind keeps_rules db_call_keeps Cons.IH store_rules)
qed

lemma reapOnce_keeps: "safe R d0 w \<Longrightarrow> keeps (safe R d0) (reapOnce rp w)"
  unfolding reapOnce_def reapStaleQueued_def
  by (intro keeps_bind keeps_rules db_call_keeps fail_stale_keeps store_rules)

end

subsection \<open>A sweep of the reaper\<close>

lemma reaper_texts [simp]: "text_ok reapStderr" "text_ok staleQueuedStderr"
  by (rule text_ok_ascii; simp add: reapStderr_def staleQueuedStderr_def is_ascii_def)+

definition stale_running :: "reaper \<Rightarrow> int \<Rightarrow> execution \<Rightarrow> bool" where
  "stale_running rp t r \<longleftrightarrow> e_status r = ''running''
     \<and> e_updated_at r < t - to_int32 (go_div (rp_stale_after rp) second) * second"

definition stale_queued :: "reaper \<Rightarrow> int \<Rightarrow> execution \<Rightarrow> bool" where
  "stale_queued rp t r \<longleftrightarrow> 0 < rp_stale_queued_after rp \<and> e_status r = ''queued''
     \<and> e_created_at r < t - to_int32 (go_div (rp_stale_queued_after rp) second) * second"

text \<open>What one sweep at time \<open>t\<close> makes of a row.\<close>

definition reaped :: "reaper \<Rightarrow> int \<Rightarrow> execution \<Rightarrow> execution" where
  "reaped rp t r =
     (if stale_running rp t r then set_failed reapStderr t r
      else if stale_queued rp t r then set_failed staleQueuedStderr t r else r)"

lemma fail_stale_quiet:
  assumes "script w = []"
  shows "snd (fail_stale ids w) =
    w\<lparr>db := upd_executions (\<lambda>r. e_id r \<in> set ids \<and> e_status r = ''queued'')
        (set_failed staleQueuedStderr (now w)) (db w)\<rparr>"
  using assms
proof (induction ids arbitrary: w)
  case Nil
  then show ?case by (simp add: update_where_id)
next
  case (Cons i ids)
  let ?t = "now w" and ?rs = "executions (db w)"
  let ?u = "\<lambda>r. if e_id r = i \<and> e_status r = ''queued'' then set_failed staleQueuedStderr ?t r else r"
  let ?w = "w\<lparr>db := db w\<lparr>executions := map ?u ?rs\<rparr>\<rparr>"
  have call: "db_call (MarkStaleQueuedFailed staleQueuedStderr i) w
      = (Inr (count_where (\<lambda>r. e_id r = i \<and> e_status r = ''queued'') ?rs), ?w)"
    using Cons.prems by (simp add: db_call_quiet MarkStaleQueuedFailed_def Let_def update_where_def)
  have "snd (fail_stale (i # ids) w) = snd (fail_stale ids ?w)"
    by (simp add: call split: prod.split)
  also have "\<dots> = ?w\<lparr>db := upd_executions (\<lambda>r. e_id r \<in> set ids \<and> e_status r = ''queued'')
        (set_failed staleQueuedStderr (now ?w)) (db ?w)\<rparr>"
    using Cons.prems by (intro Cons.IH) simp
  also have "\<dots> = w\<lparr>db := upd_executions (\<lambda>r. e_id r \<in> set (i # ids) \<and> e_status r = ''queued'')
        (set_failed staleQueuedStderr ?t) (db w)\<rparr>"
  proof -
    have "update_where (\<lambda>r. e_id r \<in> set ids \<and> e_status r = ''queued'')
          (set_failed staleQueuedStderr ?t) (map ?u rs)
        = update_where (\<lambda>r. e_id r \<in> set (i # ids) \<and> e_status r = ''queued'')
          (set_failed staleQueuedStderr ?t) rs" for rs
      by (induction rs) (auto simp: set_failed_def)
    then show ?thesis by simp
  qed
  finally show ?case .
qed

lemma reapStaleQueued_quiet:
  assumes "script w = []" and "distinct (map e_id (executions (db w)))"
  shows "snd (reapStaleQueued rp w) =
    w\<lparr>db := upd_executions (stale_queued rp (now w)) (set_failed staleQueuedStderr (now w)) (db w)\<rparr>"
proof (cases "rp_stale_queued_after rp \<le> 0")
  case True
  then show ?thesis by (simp add: reapStaleQueued_def stale_queued_def update_where_id)
next
  case False
  let ?q = "\<lambda>r. e_status r = ''queued''
    \<and> e_created_at r < now w - to_int32 (go_div (rp_stale_queued_after rp) second) * second"
  have "snd (reapStaleQueued rp w) = snd (fail_stale (map e_id (filter ?q (executions (db w)))) w)"
    using False assms(1)
    by (simp add: reapStaleQueued_def db_call_quiet ListStaleQueuedExecutions_def)
  also have "\<dots> = w\<lparr>db := upd_executions (stale_queued rp (now w))
      (set_failed staleQueuedStderr (now w)) (db w)\<rparr>"
  proof -
    have "e_id r \<in> set (map e_id (filter ?q (executions (db w)))) \<longleftrightarrow> ?q r"
      if "r \<in> set (executions (db w))" for r
      using that assms(2) distinct_map_eq [of e_id "executions (db w)"] by (auto simp: image_iff)
    then have "update_where (\<lambda>r. e_id r \<in> set (map e_id (filter ?q (executions (db w))))
          \<and> e_status r = ''queued'') (set_failed staleQueuedStderr (now w)) (executions (db w))
      = update_where (stale_queued rp (now w)) (set_failed staleQueuedStderr (now w)) (executions (db w))"
      unfolding update_where_def using False by (intro map_cong refl) (auto simp: stale_queued_def)
    then show ?thesis by (simp only: fail_stale_quiet [OF assms(1)])
  qed
  finally show ?thesis .
qed

lemma reapOnce_quiet_db:
  assumes "script w = []" and "distinct (map e_id (executions (db w)))"
  shows "snd (reapOnce rp w) =
    w\<lparr>db := db w\<lparr>executions := map (reaped rp (now w)) (executions (db w))\<rparr>\<rparr>"
proof -
  let ?f = "set_failed reapStderr (now w)"
  let ?w = "w\<lparr>db := upd_executions (stale_running rp (now w)) ?f (db w)\<rparr>"
  have "snd (reapOnce rp w) = snd (reapStaleQueued rp ?w)"
    using assms(1)
    by (simp add: reapOnce_def db_call_quiet ReapStaleExecutions_def Let_def stale_running_def [abs_def]
        split: prod.split)
  also have "\<dots> = ?w\<lparr>db := upd_executions (stale_queued rp (now ?w))
      (set_failed staleQueuedStderr (now ?w)) (db ?w)\<rparr>"
    using assms by (intro reapStaleQueued_quiet) (simp_all add: map_key_update_where)
  also have "\<dots> = w\<lparr>db := db w\<lparr>executions := map (reaped rp (now w)) (executions (db w))\<rparr>\<rparr>"
  proof -
    have "update_where (stale_queued rp (now w)) (set_failed staleQueuedStderr (now w))
        (update_where (stale_running rp (now w)) ?f rs) = map (reaped rp (now w)) rs" for rs
      by (induction rs) (auto simp: reaped_def stale_queued_def stale_running_def set_failed_def)
    then show ?thesis by simp
  qed
  finally show ?thesis .
qed

subsection \<open>Nothing is stranded\<close>

text \<open>Timestamps are not in the future, and a threshold in whole seconds does not exceed it.\<close>

definition settled_or_old :: "int \<Rightarrow> execution \<Rightarrow> bool" where
  "settled_or_old t r \<longleftrightarrow> terminal r
     \<or> (e_status r = ''queued'' \<or> e_status r = ''running'') \<and> e_created_at r \<le> t \<and> e_updated_at r \<le> t"

lemma reaped_settled_or_old: "settled_or_old t r \<Longrightarrow> settled_or_old t (reaped rp t' r)"
  by (auto simp: settled_or_old_def reaped_def set_failed_def terminal_def)

lemma whole_seconds:
  assumes "0 \<le> a" and "a < 2 ^ 31 * second"
  shows "to_int32 (go_div a second) * second \<le> a"
proof -
  have "go_div a second = a div second" using assms(1) by (simp add: go_div_pos)
  moreover have "0 \<le> a div second" "a div second < 2 ^ 31" using assms by auto
  ultimately have "to_int32 (go_div a second) = a div second" using to_int32_id [of "a div second"] by simp
  then show ?thesis by simp
qed

lemma reaped_terminal:
  assumes "settled_or_old t r" and "0 \<le> rp_stale_after rp" and "0 < rp_stale_queued_after rp"
    and "rp_stale_after rp < 2 ^ 31 * second" and "rp_stale_queued_after rp < 2 ^ 31 * second"
    and "t + rp_stale_after rp < t'" and "t + rp_stale_queued_after rp < t'"
  shows "terminal (reaped rp t' r)"
  using assms whole_seconds [of "rp_stale_after rp"] whole_seconds [of "rp_stale_queued_after rp"]
  by (auto simp: settled_or_old_def reaped_def stale_running_def stale_queued_def set_failed_def terminal_def)

text \<open>One round of the loop in a quiet world.\<close>

lemma reaper_round:
  assumes "script w = []" and "distinct (map e_id (executions (db w)))"
  obtains v where "reaper_run rp (Suc n) w = reaper_run rp n v" "script v = []" "now v = now w + rp_interval rp"
    "executions (db v) = map (reaped rp (now v)) (executions (db w))" "distinct (map e_id (executions (db v)))"
proof -
  let ?w = "w\<lparr>now := now w + rp_interval rp\<rparr>"
  let ?v = "?w\<lparr>db := db w\<lparr>executions := map (reaped rp (now ?w)) (executions (db w))\<rparr>\<rparr>"
  have "snd (reapOnce rp ?w) = ?v" using assms reapOnce_quiet_db [of ?w rp] by simp
  then have "reaper_run rp (Suc n) w = reaper_run rp n ?v" using assms(1) by (simp add: sleep_def)
  moreover have "e_id (reaped rp t r) = e_id r" for t r by (simp add: reaped_def set_failed_def)
  then have "map e_id (executions (db ?v)) = map e_id (executions (db w))" by (simp add: comp_def)
  then have "distinct (map e_id (executions (db ?v)))" using assms(2) by metis
  ultimately show thesis using assms(1) by (intro that [of ?v]) simp_all
qed

lemma reaper_run_settles:
  assumes "0 \<le> rp_stale_after rp" and "0 < rp_stale_queued_after rp"
    and "rp_stale_after rp < 2 ^ 31 * second" and "rp_stale_queued_after rp < 2 ^ 31 * second"
  shows "script w = [] \<Longrightarrow> distinct (map e_id (executions (db w))) \<Longrightarrow>
    list_all (settled_or_old t) (executions (db w)) \<Longrightarrow>
    t + rp_stale_after rp < now w + int (Suc n) * rp_interval rp \<Longrightarrow>
    t + rp_stale_queued_after rp < now w + int (Suc n) * rp_interval rp \<Longrightarrow>
    list_all terminal (executions (db (reaper_run rp (Suc n) w)))"
proof (induction n arbitrary: w)
  case 0
  from reaper_round [OF 0(1,2), of rp 0] obtain v where v: "reaper_run rp (Suc 0) w = v" "now v = now w + rp_interval rp"
    "executions (db v) = map (reaped rp (now v)) (executions (db w))" by (metis reaper_run.simps(1))
  with 0 reaped_terminal [OF _ assms, of t] show ?case by (simp add: list_all_iff)
next
  case (Suc n)
  from reaper_round [OF Suc.prems(1,2), of rp "Suc n"] obtain v where v: "reaper_run rp (Suc (Suc n)) w = reaper_run rp (Suc n) v"
    "script v = []" "now v = now w + rp_interval rp"
    "executions (db v) = map (reaped rp (now v)) (executions (db w))" "distinct (map e_id (executions (db v)))" by metis
  have "list_all (settled_or_old t) (executions (db v))"
    using Suc.prems(3) v(4) reaped_settled_or_old by (simp add: list_all_iff)
  from Suc.IH [OF v(2,5) this] Suc.prems(4,5) v(1,3) show ?case by (simp add: algebra_simps)
qed

subsection \<open>Properties\<close>


definition sample_reaper :: reaper where
  "sample_reaper = \<lparr>rp_interval = 30 * second, rp_stale_after = 300 * second,
     rp_stale_queued_after = 900 * second\<rparr>"


text \<open>
  Property C5: no execution is stranded. When nobody else writes any more and the calls of the reaper
  succeed, every execution is terminal after as many intervals as exceed both thresholds,
  whatever a crash or a lost message left behind. Rows do not carry timestamps of the
  future, and the thresholds are below 2^31 seconds, where their conversion would wrap.
\<close>

theorem no_execution_stranded:
  assumes "script w = []" and "db_ok (db w)"
    and "list_all (\<lambda>r. e_created_at r \<le> now w \<and> e_updated_at r \<le> now w) (executions (db w))"
    and "0 \<le> rp_stale_after rp" and "rp_stale_after rp < 2 ^ 31 * second"
    and "0 < rp_stale_queued_after rp" and "rp_stale_queued_after rp < 2 ^ 31 * second"
    and "rp_stale_after rp < int n * rp_interval rp" and "rp_stale_queued_after rp < int n * rp_interval rp"
  shows "list_all terminal (executions (db (reaper_run rp n w)))"
proof -
  obtain m where m: "n = Suc m" using assms(4,8) by (cases n) auto
  have "list_all (settled_or_old (now w)) (executions (db w))"
    using assms(2,3) by (auto simp: list_all_iff db_ok_def exec_ok_def settled_or_old_def terminal_def final_status_def
        valid_status_def)
  with assms m show ?thesis by (intro reaper_run_settles [where t = "now w" and n = m, folded m]) (auto simp: db_ok_def)
qed

theorem no_execution_stranded_witness:
  "list_all terminal (executions (db (reaper_run sample_reaper 31 sample_world)))"
  using no_execution_stranded [of sample_world sample_reaper 31]
  by (simp add: sample_db_ok sample_reaper_def) (simp add: sample_exec_def)

text \<open>
  With whatever interference and failures, the reaper only issues guarded
  statements: an execution that is terminal when it starts is untouched when it ends, and the
  invariant of the tables is kept.
\<close>

theorem reaper_guarantee:
  assumes "obeys db_path w" and "db_ok (db w)"
  shows "db_ok (db (reaper_run rp n w)) \<and> db_le (db w) (db (reaper_run rp n w))"
proof -
  have "safe db_path d0 v \<Longrightarrow> safe db_path d0 (reaper_run rp n v)" for d0 v
  proof (induction n arbitrary: v)
    case (Suc n)
    obtain c v1 where s: "sleep (rp_interval rp) v = (c, v1)" by (metis prod.exhaust)
    with path.sleep_keeps [OF Suc.prems, of "rp_interval rp"] have "safe db_path d0 v1" by (simp add: keeps_def)
    with s Suc.IH path.reapOnce_keeps [of d0 v1 rp] show ?case by (simp add: keeps_def)
  qed simp
  then have "safe db_path (db w) (reaper_run rp n w)" using path.safe_start [OF assms(1)] by blast
  with assms(2) show ?thesis by (auto dest: safe_path_ok safe_path_le)
qed

theorem reaper_guarantee_witness: "db_ok (db (reaper_run sample_reaper 3 sample_world))"
  using reaper_guarantee [of sample_world sample_reaper 3] by (simp add: quiet_obeys sample_db_ok)

text \<open>
  A StaleAfter below one second truncates to zero seconds, so that a sweep fails
  every execution that has been running for any time at all, contrary to the purpose of the
  threshold.
\<close>

theorem subsecond_threshold_reaps_all:
  assumes "script w = []" and "distinct (map e_id (executions (db w)))"
    and "0 \<le> rp_stale_after rp" and "rp_stale_after rp < second"
    and "r \<in> set (executions (db w))" and "e_status r = ''running''" and "e_updated_at r < now w"
  shows "set_failed reapStderr (now w) r \<in> set (executions (db (snd (reapOnce rp w))))"
proof -
  have "go_div (rp_stale_after rp) second = 0" using assms(3,4) by (simp add: go_div_pos)
  then have "stale_running rp (now w) r"
    using assms(6,7) by (simp add: stale_running_def to_int32_def)
  then have "reaped rp (now w) r = set_failed reapStderr (now w) r" by (simp add: reaped_def)
  with reapOnce_quiet_db [OF assms(1,2), of rp] assms(5) show ?thesis by (force simp: image_iff)
qed

theorem subsecond_threshold_reaps_all_witness:
  "\<exists>r'\<in>set (executions (db (snd (reapOnce (sample_reaper\<lparr>rp_stale_after := 500000000\<rparr>)
      (sample_world\<lparr>db := sample_with (sample_exec\<lparr>e_status := ''running'', e_updated_at := 999 * second\<rparr>)\<rparr>))))).
     e_status r' = ''failed''"
  using subsecond_threshold_reaps_all
    [of "sample_world\<lparr>db := sample_with (sample_exec\<lparr>e_status := ''running'', e_updated_at := 999 * second\<rparr>)\<rparr>"
      "sample_reaper\<lparr>rp_stale_after := 500000000\<rparr>"
      "sample_exec\<lparr>e_status := ''running'', e_updated_at := 999 * second\<rparr>"]
  by (force simp: sample_reaper_def set_failed_def)

end
