(* ===== verification/Streams.thy ===== *)
theory Streams
  imports Dispatcher
begin

section \<open>Streams and the consumer\<close>

text \<open>
  \<open>EnsureStreams\<close> of \<open>internal/nats/publish.go\<close> and \<open>consumer\<close> of \<open>internal/dispatcher/dispatcher.go\<close>:
  what both processes ask of the JetStream server. How the server matches subjects against a
  pattern is not code of the repository; the rule its documentation gives for a trailing \<open>>\<close> is
  the hypothesis \<open>nats_wildcard\<close>.
\<close>

subsection \<open>Operations\<close>

definition CreateOrUpdateStream :: "stream_config \<Rightarrow> world \<Rightarrow> unit result \<times> world" where
  "CreateOrUpdateStream s w =
     (case tick w of (e, w1) \<Rightarrow>
        case ev_fault e of
          Done \<Rightarrow> (nil_err, w1\<lparr>streams := (streams w1)(st_name s \<mapsto> s)\<rparr>)
        | Ambiguous \<Rightarrow> (Inl ConnError, w1\<lparr>streams := (streams w1)(st_name s \<mapsto> s)\<rparr>)
        | _ \<Rightarrow> (Inl ConnError, w1))"

definition stream_of :: "string \<Rightarrow> string list \<Rightarrow> stream_config" where
  "stream_of name subjects =
     \<lparr>st_name = name, st_subjects = subjects, st_retention_limits = True, st_max_msgs = 100000,
      st_file_storage = True, st_allow_direct = True\<rparr>"

fun ensure_all :: "(string \<times> string list) list \<Rightarrow> world \<Rightarrow> unit result \<times> world" where
  "ensure_all [] w = (nil_err, w)"
| "ensure_all ((name, subjects) # rest) w =
     (case CreateOrUpdateStream (stream_of name subjects) w of (r, w1) \<Rightarrow>
        case r of
          Inl e \<Rightarrow> (Inl (wrap_err (''stream '' @ name @ '': '') e), w1)
        | Inr _ \<Rightarrow> ensure_all rest w1)"

text \<open>The loop ranges over a Go map, in either order.\<close>

definition EnsureStreams :: "bool \<Rightarrow> world \<Rightarrow> unit result \<times> world" where
  "EnsureStreams swapped w =
     (let a = (StreamSubmit, [''exec.submit.>'']); b = (StreamResult, [''exec.result.>''])
      in ensure_all (if swapped then [b, a] else [a, b]) w)"

definition consumerDurable :: string where "consumerDurable = ''dispatcher''"

definition dispatcher_consumer :: consumer_config where
  "dispatcher_consumer =
     \<lparr>cc_durable = consumerDurable, cc_name = consumerDurable, cc_description = ''runnix execution dispatcher'',
      cc_filter_subject = ''exec.submit.>'', cc_deliver_all = True, cc_ack_explicit = True,
      cc_ack_wait = ackWait, cc_max_deliver = maxDeliver\<rparr>"

definition consumer :: "world \<Rightarrow> unit result \<times> world" where
  "consumer w =
     (case tick w of (e, w1) \<Rightarrow>
        let w2 = w1\<lparr>consumers := (consumers w1)((StreamSubmit, consumerDurable) \<mapsto> dispatcher_consumer)\<rparr>
        in (case ev_fault e of
              Done \<Rightarrow> (nil_err, w2)
            | Ambiguous \<Rightarrow> (Inl ConnError, w2)
            | _ \<Rightarrow> (Inl ConnError, w1)))"

subsection \<open>Effect and frame\<close>

lemma CreateOrUpdateStream_ok:
  "CreateOrUpdateStream s w = (nil_err, w') \<Longrightarrow> streams w' = (streams (snd (tick w)))(st_name s \<mapsto> s)"
  by (auto simp: CreateOrUpdateStream_def split: prod.splits fault.splits)

lemma tick_streams [simp]: "streams (snd (tick w)) = streams w" "consumers (snd (tick w)) = consumers w"
  by (simp_all add: tick_def split: list.split)

lemma stream_names_differ: "StreamSubmit \<noteq> StreamResult"
  by (simp add: StreamSubmit_def StreamResult_def)

lemma EnsureStreams_ok:
  assumes "EnsureStreams swapped w = (nil_err, w')"
  shows "streams w' = (streams w)(StreamSubmit \<mapsto> stream_of StreamSubmit [''exec.submit.>''],
      StreamResult \<mapsto> stream_of StreamResult [''exec.result.>''])"
proof -
  have two: "streams v' = (streams v)(fst a \<mapsto> stream_of (fst a) (snd a), fst b \<mapsto> stream_of (fst b) (snd b))"
    if "ensure_all [a, b] v = (nil_err, v')" for a b v v'
    using that by (cases a; cases b)
      (auto simp: stream_of_def dest!: CreateOrUpdateStream_ok split: prod.splits sum.splits)
  show ?thesis
    using assms two [of _ _ w w'] stream_names_differ
    by (auto simp: EnsureStreams_def Let_def fun_upd_twist split: if_splits)
qed

lemma CreateOrUpdateStream_same: "same_io w0 w \<Longrightarrow> keeps (same_io w0) (CreateOrUpdateStream s w)"
  by (simp add: keeps_def CreateOrUpdateStream_def same_io_def tickD split: prod.split fault.split)

lemma ensure_all_same: "same_io w0 w \<Longrightarrow> keeps (same_io w0) (ensure_all ss w)"
proof (induction ss arbitrary: w)
  case Nil
  then show ?case by (simp add: keeps_def)
next
  case (Cons a ss)
  obtain n s where a: "a = (n, s)" by (cases a)
  show ?case
    unfolding a ensure_all.simps using Cons.prems
    by (intro keeps_bind keeps_rules CreateOrUpdateStream_same Cons.IH)
qed

lemma EnsureStreams_same: "same_io w0 w \<Longrightarrow> keeps (same_io w0) (EnsureStreams swapped w)"
  by (simp add: EnsureStreams_def Let_def ensure_all_same)

lemma consumer_same: "same_io w0 w \<Longrightarrow> keeps (same_io w0) (consumer w)"
  by (simp add: keeps_def consumer_def same_io_def tickD Let_def split: prod.split fault.split)

subsection \<open>Subjects\<close>

text \<open>A subject without wildcards: dot-separated tokens, none of them empty.\<close>

definition subject_ok :: "string \<Rightarrow> bool" where
  "subject_ok s \<longleftrightarrow> s \<noteq> [] \<and> hd s \<noteq> CHR ''.'' \<and> last s \<noteq> CHR ''.''
     \<and> successively (\<lambda>a b. \<not> (a = CHR ''.'' \<and> b = CHR ''.'')) s
     \<and> CHR ''*'' \<notin> set s \<and> CHR ''>'' \<notin> set s \<and> CHR '' '' \<notin> set s"

text \<open>The server's rule for a trailing \<open>>\<close>: it stands for one or more tokens.\<close>

definition nats_wildcard :: "(string \<Rightarrow> string \<Rightarrow> bool) \<Rightarrow> bool" where
  "nats_wildcard matches \<longleftrightarrow> (\<forall>p s. subject_ok p \<longrightarrow> subject_ok s \<longrightarrow>
     matches (p @ ''.>'') s = (\<exists>t. subject_ok t \<and> s = p @ ''.'' @ t))"

lemma subject_ok_join:
  assumes "subject_ok p" and "subject_ok s"
  shows "subject_ok (p @ ''.'' @ s)"
  using assms by (cases s) (auto simp: subject_ok_def successively_append_iff successively_Cons)

lemma language_subject_ok: "ValidLanguage lang \<Longrightarrow> subject_ok lang"
  by (auto simp: ValidLanguage_def SupportedLanguages_def subject_ok_def)

lemma prefixes_ok: "subject_ok ''exec.submit''" "subject_ok ''exec.result''"
  by (simp_all add: subject_ok_def)

lemma captured:
  assumes "nats_wildcard matches" and "subject_ok s"
  shows "matches ''exec.submit.>'' (''exec.submit.'' @ s)" "matches ''exec.result.>'' (''exec.result.'' @ s)"
    "\<not> matches ''exec.submit.>'' (''exec.result.'' @ s)" "\<not> matches ''exec.result.>'' (''exec.submit.'' @ s)"
  using assms(1) prefixes_ok [THEN subject_ok_join, OF assms(2)] prefixes_ok assms(2)
  unfolding nats_wildcard_def
  by (force dest: spec [of _ "''exec.submit''"] spec [of _ "''exec.result''"])+

subsection \<open>Properties\<close>

text \<open>
  Property C18: the gateway and the dispatcher agree on the queue. Once the streams are ensured and
  the consumer is created, the subject of every submission in a supported language is captured
  by the submit stream alone and passes the consumer's filter; the subject of every result is
  captured by the result stream alone and never reaches a worker; messages must be
  acknowledged, within more than the longest run, and are delivered at most five times.
\<close>

theorem submissions_routed:
  assumes "nats_wildcard matches" and "EnsureStreams swapped w = (nil_err, w1)"
    and "streams w2 = streams w1" and "consumer w2 = (nil_err, w3)"
    and "ValidLanguage lang" and "subject_ok i"
  shows "\<exists>s r c. streams w3 StreamSubmit = Some s \<and> streams w3 StreamResult = Some r
    \<and> consumers w3 (StreamSubmit, consumerDurable) = Some c
    \<and> list_ex (\<lambda>p. matches p (SubjectForSubmit lang)) (st_subjects s) \<and> matches (cc_filter_subject c) (SubjectForSubmit lang)
    \<and> \<not> list_ex (\<lambda>p. matches p (SubjectForSubmit lang)) (st_subjects r)
    \<and> list_ex (\<lambda>p. matches p (SubjectForResult i)) (st_subjects r)
    \<and> \<not> list_ex (\<lambda>p. matches p (SubjectForResult i)) (st_subjects s) \<and> \<not> matches (cc_filter_subject c) (SubjectForResult i)
    \<and> cc_ack_explicit c \<and> 60 * second < cc_ack_wait c \<and> cc_max_deliver c = 5"
proof -
  from assms(4) have c: "consumers w3 (StreamSubmit, consumerDurable) = Some dispatcher_consumer" "streams w3 = streams w2"
    using tick_streams [of w2] by (cases "tick w2"; auto simp: consumer_def Let_def split: fault.splits)+
  note l = captured [OF assms(1) language_subject_ok [OF assms(5)]] and r = captured [OF assms(1,6)]
  from c EnsureStreams_ok [OF assms(2)] assms(3) stream_names_differ l r show ?thesis
    by (simp add: stream_of_def dispatcher_consumer_def SubjectForSubmit_def SubjectForResult_def ackWait_def maxDeliver_def)
qed

text \<open>A matcher that follows the rule on the patterns of the program.\<close>

definition sample_matches :: "string \<Rightarrow> string \<Rightarrow> bool" where
  "sample_matches p s \<longleftrightarrow> (let q = take (length p - 1) p in take (length q) s = q \<and> subject_ok (drop (length q) s))"

theorem submissions_routed_witness:
  "\<exists>c. consumers (snd (consumer (snd (EnsureStreams False sample_world)))) (StreamSubmit, consumerDurable) = Some c
     \<and> sample_matches (cc_filter_subject c) (SubjectForSubmit ''python'')
     \<and> \<not> sample_matches (cc_filter_subject c) (SubjectForResult ''1'')"
proof -
  have "nats_wildcard sample_matches"
    unfolding nats_wildcard_def sample_matches_def Let_def
    by (auto simp: append_eq_conv_conj) (metis append.assoc append_Cons append_Nil append_take_drop_id)
  moreover have "EnsureStreams False sample_world = (nil_err, snd (EnsureStreams False sample_world))"
    by (simp add: EnsureStreams_def Let_def CreateOrUpdateStream_def)
  moreover have "consumer (snd (EnsureStreams False sample_world))
      = (nil_err, snd (consumer (snd (EnsureStreams False sample_world))))"
    by (simp add: EnsureStreams_def Let_def CreateOrUpdateStream_def consumer_def)
  moreover have "ValidLanguage ''python''" "subject_ok ''1''"
    by (simp_all add: ValidLanguage_def SupportedLanguages_def subject_ok_def)
  ultimately show ?thesis using submissions_routed [OF _ _ refl] by blast
qed

end
