(* ===== verification/Redelivery.thy ===== *)
theory Redelivery
  imports Reaper Streams
begin

section \<open>Deliveries of one message\<close>

text \<open>
  What becomes of a submission whose message the JetStream server delivers again and again. The
  server is not code of the repository; what its documentation promises for a consumer with
  explicit acknowledgement and \<open>MaxDeliver\<close> is the hypothesis \<open>redelivers\<close>. The deliveries are
  handled by the worker loop of \<open>internal/dispatcher/dispatcher.go\<close>, and what is left is the
  reaper's.
\<close>

subsection \<open>The script is consumed in order\<close>

lemma later_frame [simp]:
  "later w0 (w\<lparr>containers := c\<rparr>) = later w0 w" "later w0 (w\<lparr>created := cr\<rparr>) = later w0 w"
  "later w0 (w\<lparr>started := st\<rparr>) = later w0 w" "later w0 (w\<lparr>fed := f\<rparr>) = later w0 w"
  "later w0 (w\<lparr>posts := ps\<rparr>) = later w0 w"
  by (simp_all add: later_def)

lemma select_later: "later w0 w \<Longrightarrow> keeps (later w0) (select_until t w)"
  using tick_later [of w0 w] by (cases "tick w") (simp add: select_until_def keeps_def)

lemma docker_later:
  assumes "later w0 w"
  shows "keeps (later w0) (docker_call w)" "keeps (later w0) (ContainerCreate cs n w)"
    "keeps (later w0) (ContainerRemove n w)" "keeps (later w0) (ContainerStart n w)"
    "keeps (later w0) (send_archive n tar w)"
  using tick_later [OF assms]
  by (cases "tick w"; simp add: docker_call_def ContainerCreate_def ContainerRemove_def ContainerStart_def
      send_archive_def keeps_def Let_def split: fault.split)+

lemma wait_later: "later w0 w \<Longrightarrow> keeps (later w0) (wait timeout w)"
  unfolding wait_def Let_def by (intro keeps_bind keeps_rules keeps_wait_reply select_later call_later)

lemma Run_later: "later w0 w \<Longrightarrow> keeps (later w0) (Run x r c w)"
  unfolding Run_def create_container_def run_container_def collect_def readLogs_def
  by (intro keeps_bind keeps_rules docker_later wait_later)

lemma finish_later: "later w0 w \<Longrightarrow> keeps (later w0) (finish_attempts a delay n w)"
proof (induction n arbitrary: delay w)
  case (Suc n)
  then show ?case unfolding finish_attempts.simps by (intro keeps_bind keeps_rules call_later Suc.IH)
qed (simp add: call_later)

lemma deliverOnce_later:
  assumes "later w0 w"
  shows "keeps (later w0) (deliverOnce x d u b w)"
proof -
  let ?p = "mk_post x (dl_secret d) u b (now w div second)"
  have "keeps (later w0) (http_post ?p w)"
    using select_later [OF assms, of "now w + clientTimeout"]
    by (cases "select_until (now w + clientTimeout) w") (simp add: http_post_def keeps_def)
  with assms show ?thesis
    by (cases "http_post ?p w") (simp add: deliverOnce_def keeps_def Let_def split: option.split http_reply.split)
qed

lemma deliver_attempts_later: "later w0 w \<Longrightarrow> keeps (later w0) (deliver_attempts x d u b ds w)"
proof (induction ds arbitrary: w)
  case Nil
  then show ?case
    using deliverOnce_later [OF Nil, of x d u b] by (cases "deliverOnce x d u b w") (auto simp: keeps_def)
next
  case (Cons delay ds)
  obtain retry r w1 where o: "deliverOnce x d u b w = ((retry, r), w1)" by (metis prod.exhaust)
  with deliverOnce_later [OF Cons.prems, of x d u b] have w1: "later w0 w1" by (simp add: keeps_def)
  then have "keeps (later w0) (sleep delay w1)" by (rule call_later)
  with o w1 Cons.IH show ?case
    by (cases "sleep delay w1") (simp add: keeps_def split: sum.split)
qed

lemma hook_later: "later w0 w \<Longrightarrow> later w0 (deliverWebhook x (wire x i rt sc ap) msg c s ec n w)"
proof -
  assume w: "later w0 w"
  have "keeps (later w0) (Deliver x d u e w)" for d u e
    unfolding Deliver_def using w by (intro keeps_bind keeps_rules ValidateCallbackURL_later deliver_attempts_later)
  with w show ?thesis by (simp add: deliverWebhook_def wire_def Let_def keeps_def split: option.split)
qed

lemma handle_later: "later w0 w \<Longrightarrow> keeps (later w0) (handle x (wire x i rt sc ap) raw w)"
  unfolding handle_def run_failed_def run_finished_def finish_def PublishResult_def wire_runner
  by (intro keeps_bind keeps_triple keeps_rules call_later Run_later finish_later hook_later)

subsection \<open>The server's side\<close>

text \<open>
  \<open>over c acks\<close>: the server is done with a message of consumer \<open>c\<close> when its deliveries were answered
  by \<open>acks\<close>. With explicit acknowledgement this is so after an \<open>Ack\<close>, never before one of \<open>MaxDeliver\<close>
  deliveries otherwise, and nothing is delivered afterwards.
\<close>

definition redelivers :: "(consumer_config \<Rightarrow> disposition list \<Rightarrow> bool) \<Rightarrow> bool" where
  "redelivers over \<longleftrightarrow> (\<forall>c acks. cc_ack_explicit c \<longrightarrow> over c acks \<longrightarrow>
     length acks \<le> cc_max_deliver c \<and> Ack \<notin> set (butlast acks)
     \<and> (length acks = cc_max_deliver c \<or> acks \<noteq> [] \<and> last acks = Ack))"

abbreviation nak :: disposition where "nak \<equiv> NakWithDelay nakDelay"

text \<open>One delivery: the worker answers as the handler returned.\<close>

lemma worker_Msg:
  "handle x d raw w = (q, w1) \<Longrightarrow> worker x d ps w1 = (acks, w') \<Longrightarrow>
   worker x d (Msg raw # ps) w = ((if q = nil_err then Ack else nak) # acks, w')"
  by (cases q) auto

lemma container_name_same: "same_request r r' \<Longrightarrow> container_name x (claimed_of r') = container_name x (claimed_of r)"
  by (simp add: container_name_def same_request_def)

text \<open>
  Any number of deliveries of the message of row \<open>r\<close>, when nobody else writes. A queued row stays
  queued exactly as long as every delivery is sent back.
\<close>

definition delivered :: "ext \<Rightarrow> execution \<Rightarrow> execution \<Rightarrow> disposition list \<Rightarrow> world \<Rightarrow> world \<Rightarrow> bool" where
  "delivered x r r' acks w w' \<longleftrightarrow> replaces r r' (db w) (db w') \<and> same_request r r'
     \<and> (if e_status r \<noteq> ''queued'' then r' = r \<and> started w' = started w
        else if e_status r' = ''queued'' then started w' = started w \<and> set acks \<subseteq> {nak}
        else started w' \<in> {started w, started w @ [container_name x (claimed_of r)]})"

lemma one_delivery:
  assumes "obeys (=) w" and "clear w" and "sole_row r (db w)" and "claimable x raw = Some (msg, e_id r)"
    and "handle x (wire x i rt sc ap) raw w = (q, w1)"
  obtains r1 where "delivered x r r1 [if q = nil_err then Ack else nak] w w1" "obeys (=) w1" "clear w1" "sole_row r1 (db w1)"
proof -
  have l: "later w w1" using handle_later [OF later_refl, of w x i rt sc ap raw] assms(5) by (simp add: keeps_def)
  have "\<exists>r1. delivered x r r1 [if q = nil_err then Ack else nak] w w1"
  proof (cases "e_status r = ''queued''")
    case True
    from handle_effect [OF assms(1-3) True assms(4,5)] obtain r1 where
      "replaces r r1 (db w) (db w1)" "same_request r r1" "outcome x r r1 q w w1" by blast
    with True show ?thesis
      by (intro exI [of _ r1]) (auto simp: delivered_def outcome_def terminal_def split: if_splits)
  next
    case False
    have "\<forall>s\<in>set (executions (db w)). e_id s = e_id r \<longrightarrow> e_status s \<noteq> ''queued''"
      using assms(3) False distinct_map_eq by (metis sole_row_def)
    from handle_duplicate [OF assms(1,4) this assms(5)] False show ?thesis
      by (auto simp: delivered_def same_io_def replaces_refl intro!: exI [of _ r])
  qed
  then obtain r1 where r1: "delivered x r r1 [if q = nil_err then Ack else nak] w w1" ..
  then have "sole_row r1 (db w1)"
    using sole_row_replaces [OF assms(3)] by (simp add: delivered_def same_request_def)
  with r1 l assms(1,2) that show thesis using later_obeys later_clear by blast
qed

lemma delivered_trans:
  assumes "delivered x r r1 as w w1" and "delivered x r1 r2 bs w1 w2" and "sole_row r (db w)"
  shows "delivered x r r2 (as @ bs) w w2"
proof -
  have r: "replaces r r1 (db w) (db w1)" "same_request r r1" "replaces r1 r2 (db w1) (db w2)" "same_request r1 r2"
    using assms(1,2) unfolding delivered_def by blast+
  then have "replaces r r2 (db w) (db w2)" "same_request r r2"
    using replaces_trans [OF r(1,3)] same_request_trans [OF r(2,4)] assms(3) by (simp_all add: sole_row_def same_request_def)
  moreover have "container_name x (claimed_of r1) = container_name x (claimed_of r)" by (rule container_name_same [OF r(2)])
  ultimately show ?thesis
    using assms(1,2) unfolding delivered_def
    by (cases "e_status r = ''queued''"; cases "e_status r1 = ''queued''"; cases "e_status r2 = ''queued''") simp_all
qed

lemma deliveries:
  assumes "obeys (=) w" and "clear w" and "sole_row r (db w)" and "claimable x raw = Some (msg, e_id r)"
    and "worker x (wire x i rt sc ap) (replicate n (Msg raw)) w = (acks, w')"
  shows "length acks = n \<and> (\<exists>r'. delivered x r r' acks w w')"
  using assms
proof (induction n arbitrary: r w acks w')
  case 0
  then show ?case by (auto simp: delivered_def replaces_refl intro!: exI [of _ r])
next
  case (Suc n)
  obtain q w1 where h: "handle x (wire x i rt sc ap) raw w = (q, w1)" by (metis prod.exhaust)
  obtain bs w2 where b: "worker x (wire x i rt sc ap) (replicate n (Msg raw)) w1 = (bs, w2)"
    by (metis prod.exhaust)
  from Suc.prems(5) worker_Msg [OF h b] have a: "acks = [if q = nil_err then Ack else nak] @ bs" "w' = w2" by simp_all
  obtain r1 where r1: "delivered x r r1 [if q = nil_err then Ack else nak] w w1" "obeys (=) w1" "clear w1" "sole_row r1 (db w1)"
    using one_delivery [OF Suc.prems(1-4) h] by blast
  then have "e_id r1 = e_id r" by (simp add: delivered_def same_request_def)
  with Suc.IH [OF r1(2-4) _ b] Suc.prems(4) obtain r2 where
    r2: "delivered x r1 r2 bs w1 w2" "length bs = n" by auto
  have "delivered x r r2 acks w w'" using delivered_trans [OF r1(1) r2(1) Suc.prems(3)] a by simp
  with r2(2) a(1) show ?case by auto
qed

subsection \<open>An outage of Docker\<close>

text \<open>
  The calls of a delivery during which the daemon refuses everything: the claim, the creation, the
  removal of a left-over, and the statement that puts the row back.
\<close>

definition docker_down :: "event list \<Rightarrow> bool" where
  "docker_down es \<longleftrightarrow> map ev_fault es = [Done, Lost, Lost, Done] \<and> list_all (\<lambda>e. ev_interfere e = id) es"

lemma docker_downE:
  assumes "docker_down es"
  obtains a b c d where "es = [a, b, c, d]" "ev_fault a = Done" "ev_fault b = Lost" "ev_fault c = Lost" "ev_fault d = Done"
    "ev_interfere a = id" "ev_interfere b = id" "ev_interfere c = id" "ev_interfere d = id"
  using assms by (auto simp: docker_down_def map_eq_Cons_conv)

text \<open>The row after such a delivery, and what else is as it was.\<close>

definition put_back :: "execution \<Rightarrow> execution \<Rightarrow> world \<Rightarrow> world \<Rightarrow> bool" where
  "put_back r r' w w' \<longleftrightarrow> replaces r r' (db w) (db w') \<and> same_request r r' \<and> e_status r' = ''queued''
     \<and> started w' = started w \<and> containers w' = containers w \<and> now w \<le> now w'"

lemma create_container_down:
  assumes "script w = b # c # es" and "ev_fault b = Lost" and "ev_fault c = Lost"
    and "ev_interfere b = id" and "ev_interfere c = id"
  shows "\<exists>m t. create_container cs n w = (Inl m, w\<lparr>now := t, script := es\<rparr>) \<and> now w \<le> t"
  using assms by (simp add: create_container_def ContainerCreate_def ContainerRemove_def tick_Cons Let_def)
    (intro exI conjI, rule refl, simp)

lemma db_call_Done:
  assumes "script w = e # es" and "ev_fault e = Done" and "ev_interfere e = id"
  shows "db_call q w = (let t = now w + int (ev_elapsed e) in
    (fst (q t (ev_uuid e) (db w)), w\<lparr>now := t, script := es, db := snd (q t (ev_uuid e) (db w))\<rparr>))"
  using assms by (simp add: db_call_def tick_Cons Let_def split: prod.split)

text \<open>A claim that is answered, and the row it leaves.\<close>

lemma claim_done:
  assumes "tick w = (e, v)" and "ev_fault e = Done" and "db v = db w" and "sole_row r (db w)" and "e_status r = ''queued''"
  obtains t w1 where "db_call (MarkExecutionRunning (Some (e_id r))) w = (Inr (claimed_of r), w1)" "w1 = v\<lparr>db := db w1\<rparr>"
    "replaces r (set_status ''running'' t r) (db w) (db w1)" "sole_row (set_status ''running'' t r) (db w1)"
proof -
  let ?d = "snd (MarkExecutionRunning (Some (e_id r)) (now v) (ev_uuid e) (db w))"
  note c = claim_replaces [OF assms(4,5), of "now v" "ev_uuid e"]
  have "db_call (MarkExecutionRunning (Some (e_id r))) w = (Inr (claimed_of r), v\<lparr>db := ?d\<rparr>)"
    using assms(1-3) c(1) by (simp add: db_call_def split: prod.split) (metis fst_conv snd_conv)
  with c(2) sole_row_replaces [OF assms(4) c(2)] that show thesis by simp
qed

text \<open>A run that the daemon refuses.\<close>

lemma Run_down:
  assumes "script w = b # c # es" and "ev_fault b = Lost" and "ev_fault c = Lost"
    and "ev_interfere b = id" and "ev_interfere c = id" and "ValidLanguage (c_language k)"
  obtains t where "Run x dr k w = (Inl (NotStarted ''create container''), w\<lparr>now := t, script := es\<rparr>)" "now w \<le> t"
proof -
  obtain spec where spec: "resolveLang x (c_language k) = Inr spec" using accepted_languages_run [OF assms(6)] by blast
  obtain m t where "create_container (sandbox_spec x dr spec k) (container_name x k) w = (Inl m, w\<lparr>now := t, script := es\<rparr>)"
    "now w \<le> t" using create_container_down [OF assms(1-5)] by blast
  with spec that show thesis by (simp add: Run_def Let_def)
qed

lemma refused_delivery:
  assumes "script w = es @ rest" and "docker_down es" and "sole_row r (db w)" and "e_status r = ''queued''"
    and "claimable x raw = Some (msg, e_id r)" and "ValidLanguage (e_language r)"
  obtains q w1 r1 where "handle x (wire x i rt sc ap) raw w = (q, w1)" "q \<noteq> nil_err" "script w1 = rest" "put_back r r1 w w1"
proof -
  from assms(2) obtain a b c d where es: "es = [a, b, c, d]" "ev_fault a = Done" "ev_fault b = Lost" "ev_fault c = Lost"
    "ev_fault d = Done" "ev_interfere a = id" "ev_interfere b = id" "ev_interfere c = id" "ev_interfere d = id"
    by (rule docker_downE)
  define v where "v = w\<lparr>now := now w + int (ev_elapsed a), script := b # c # d # rest\<rparr>"
  have v: "tick w = (a, v)" "db v = db w" using assms(1) es(1,6) by (simp_all add: tick_Cons v_def)
  obtain t w1 where claim: "db_call (MarkExecutionRunning (Some (e_id r))) w = (Inr (claimed_of r), w1)" "w1 = v\<lparr>db := db w1\<rparr>"
    and rep1: "replaces r (set_status ''running'' t r) (db w) (db w1)" and sole1: "sole_row (set_status ''running'' t r) (db w1)"
    by (rule claim_done [OF v(1) es(2) v(2) assms(3,4)])
  let ?r1 = "set_status ''running'' t r"
  have sc1: "script w1 = b # c # d # rest" by (subst claim(2)) (simp add: v_def)
  have lang: "ValidLanguage (c_language (claimed_of r))" using assms(6) by (simp add: claimed_of_def)
  obtain t2 where run: "Run x (NewDockerRunner i rt) (claimed_of r) w1
      = (Inl (NotStarted ''create container''), w1\<lparr>now := t2, script := d # rest\<rparr>)" (is "_ = (_, ?w2)") and t2: "now w1 \<le> t2"
    using Run_down [OF sc1 es(3,4,7,8) lang] by blast
  define t3 where "t3 = t2 + int (ev_elapsed d)"
  define w3 where "w3 = ?w2\<lparr>now := t3, script := rest,
    db := snd (RequeueExecution (Some (e_id r)) t3 (ev_uuid d) (db w1))\<rparr>"
  have req: "snd (db_call (RequeueExecution (Some (e_id r))) ?w2) = w3"
    using es(5,9) by (simp add: db_call_Done [of ?w2 d rest] Let_def t3_def w3_def)
  have "replaces ?r1 (set_status ''queued'' t3 ?r1) (db w1) (db w3)"
    using requeue_replaces [OF sole1, of t3 "ev_uuid d"] by (simp add: w3_def)
  then have "replaces r (set_status ''queued'' t3 ?r1) (db w) (db w3)"
    using replaces_trans [OF rep1] assms(3) by (simp add: sole_row_def)
  then have "put_back r (set_status ''queued'' t3 ?r1) w w3"
    using t2 arg_cong [OF claim(2), of now] arg_cong [OF claim(2), of started] arg_cong [OF claim(2), of containers]
    by (simp add: put_back_def w3_def v_def t3_def same_request_def set_status_def)
  moreover have "handle x (wire x i rt sc ap) raw w = (Inl (NotStarted ''create container''), w3)"
    using handle_claimable [OF assms(5), of "wire x i rt sc ap" w] claim(1) run req
    by (cases "db_call (RequeueExecution (Some (e_id r))) (w1\<lparr>now := t2, script := d # rest\<rparr>)") (simp add: run_failed_def)
  ultimately show thesis using that by (simp add: w3_def)
qed

text \<open>A delivery in a quiet world: the program runs to its end.\<close>

lemma finish_quiet:
  assumes "script w = []" and "final_status (fp_status a)" and "storable a"
  shows "fst (finish a w) = nil_err"
  using finish_attempts_survives [OF assms(2) assms(3) [unfolded storable_def], of w] assms(1)
  by (simp add: finish_def faults_def uncancelled_def)

lemma zero_storable: "storable (result_params c zero_result)" "fp_status (result_params c zero_result) = ''succeeded''"
  by (simp_all add: storable_def result_params_def classify_def zero_result_def text_ok_def)

lemma quiet_delivery:
  assumes "script w = []" and "sole_row r (db w)" and "e_status r = ''queued''"
    and "claimable x raw = Some (msg, e_id r)" and "ValidLanguage (e_language r)" and "0 \<le> e_timeout_s r"
    and "container_name x (claimed_of r) \<notin> set (containers w)"
  obtains w' r' where "handle x (wire x i rt sc ap) raw w = (nil_err, w')" "replaces r r' (db w) (db w')"
    "same_request r r'" "e_status r' = ''succeeded''" "started w' = started w @ [container_name x (claimed_of r)]"
proof -
  let ?c = "claimed_of r"
  let ?a = "result_params ?c zero_result"
  obtain t w1 where claim: "db_call (MarkExecutionRunning (Some (e_id r))) w = (Inr ?c, w1)"
    "w1 = w\<lparr>db := db w1\<rparr>" and rep1: "replaces r (set_status ''running'' t r) (db w) (db w1)"
    and sole1: "sole_row (set_status ''running'' t r) (db w1)"
    by (rule claim_done [OF tick_quiet [OF assms(1)] _ refl assms(2,3)]) simp_all
  let ?r1 = "set_status ''running'' t r"
  have w1: "script w1 = []" "containers w1 = containers w" "started w1 = started w"
    using assms(1) arg_cong [OF claim(2), of script] arg_cong [OF claim(2), of containers] arg_cong [OF claim(2), of started] by simp_all
  obtain spec where "resolveLang x (c_language ?c) = Inr spec"
    using accepted_languages_run [OF assms(5)] by (auto simp: claimed_of_def)
  then obtain w2 where run: "Run x (NewDockerRunner i rt) ?c w1 = (Inr zero_result, w2)"
    and w2: "script w2 = []" "db w2 = db w1" "started w2 = started w @ [container_name x ?c]"
    using Run_quiet [of w1 x ?c spec] assms(6,7) w1 by (simp add: claimed_of_def)
  obtain q w' where f: "run_finished x (wire x i rt sc ap) msg ?c (now w1) zero_result w2 = (q, w')" by (metis prod.exhaust)
  have "fst (finish ?a w2) = nil_err" using w2(1) zero_storable by (intro finish_quiet) simp_all
  with f have q: "q = nil_err"
    by (cases "finish ?a w2") (auto simp: run_finished_def split: prod.splits)
  have sole: "sole_row ?r1 (db w2)" using sole1 w2(2) by simp
  have "obeys (=) w2" using w2(1) by (rule quiet_obeys)
  from run_finished_effect [OF this sole _ _ f] q obtain t where
    "replaces ?r1 (finish_row ?a t ?r1) (db w2) (db w')" by auto
  then have "replaces r (finish_row ?a t ?r1) (db w) (db w')"
    using replaces_trans [OF rep1] w2(2) assms(2) by (simp add: sole_row_def)
  moreover have "same_request r (finish_row ?a t ?r1)" by (simp add: same_request_def finish_row_def set_status_def)
  moreover have "handle x (wire x i rt sc ap) raw w = (nil_err, w')"
    using handle_claimable [OF assms(4), of "wire x i rt sc ap" w] claim(1) run f q by simp
  ultimately show thesis
    using that zero_storable(2) solo.run_finished_started [OF f] w2(3) by simp
qed

text \<open>Any number of refused deliveries leaves the next one the same task.\<close>

lemma put_back_trans:
  assumes "put_back r r1 w w1" and "put_back r1 r2 w1 w2" and "sole_row r (db w)"
  shows "put_back r r2 w w2"
proof -
  note a = assms(1) [unfolded put_back_def] and b = assms(2) [unfolded put_back_def]
  have "replaces r r2 (db w) (db w2)"
    using replaces_trans [of r r1 "db w" "db w1" r2 "db w2"] a b assms(3) by (simp add: sole_row_def same_request_def)
  moreover have "same_request r r2" using a b same_request_trans by blast
  ultimately show ?thesis using a b by (simp add: put_back_def)
qed

lemma refused_deliveries:
  assumes "script w = concat ess @ rest" and "list_all docker_down ess" and "sole_row r (db w)"
    and "e_status r = ''queued''" and "claimable x raw = Some (msg, e_id r)" and "ValidLanguage (e_language r)"
  shows "\<exists>w1 r1. put_back r r1 w w1 \<and> script w1 = rest \<and> sole_row r1 (db w1) \<and>
    (\<forall>ps acks w'. worker x (wire x i rt sc ap) ps w1 = (acks, w') \<longrightarrow>
       worker x (wire x i rt sc ap) (replicate (length ess) (Msg raw) @ ps) w = (replicate (length ess) nak @ acks, w'))"
  using assms
proof (induction ess arbitrary: w r)
  case Nil
  then show ?case by (intro exI [of _ w] exI [of _ r]) (simp add: put_back_def replaces_refl)
next
  case (Cons es ess)
  from Cons.prems obtain q w1 r1 where h: "handle x (wire x i rt sc ap) raw w = (q, w1)" "q \<noteq> nil_err"
    and w1: "script w1 = concat ess @ rest" "put_back r r1 w w1"
    by (auto elim: refused_delivery [of w es "concat ess @ rest" r x raw msg i rt sc ap])
  then have r1: "same_request r r1" "e_status r1 = ''queued''" and rep: "replaces r r1 (db w) (db w1)"
    by (auto simp: put_back_def)
  have sole: "sole_row r1 (db w1)" using sole_row_replaces [OF Cons.prems(3) rep] r1(1) by (simp add: same_request_def)
  have "claimable x raw = Some (msg, e_id r1)" "ValidLanguage (e_language r1)" "list_all docker_down ess"
    using Cons.prems r1(1) by (simp_all add: same_request_def)
  from Cons.IH [OF w1(1) this(3) sole r1(2) this(1,2)] obtain w2 r2 where w2: "put_back r1 r2 w1 w2" "script w2 = rest"
    "sole_row r2 (db w2)" "\<And>ps acks w'. worker x (wire x i rt sc ap) ps w2 = (acks, w') \<Longrightarrow>
       worker x (wire x i rt sc ap) (replicate (length ess) (Msg raw) @ ps) w1 = (replicate (length ess) nak @ acks, w')"
    by blast
  have "put_back r r2 w w2" by (rule put_back_trans [OF w1(2) w2(1) Cons.prems(3)])
  moreover have "worker x (wire x i rt sc ap) (replicate (length (es # ess)) (Msg raw) @ ps) w
      = (replicate (length (es # ess)) nak @ acks, w')" if "worker x (wire x i rt sc ap) ps w2 = (acks, w')" for ps acks w'
    using worker_Msg [OF h(1) w2(4) [OF that]] h(2) by simp
  ultimately show ?case using w2(2,3) by blast
qed

subsection \<open>What the reaper makes of a row that stayed queued\<close>

lemma reaped_failed [simp]: "reaped rp t' (set_failed m t r) = set_failed m t r"
  by (simp add: reaped_def stale_running_def stale_queued_def set_failed_def)

lemma reaped_queued:
  "e_status r = ''queued'' \<Longrightarrow> reaped rp t r = (if stale_queued rp t r then set_failed staleQueuedStderr t r else r)"
  by (simp add: reaped_def stale_running_def)

lemma reaper_run_queued:
  assumes "0 < rp_stale_queued_after rp" and "rp_stale_queued_after rp < 2 ^ 31 * second" and "e_status r = ''queued''"
  shows "script w = [] \<Longrightarrow> distinct (map e_id (executions (db w))) \<Longrightarrow> q \<in> set (executions (db w)) \<Longrightarrow>
    q = r \<or> (\<exists>t. q = set_failed staleQueuedStderr t r) \<Longrightarrow>
    e_created_at r + rp_stale_queued_after rp < now w + int (Suc n) * rp_interval rp \<Longrightarrow>
    \<exists>t. set_failed staleQueuedStderr t r \<in> set (executions (db (reaper_run rp (Suc n) w)))"
proof (induction n arbitrary: w q)
  case 0
  from reaper_round [OF 0(1,2), of rp 0] obtain v where v: "reaper_run rp (Suc 0) w = v" "now v = now w + rp_interval rp"
    "executions (db v) = map (reaped rp (now v)) (executions (db w))" by (metis reaper_run.simps(1))
  have "stale_queued rp (now v) r"
    using 0(5) v(2) assms whole_seconds [of "rp_stale_queued_after rp"] by (simp add: stale_queued_def)
  with 0(4) assms(3) have "\<exists>t. reaped rp (now v) q = set_failed staleQueuedStderr t r"
    by (auto simp: reaped_queued)
  with 0(3) v(1,3) show ?case by (metis image_eqI list.set_map)
next
  case (Suc n)
  from reaper_round [OF Suc.prems(1,2), of rp "Suc n"] obtain v where v: "reaper_run rp (Suc (Suc n)) w = reaper_run rp (Suc n) v"
    "script v = []" "now v = now w + rp_interval rp"
    "executions (db v) = map (reaped rp (now v)) (executions (db w))" "distinct (map e_id (executions (db v)))" by metis
  have "reaped rp (now v) q \<in> set (executions (db v))" using Suc.prems(3) v(4) by simp
  moreover have "reaped rp (now v) q = r \<or> (\<exists>t. reaped rp (now v) q = set_failed staleQueuedStderr t r)"
    using Suc.prems(4) assms(3) reaped_queued [of r rp "now v"] reaped_failed by metis
  ultimately show ?case using Suc.IH [OF v(2,5)] Suc.prems(5) v(1,3) by (simp add: algebra_simps)
qed

subsection \<open>The time of a run\<close>

lemma select_time: "select_until t w = (r, w') \<Longrightarrow> now w \<le> now w' \<and> now w' \<le> max (now w) t"
  by (cases "tick w") (auto simp: select_until_def tick_def split: if_splits list.splits)

text \<open>How long the daemon takes to answer the kill of a \<open>wait\<close> that started in \<open>w\<close> and timed out.\<close>

definition kill_time :: "int \<Rightarrow> world \<Rightarrow> int" where
  "kill_time timeout w = int (ev_elapsed (fst (tick (snd (select_until (now w + timeout) w)))))"

lemma wait_time:
  assumes "0 \<le> timeout" and "wait timeout w = (r, w')"
  shows "now w' \<le> now w + timeout + max containerTTL (kill_time timeout w)"
    and "r = Inr res \<Longrightarrow> \<not> rr_timed_out res \<Longrightarrow> now w' \<le> now w + timeout"
proof -
  obtain e w1 where e: "select_until (now w + timeout) w = (e, w1)" by (metis prod.exhaust)
  obtain k w2 where k: "tick w1 = (k, w2)" by (metis prod.exhaust)
  obtain f w3 where f: "select_until (now w1 + containerTTL) w2 = (f, w3)" by (metis prod.exhaust)
  have t1: "now w1 \<le> now w + timeout" using select_time [OF e] assms(1) by simp
  have t2: "now w2 = now w1 + kill_time timeout w"
    using k e by (auto simp: kill_time_def tick_def split: list.splits)
  have t3: "now w3 \<le> now w1 + max containerTTL (kill_time timeout w)" using select_time [OF f] t2 unfolding max_def by (simp split: if_splits)
  have "w' = w1 \<or> w' = w3 \<and> r = Inr (zero_result\<lparr>rr_timed_out := True\<rparr>)"
    using assms(2) e k f by (auto simp: wait_def Let_def split: option.splits wait_reply.splits)
  then show "now w' \<le> now w + timeout + max containerTTL (kill_time timeout w)"
    and "r = Inr res \<Longrightarrow> \<not> rr_timed_out res \<Longrightarrow> now w' \<le> now w + timeout"
    using t1 t3 by (auto simp: containerTTL_def)
qed

subsection \<open>Properties\<close>

text \<open>
  Property C6: no submission is dropped. When the server has delivered the message of a queued
  execution as often as it will, nobody else writes and Docker's answers are unambiguous, then
  either the row has left the queue, with its program started once at most; or the row is still
  queued, all five deliveries were sent back, and nothing was ever started. In particular an
  acknowledged message never leaves a queued row behind.
\<close>

theorem no_submission_dropped:
  assumes "redelivers over" and "obeys (=) w" and "clear w" and "sole_row r (db w)" and "e_status r = ''queued''"
    and "claimable x raw = Some (msg, e_id r)"
    and "worker x (wire x img rt secret priv) (replicate n (Msg raw)) w = (acks, w')" and "over dispatcher_consumer acks"
  shows "\<exists>r'. replaces r r' (db w) (db w') \<and> same_request r r' \<and>
    (if e_status r' = ''queued'' then acks = replicate 5 (NakWithDelay nakDelay) \<and> started w' = started w
     else started w' \<in> {started w, started w @ [container_name x (claimed_of r)]})"
proof -
  from deliveries [OF assms(2-4,6,7)] obtain r' where r': "delivered x r r' acks w w'" by blast
  have "acks = replicate 5 nak" if "set acks \<subseteq> {nak}"
  proof -
    have a: "acks = replicate (length acks) nak" using that by (intro replicate_eqI) auto
    then have "acks = [] \<or> last acks \<noteq> Ack" by (metis last_replicate length_0_conv disposition.distinct(1))
    moreover have "cc_ack_explicit dispatcher_consumer" "cc_max_deliver dispatcher_consumer = 5"
      by (simp_all add: dispatcher_consumer_def maxDeliver_def)
    ultimately have "length acks = 5" using assms(1,8) unfolding redelivers_def by metis
    with a show ?thesis by simp
  qed
  with r' assms(5) show ?thesis unfolding delivered_def by (intro exI [of _ r']) auto
qed

text \<open>The server that is done as soon as it may.\<close>

definition sample_over :: "consumer_config \<Rightarrow> disposition list \<Rightarrow> bool" where
  "sample_over c acks \<longleftrightarrow> length acks \<le> cc_max_deliver c \<and> Ack \<notin> set (butlast acks)
     \<and> (length acks = cc_max_deliver c \<or> acks \<noteq> [] \<and> last acks = Ack)"

definition sample_outage :: "event list" where
  "sample_outage = [quiet, quiet\<lparr>ev_fault := Lost\<rparr>, quiet\<lparr>ev_fault := Lost\<rparr>, quiet]"

lemma sample_outage_down: "docker_down sample_outage"
  by (simp add: docker_down_def sample_outage_def id_def)

lemma sample_redelivers: "redelivers sample_over"
  by (simp add: redelivers_def sample_over_def)

theorem no_submission_dropped_witness:
  "\<exists>acks w' r'. worker sample_ext (wire sample_ext ''img'' ''runsc'' [] False) (replicate 1 (Msg (Submit sample_msg))) sample_world
       = (acks, w') \<and> replaces sample_exec r' sample_db (db w') \<and> e_status r' \<noteq> ''queued''"
proof -
  obtain v where "handle sample_ext (wire sample_ext ''img'' ''runsc'' [] False) (Submit sample_msg) sample_world = (nil_err, v)"
    using handle_sample by blast
  then have w: "worker sample_ext (wire sample_ext ''img'' ''runsc'' [] False) (replicate 1 (Msg (Submit sample_msg))) sample_world
      = ([Ack], v)" by simp
  have "sample_over dispatcher_consumer [Ack]" by (simp add: sample_over_def dispatcher_consumer_def maxDeliver_def)
  moreover have "obeys (=) sample_world" "clear sample_world" by (simp_all add: quiet_obeys)
  ultimately obtain r' where "replaces sample_exec r' sample_db (db v)" "e_status r' \<noteq> ''queued''"
    using no_submission_dropped [OF sample_redelivers _ _ _ _ _ w, of sample_exec sample_msg] sample_sole(1) sample_claimable
    by (auto simp: numeral_eq_Suc split: if_splits)
  with w show ?thesis by blast
qed

text \<open>
  Property C7: an outage of Docker shorter than five deliveries is survived. When the daemon refuses
  fewer deliveries than \<open>MaxDeliver\<close> allows and then works again, the refused ones are sent back,
  the next one is acknowledged, and the execution has run, once, to its end.
\<close>

theorem outage_survived:
  assumes "script w = concat ess" and "list_all docker_down ess" and "length ess < cc_max_deliver dispatcher_consumer"
    and "db_ok (db w)" and "r \<in> set (executions (db w))" and "e_status r = ''queued''"
    and "claimable x raw = Some (msg, e_id r)" and "container_name x (claimed_of r) \<notin> set (containers w)"
  shows "\<exists>w' r'. worker x (wire x img rt secret priv) (replicate (Suc (length ess)) (Msg raw)) w
      = (replicate (length ess) (NakWithDelay nakDelay) @ [Ack], w')
    \<and> replaces r r' (db w) (db w') \<and> same_request r r' \<and> e_status r' = ''succeeded''
    \<and> started w' = started w @ [container_name x (claimed_of r)]"
proof -
  have r: "sole_row r (db w)" "ValidLanguage (e_language r)" "0 \<le> e_timeout_s r"
    using assms(4,5) by (auto simp: sole_row_def db_ok_def exec_ok_def)
  obtain w1 r1 where w1: "put_back r r1 w w1" "script w1 = []" "sole_row r1 (db w1)"
    "\<And>ps acks w'. worker x (wire x img rt secret priv) ps w1 = (acks, w') \<Longrightarrow>
       worker x (wire x img rt secret priv) (replicate (length ess) (Msg raw) @ ps) w = (replicate (length ess) nak @ acks, w')"
    using refused_deliveries [of w ess "[]" r x raw msg img rt secret priv] assms r by auto
  then have r1: "replaces r r1 (db w) (db w1)" "same_request r r1" "e_status r1 = ''queued''" "containers w1 = containers w"
    "started w1 = started w" by (simp_all add: put_back_def)
  have "claimable x raw = Some (msg, e_id r1)" "ValidLanguage (e_language r1)" "0 \<le> e_timeout_s r1"
    "container_name x (claimed_of r1) \<notin> set (containers w1)"
    using assms(7,8) r r1 container_name_same [OF r1(2), of x] by (simp_all add: same_request_def)
  from quiet_delivery [OF w1(2,3) r1(3) this, of img rt secret priv] obtain w' r' where
    h: "handle x (wire x img rt secret priv) raw w1 = (nil_err, w')" and r': "replaces r1 r' (db w1) (db w')"
      "same_request r1 r'" "e_status r' = ''succeeded''" "started w' = started w1 @ [container_name x (claimed_of r1)]" by blast
  from h have "worker x (wire x img rt secret priv) [Msg raw] w1 = ([Ack], w')" by simp
  from w1(4) [OF this] have "worker x (wire x img rt secret priv) (replicate (Suc (length ess)) (Msg raw)) w
      = (replicate (length ess) nak @ [Ack], w')" by (simp add: replicate_append_same)
  moreover have "replaces r r' (db w) (db w')"
    using replaces_trans [OF r1(1) r'(1)] r(1) r1(2) by (simp add: sole_row_def same_request_def)
  ultimately show ?thesis
    using r' same_request_trans [OF r1(2) r'(2)] r1(5) container_name_same [OF r1(2), of x] by auto
qed

theorem outage_survived_witness:
  "\<exists>w' r'. worker sample_ext (wire sample_ext ''img'' ''runsc'' [] False) (replicate 5 (Msg (Submit sample_msg)))
      (sample_world\<lparr>script := concat (replicate 4 sample_outage)\<rparr>) = (replicate 4 (NakWithDelay nakDelay) @ [Ack], w')
    \<and> replaces sample_exec r' sample_db (db w') \<and> e_status r' = ''succeeded''"
proof -
  have "list_all docker_down (replicate 4 sample_outage)" "length (replicate 4 sample_outage) < cc_max_deliver dispatcher_consumer"
    using sample_outage_down by (simp_all add: list_all_iff dispatcher_consumer_def maxDeliver_def)
  moreover have "containers sample_world = []" by (simp add: sample_world_def)
  moreover have "Suc (length (replicate 4 sample_outage)) = 5" by simp
  ultimately show ?thesis
    using outage_survived [of "sample_world\<lparr>script := concat (replicate 4 sample_outage)\<rparr>" "replicate 4 sample_outage"
        sample_exec sample_ext "Submit sample_msg" sample_msg "''img''" "''runsc''" "[]" False]
    by (simp add: sample_db_ok sample_claimable del: worker.simps replicate.simps) blast
qed

text \<open>
  Property C8: a daemon that stays broken costs one execution its turn, and no more. When all five
  deliveries are refused, nothing was started and the row is queued; from then on the reaper
  alone settles it: after as many intervals as exceed \<open>StaleQueuedAfter\<close> since its creation it is failed
  with the reaper's message.
\<close>

theorem broken_daemon_reaped:
  assumes "script w = concat ess" and "list_all docker_down ess" and "length ess = cc_max_deliver dispatcher_consumer"
    and "db_ok (db w)" and "r \<in> set (executions (db w))" and "e_status r = ''queued''" and "e_created_at r \<le> now w"
    and "claimable x raw = Some (msg, e_id r)"
    and "0 < rp_stale_queued_after rp" and "rp_stale_queued_after rp < 2 ^ 31 * second"
    and "rp_stale_queued_after rp < int n * rp_interval rp"
  shows "\<exists>w' r' t. worker x (wire x img rt secret priv) (replicate (length ess) (Msg raw)) w
      = (replicate (length ess) (NakWithDelay nakDelay), w')
    \<and> replaces r r' (db w) (db w') \<and> same_request r r' \<and> e_status r' = ''queued'' \<and> started w' = started w
    \<and> set_failed staleQueuedStderr t r' \<in> set (executions (db (reaper_run rp n w')))"
proof -
  have r: "sole_row r (db w)" "ValidLanguage (e_language r)" using assms(4,5) by (auto simp: sole_row_def db_ok_def exec_ok_def)
  obtain w1 r1 where w1: "put_back r r1 w w1" "script w1 = []" "sole_row r1 (db w1)"
    "\<And>ps acks w'. worker x (wire x img rt secret priv) ps w1 = (acks, w') \<Longrightarrow>
       worker x (wire x img rt secret priv) (replicate (length ess) (Msg raw) @ ps) w = (replicate (length ess) nak @ acks, w')"
    using refused_deliveries [of w ess "[]" r x raw msg img rt secret priv] assms r by auto
  from w1(4) [of "[]"] have w: "worker x (wire x img rt secret priv) (replicate (length ess) (Msg raw)) w = (replicate (length ess) nak, w1)"
    by simp
  obtain m where m: "n = Suc m" using assms(9,11) by (cases n) auto
  have "e_created_at r1 + rp_stale_queued_after rp < now w1 + int (Suc m) * rp_interval rp"
    using assms(7,11) w1(1) m by (simp add: put_back_def same_request_def)
  with reaper_run_queued [OF assms(9,10) _ w1(2), of r1 r1] w1(1,3) m
  have "\<exists>t. set_failed staleQueuedStderr t r1 \<in> set (executions (db (reaper_run rp n w1)))"
    by (simp add: put_back_def sole_row_def del: reaper_run.simps)
  with w w1(1) show ?thesis unfolding put_back_def by blast
qed

theorem broken_daemon_reaped_witness:
  "\<exists>w' r' t. worker sample_ext (wire sample_ext ''img'' ''runsc'' [] False) (replicate 5 (Msg (Submit sample_msg)))
      (sample_world\<lparr>script := concat (replicate 5 sample_outage)\<rparr>) = (replicate 5 (NakWithDelay nakDelay), w')
    \<and> set_failed staleQueuedStderr t r' \<in> set (executions (db (reaper_run sample_reaper 31 w')))"
proof -
  have "list_all docker_down (replicate 5 sample_outage)" "length (replicate 5 sample_outage) = cc_max_deliver dispatcher_consumer"
    using sample_outage_down by (simp_all add: list_all_iff dispatcher_consumer_def maxDeliver_def)
  moreover have "e_created_at sample_exec \<le> now sample_world" by (simp add: sample_exec_def sample_world_def)
  ultimately show ?thesis
    using broken_daemon_reaped [of "sample_world\<lparr>script := concat (replicate 5 sample_outage)\<rparr>" "replicate 5 sample_outage"
        sample_exec sample_ext "Submit sample_msg" sample_msg sample_reaper 31 "''img''" "''runsc''" "[]" False]
    by (simp add: sample_db_ok sample_claimable sample_reaper_def del: worker.simps replicate.simps reaper_run.simps) blast
qed



text \<open>
  The message is acknowledged only after the webhook, whose three attempts and two waits take 36
  seconds when the receiver does not answer: together with a run of 60 seconds that ends in time,
  more than \<open>AckWait\<close>.
\<close>

theorem slow_receiver_outlasts_ack_wait:
  assumes "script w = [e, s, quiet, s, quiet, s]" and "ev_elapsed e = 60000000000" and "ev_wait e = WaitExit 0"
    and "ev_elapsed s = 10000000000" and "ev_http s = TransportError"
    and "x_url_parse x u = Some v" and "url_scheme v = ''https''" and "url_host v = ''h''"
    and "c_webhook_url c = Some u" and "u \<noteq> []"
  shows "\<exists>w1. wait (60 * second) w = (Inr zero_result, w1)
    \<and> cc_ack_wait dispatcher_consumer < now (deliverWebhook x (wire x img rt ''s'' True) msg c st ec n w1) - now w"
proof -
  obtain w1 where w1: "wait (60 * second) w = (Inr zero_result, w1)" "script w1 = [s, quiet, s, quiet, s]" "now w1 = now w + 60 * second"
    using assms(1-3) by (simp add: wait_def select_until_def tick_Cons zero_result_def)
  have "now (deliverWebhook x (wire x img rt ''s'' True) msg c st ec n w1) = now w1 + 36 * second"
    using assms(4-10) w1(2)
    by (simp add: deliverWebhook_def wire_def Let_def Deliver_def ValidateCallbackURL_def retryDelays_def deliverOnce_def
        http_post_def select_until_def tick_Cons sleep_def clientTimeout_def)
  with w1(1,3) show ?thesis by (simp add: dispatcher_consumer_def ackWait_def)
qed

end
