(* ===== verification/Quotas.thy ===== *)
theory Quotas
  imports Guarantee Sample
begin

section \<open>Submit quotas\<close>

text \<open>
  \<open>internal/quotas/quota.go\<close>: the limits of the tiers, the decision, and the check-and-insert
  transaction. The two statements that set the lock timeout and take the tenant's advisory lock
  change no table; waiting for the lock too long is SQLSTATE 55P03. The lock is what the
  serialised transactions of theory World stand for.
\<close>

definition SubmitWindow :: int where "SubmitWindow = 3600 * second"

record limits =
  lm_submits_per_hour :: int
  lm_max_active :: int

definition tierLimits :: "(string \<times> limits) list" where
  "tierLimits =
     [(''free'', \<lparr>lm_submits_per_hour = 60, lm_max_active = 2\<rparr>),
      (''starter'', \<lparr>lm_submits_per_hour = 600, lm_max_active = 5\<rparr>),
      (''professional'', \<lparr>lm_submits_per_hour = 6000, lm_max_active = 20\<rparr>),
      (''enterprise'', \<lparr>lm_submits_per_hour = -1, lm_max_active = -1\<rparr>)]"

record decision =
  dc_allowed :: bool
  dc_retry_after :: int
  dc_reason :: string

definition limitsFor :: "ext \<Rightarrow> string \<Rightarrow> limits" where
  "limitsFor x tier =
     (case map_of tierLimits (ToLower (x_lower x) (TrimSpace tier)) of
        Some l \<Rightarrow> l
      | None \<Rightarrow> \<lparr>lm_submits_per_hour = 60, lm_max_active = 2\<rparr>)"

definition allow :: decision where
  "allow = \<lparr>dc_allowed = True, dc_retry_after = 0, dc_reason = []\<rparr>"

definition decide :: "limits \<Rightarrow> int \<Rightarrow> int \<Rightarrow> decision" where
  "decide l hourly active_n =
     (if 0 \<le> lm_submits_per_hour l \<and> lm_submits_per_hour l \<le> hourly
      then (let retry = (if 0 < lm_submits_per_hour l then go_div 3600 (lm_submits_per_hour l) else 3600)
            in \<lparr>dc_allowed = False, dc_retry_after = (if retry < 1 then 1 else retry),
                dc_reason = ''hourly submit limit exceeded''\<rparr>)
      else if 0 \<le> lm_max_active l \<and> lm_max_active l \<le> active_n
      then \<lparr>dc_allowed = False, dc_retry_after = 30, dc_reason = ''too many active executions''\<rparr>
      else allow)"

text \<open>
  \<open>SET LOCAL lock_timeout\<close> and \<open>pg_advisory_xact_lock\<close>. \<open>lockErr\<close> only words the error, which it
  wraps.
\<close>

definition lock_stmt :: "unit stmt" where
  "lock_stmt t u d = (nil_err, d)"

text \<open>\<open>checkCounts\<close>, inside the caller's transaction.\<close>

definition count_hourly :: "queries \<Rightarrow> limits \<Rightarrow> uuid option \<Rightarrow> int \<Rightarrow> world \<Rightarrow> int result \<times> world" where
  "count_hourly q l tid clock w =
     (if 0 \<le> lm_submits_per_hour l
      then run_query q (CountExecutionsSince tid (clock - SubmitWindow)) w else (Inr 0, w))"

definition count_active :: "queries \<Rightarrow> limits \<Rightarrow> uuid option \<Rightarrow> world \<Rightarrow> int result \<times> world" where
  "count_active q l tid w =
     (if 0 \<le> lm_max_active l then run_query q (CountActiveExecutions tid) w else (Inr 0, w))"

definition checkCounts :: "ext \<Rightarrow> queries \<Rightarrow> uuid option \<Rightarrow> int \<Rightarrow> world \<Rightarrow> decision result \<times> world" where
  "checkCounts x q tid clock w =
     (case run_query q (GetTenant tid) w of (r, w1) \<Rightarrow>
        case r of
          Inl e \<Rightarrow> (Inl e, w1)
        | Inr tn \<Rightarrow>
            let l = limitsFor x (t_tier tn)
            in if lm_submits_per_hour l < 0 \<and> lm_max_active l < 0 then (Inr allow, w1)
               else (case count_hourly q l tid clock w1 of (h, w2) \<Rightarrow>
                 case h of
                   Inl e \<Rightarrow> (Inl e, w2)
                 | Inr hourly \<Rightarrow>
                     (case count_active q l tid w2 of (a, w3) \<Rightarrow>
                       case a of
                         Inl e \<Rightarrow> (Inl e, w3)
                       | Inr active_n \<Rightarrow> (Inr (decide l hourly active_n), w3))))"

text \<open>The Postgres-backed \<open>Checker\<close>; without a clock of its own it asks \<open>time.Now\<close>.\<close>

record postgres_checker =
  pc_clock :: "world \<Rightarrow> int"

definition NewPostgresChecker :: "(world \<Rightarrow> int) option \<Rightarrow> postgres_checker" where
  "NewPostgresChecker clock = \<lparr>pc_clock = (case clock of None \<Rightarrow> now | Some c \<Rightarrow> c)\<rparr>"

lemma default_clock [simp]: "pc_clock (NewPostgresChecker None) = now"
  by (simp add: NewPostgresChecker_def)

text \<open>\<open>CheckAndCreate\<close>: \<open>None\<close> for the zero row of a denial.\<close>

definition CheckAndCreate ::
    "ext \<Rightarrow> postgres_checker \<Rightarrow> string \<Rightarrow> create_execution_params \<Rightarrow> world
      \<Rightarrow> (create_execution_row option \<times> decision) result \<times> world" where
  "CheckAndCreate x pc tenant params w =
     (case tx_begin w of (b, w1) \<Rightarrow>
        case b of
          Inl e \<Rightarrow> (Inl e, w1)
        | Inr t \<Rightarrow>
            (case ParsePg x tenant of
               Inl e \<Rightarrow> (Inl e, tx_rollback t w1)
             | Inr tid \<Rightarrow>
                 (case tx_call t lock_stmt w1 of (r1, w2) \<Rightarrow>
                   case r1 of
                     Inl e \<Rightarrow> (Inl e, tx_rollback t w2)
                   | Inr _ \<Rightarrow>
                       (case tx_call t lock_stmt w2 of (r2, w3) \<Rightarrow>
                         case r2 of
                           Inl e \<Rightarrow> (Inl e, tx_rollback t w3)
                         | Inr _ \<Rightarrow>
                             (case checkCounts x (New_queries (OnTx t)) tid (pc_clock pc w3) w3 of (r3, w4) \<Rightarrow>
                               case r3 of
                                 Inl e \<Rightarrow> (Inl e, tx_rollback t w4)
                               | Inr d \<Rightarrow>
                                   if \<not> dc_allowed d then (Inr (None, d), tx_rollback t w4)
                                   else (case tx_call t (CreateExecution params) w4 of (r4, w5) \<Rightarrow>
                                     case r4 of
                                       Inl e \<Rightarrow> (Inl e, tx_rollback t w5)
                                     | Inr row \<Rightarrow>
                                         (case tx_commit t w5 of (r5, w6) \<Rightarrow>
                                           case r5 of
                                             Inl e \<Rightarrow> (Inl e, w6)
                                           | Inr _ \<Rightarrow> (Inr (Some row, allow), w6))))))))"

subsection \<open>Guarantee\<close>

context store_client
begin

lemma lock_keeps: "safe R d0 w \<Longrightarrow> keeps (safe R d0) (tx_call t lock_stmt w)"
  by (rule tx_call_keeps) (simp_all add: lock_stmt_def R_refl)

lemma checkCounts_keeps: "safe R d0 w \<Longrightarrow> keeps (safe R d0) (checkCounts x (New_queries (OnTx t)) tid clock w)"
  unfolding checkCounts_def count_hourly_def count_active_def Let_def run_query_simps
  by (intro keeps_bind keeps_rules tx_call_keeps store_rules)

lemma CheckAndCreate_keeps:
  assumes "params_ok params" and "safe R d0 w"
  shows "keeps (safe R d0) (CheckAndCreate x pc tenant params w)"
  unfolding CheckAndCreate_def
  by (intro keeps_bind keeps_rules tx_begin_keeps tx_call_keeps tx_commit_keeps tx_rollback_safe
      lock_keeps checkCounts_keeps store_rules assms)
    (blast dest: tx_begin_saved [OF assms(2)])+

end

text \<open>The transaction talks to the database only.\<close>

lemma CheckAndCreate_io:
  "same_io w0 w \<Longrightarrow> keeps (same_io w0) (CheckAndCreate x pc tenant params w)"
  "later w0 w \<Longrightarrow> keeps (later w0) (CheckAndCreate x pc tenant params w)"
  unfolding CheckAndCreate_def checkCounts_def count_hourly_def count_active_def Let_def run_query_simps
  by (intro keeps_bind keeps_rules call_same call_later; simp)+

subsection \<open>The tenants' counts\<close>

definition active_of :: "uuid \<Rightarrow> db \<Rightarrow> nat" where
  "active_of tid d = count_where (\<lambda>r. e_tenant_id r = tid \<and> active r) (executions d)"

definition since_of :: "uuid \<Rightarrow> int \<Rightarrow> db \<Rightarrow> nat" where
  "since_of tid since d = count_where (\<lambda>r. e_tenant_id r = tid \<and> since \<le> e_created_at r) (executions d)"

text \<open>The check that lets an insert through, on the tables the transaction sees.\<close>

definition admits :: "ext \<Rightarrow> uuid \<Rightarrow> int \<Rightarrow> db \<Rightarrow> bool" where
  "admits x tid clock d \<longleftrightarrow>
     (case find (\<lambda>tn. t_id tn = tid) (tenants d) of
        None \<Rightarrow> False
      | Some tn \<Rightarrow>
          let l = limitsFor x (t_tier tn)
          in (lm_submits_per_hour l < 0
                \<or> int (since_of tid (clock - SubmitWindow) d) < lm_submits_per_hour l)
             \<and> (lm_max_active l < 0 \<or> int (active_of tid d) < lm_max_active l))"

lemma decide_allowed:
  "dc_allowed (decide l h a) \<longleftrightarrow>
     (lm_submits_per_hour l < 0 \<or> h < lm_submits_per_hour l) \<and> (lm_max_active l < 0 \<or> a < lm_max_active l)"
  by (auto simp: decide_def allow_def Let_def)

text \<open>A statement in a transaction meets the tables as they are.\<close>

lemma tx_callD:
  assumes "tx_call t q w = (r, w')"
  shows "(\<exists>u. r = fst (q (tx_now t) u (db w)) \<and> db w' = snd (q (tx_now t) u (db w)))
    \<or> (\<exists>e. r = Inl e) \<and> db w' = db w"
proof -
  obtain e w1 where t: "tx_tick w = (e, w1)" by (metis prod.exhaust)
  have "r = fst (q (tx_now t) (ev_uuid e) (db w)) \<and> db w' = snd (q (tx_now t) (ev_uuid e) (db w))
      \<or> (\<exists>e. r = Inl e) \<and> db w' = db w"
    using assms t tx_tickD(7) [OF t] by (auto simp: tx_call_def split: fault.splits prod.splits)
  then show ?thesis by blast
qed

lemma tx_call_read:
  assumes "tx_call t q w = (r, w')" and "\<And>n u d. snd (q n u d) = d"
  shows "db w' = db w" and "r = Inr a \<Longrightarrow> \<exists>u. fst (q (tx_now t) u (db w)) = Inr a"
  using tx_callD [OF assms(1)] assms(2) by auto

lemma count_hourly_read:
  assumes "count_hourly (New_queries (OnTx t)) l (Some tid) clock w = (r, w')"
  shows "db w' = db w"
    and "r = Inr h \<Longrightarrow> 0 \<le> lm_submits_per_hour l \<Longrightarrow> h = int (since_of tid (clock - SubmitWindow) (db w))"
  using assms tx_call_read [of t "CountExecutionsSince (Some tid) (clock - SubmitWindow)" w r w']
  by (auto simp: count_hourly_def CountExecutionsSince_def since_of_def split: if_splits)

lemma count_active_read:
  assumes "count_active (New_queries (OnTx t)) l (Some tid) w = (r, w')"
  shows "db w' = db w"
    and "r = Inr a \<Longrightarrow> 0 \<le> lm_max_active l \<Longrightarrow> a = int (active_of tid (db w))"
  using assms tx_call_read [of t "CountActiveExecutions (Some tid)" w r w']
  by (auto simp: count_active_def CountActiveExecutions_def active_of_def split: if_splits)

lemma checkCounts_read:
  assumes "checkCounts x (New_queries (OnTx t)) (Some tid) clock w = (r, w')"
  shows "db w' = db w" and "r = Inr dec \<Longrightarrow> dc_allowed dec \<Longrightarrow> admits x tid clock (db w)"
proof -
  obtain g w1 where g: "tx_call t (GetTenant (Some tid)) w = (g, w1)" by (metis prod.exhaust)
  have w1: "db w1 = db w" by (rule tx_call_read(1) [OF g]) simp
  have find: "find (\<lambda>tn. t_id tn = tid) (tenants (db w)) = Some tn" if "g = Inr tn" for tn
    using tx_call_read(2) [OF g _ that] by (auto simp: GetTenant_def split: option.splits)
  define l where "l = (case g of Inr tn \<Rightarrow> limitsFor x (t_tier tn) | Inl _ \<Rightarrow> undefined)"
  obtain h w2 where h: "count_hourly (New_queries (OnTx t)) l (Some tid) clock w1 = (h, w2)" by (metis prod.exhaust)
  obtain a w3 where a: "count_active (New_queries (OnTx t)) l (Some tid) w2 = (a, w3)" by (metis prod.exhaust)
  note w2 = count_hourly_read [OF h] and w3 = count_active_read [OF a]
  show "db w' = db w"
    using assms g h a w1 w2(1) w3(1)
    by (auto simp: checkCounts_def l_def Let_def split: sum.splits if_splits)
  show "admits x tid clock (db w)" if "r = Inr dec" "dc_allowed dec"
    using assms that g h a w1 w2 w3 find
    by (auto simp: checkCounts_def l_def Let_def admits_def decide_allowed split: sum.splits if_splits)
      (meson not_le)+
qed

text \<open>
  The transaction's outcome: it leaves the tables as they were when it began, or it inserted one
  row that the check had admitted (and then reported the row, unless the answer to the commit
  was lost).
\<close>

definition inserted ::
    "ext \<Rightarrow> string \<Rightarrow> create_execution_params \<Rightarrow> int \<Rightarrow> db \<Rightarrow> create_execution_row \<Rightarrow> db \<Rightarrow> bool" where
  "inserted x tenant params clock d row d' \<longleftrightarrow>
     (\<exists>tid t u. t \<le> clock \<and> x_uuid_parse x tenant = Some tid \<and> admits x tid clock d
        \<and> CreateExecution params t u d = (Inr row, d'))"

lemma tx_call_time: "tx_call t q w = (r, w') \<Longrightarrow> now w \<le> now w'"
  by (auto simp: tx_call_def tx_tick_def split: list.splits fault.splits prod.splits)

lemma tx_begin_cases:
  assumes "tx_begin w = (b, w1)"
  obtains e where "tick w = (e, w1)" "b = Inl ConnError"
  | e where "tick w = (e, w1)" "b = Inr \<lparr>tx_now = now w1, tx_saved = db w1\<rparr>"
  using assms by (cases "tick w") (auto simp: tx_begin_def split: fault.splits)

lemma tx_commit_db:
  "tx_commit t w = (r, w') \<Longrightarrow>
   db w' = db w \<and> (r = nil_err \<or> \<not> clear w) \<or> (\<exists>e. r = Inl e) \<and> db w' = tx_saved t"
  by (cases "script w")
    (auto simp: tx_commit_def tx_rollback_def tx_tick_def clear_def split: fault.splits)

lemma tx_clear:
  "tx_begin w = (b, w') \<Longrightarrow> clear w \<Longrightarrow> clear w'" "tx_call t q w = (r, w') \<Longrightarrow> clear w \<Longrightarrow> clear w'"
  by (cases "script w"; auto simp: tx_begin_def tick_def tx_call_def tx_tick_def clear_def
      split: fault.splits prod.splits)+

lemma checkCounts_clear: "checkCounts x (New_queries (OnTx t)) tid clock w = (r, w') \<Longrightarrow> clear w \<Longrightarrow> clear w'"
  by (auto simp: checkCounts_def count_hourly_def count_active_def Let_def
      split: prod.splits sum.splits if_splits dest!: tx_clear(2))

lemma tx_rollback_db [simp]: "db (tx_rollback t w) = tx_saved t"
  by (simp add: tx_rollback_def)

lemma admitted_insert:
  assumes "x_uuid_parse x tenant = Some tid" and "tx_saved t = d"
    and "tx_call t lock_stmt w1 = (Inr l1, w2)" and "tx_call t lock_stmt w2 = (Inr l2, w3)" and "db w1 = d"
    and "checkCounts x (New_queries (OnTx t)) (Some tid) clock w3 = (Inr dec, w4)" and "dc_allowed dec"
    and "tx_call t (CreateExecution params) w4 = (Inr row, w5)" and "tx_commit t w5 = (c, w6)"
    and "tx_now t \<le> clock"
  shows "db w6 = d \<and> (\<exists>e. c = Inl e)
    \<or> inserted x tenant params clock d row (db w6) \<and> (c = nil_err \<or> \<not> clear w1)"
proof -
  have "db w2 = d" "db w3 = d"
    using tx_callD [OF assms(3)] tx_callD [OF assms(4)] assms(5) by (auto simp: lock_stmt_def)
  with checkCounts_read [OF assms(6)] assms(7) have w4: "db w4 = d" "admits x tid clock d" by auto
  with tx_callD [OF assms(8)] obtain u
    where "CreateExecution params (tx_now t) u d = (Inr row, db w5)" by (metis prod.collapse sum.distinct(1))
  with w4 assms(1,10) have "inserted x tenant params clock d row (db w5)" by (auto simp: inserted_def)
  moreover have "clear w1 \<Longrightarrow> clear w5"
    using tx_clear(2) [OF assms(3)] tx_clear(2) [OF assms(4)] checkCounts_clear [OF assms(6)]
      tx_clear(2) [OF assms(8)] by blast
  ultimately show ?thesis using tx_commit_db [OF assms(9)] assms(2) by auto
qed

lemma CheckAndCreate_effect:
  assumes "CheckAndCreate x (NewPostgresChecker None) tenant params w = (r, w')"
  shows "\<exists>e w1. tick w = (e, w1) \<and>
    (db w' = db w1 \<and> (\<forall>row dec. r = Inr (row, dec) \<longrightarrow> row = None \<and> \<not> dc_allowed dec)
     \<or> (\<exists>row clock. now w1 \<le> clock \<and> inserted x tenant params clock (db w1) row (db w')
         \<and> (r = Inr (Some row, allow) \<or> (\<exists>e. r = Inl e) \<and> \<not> clear w)))"
proof -
  obtain b w1 where b: "tx_begin w = (b, w1)" by (metis prod.exhaust)
  then show ?thesis
  proof (cases rule: tx_begin_cases)
    case (1 e)
    with assms b show ?thesis by (auto simp: CheckAndCreate_def)
  next
    case (2 e)
    define t where "t = \<lparr>tx_now = now w1, tx_saved = db w1\<rparr>"
    have saved: "tx_saved t = db w1" by (simp add: t_def)
    obtain r1 w2 where r1: "tx_call t lock_stmt w1 = (r1, w2)" by (metis prod.exhaust)
    obtain r2 w3 where r2: "tx_call t lock_stmt w2 = (r2, w3)" by (metis prod.exhaust)
    show ?thesis
    proof (cases "x_uuid_parse x tenant")
      case None
      with assms b 2 show ?thesis by (auto simp: CheckAndCreate_def ParsePg_def)
    next
      case (Some tid)
      then have p: "ParsePg x tenant = Inr (Some tid)" by (simp add: ParsePg_Inr)
      obtain r3 w4 where r3: "checkCounts x (New_queries (OnTx t)) (Some tid) (now w3) w3 = (r3, w4)" by (metis prod.exhaust)
      obtain r4 w5 where r4: "tx_call t (CreateExecution params) w4 = (r4, w5)" by (metis prod.exhaust)
      obtain r5 w6 where r5: "tx_commit t w5 = (r5, w6)" by (metis prod.exhaust)
      note eqs = assms b [folded t_def] 2 [folded t_def] p r1 r2 r3 r4 r5
      have time: "now w1 \<le> now w3" using tx_call_time [OF r1] tx_call_time [OF r2] by simp
      then have "tx_now t \<le> now w3" by (simp add: t_def)
      then have ok: "db w6 = db w1 \<and> (\<exists>e. r5 = Inl e) 
          \<or> inserted x tenant params (now w3) (db w1) row (db w6) \<and> (r5 = nil_err \<or> \<not> clear w1)"
        if "r1 = Inr l1" "r2 = Inr l2" "r3 = Inr dec" "dc_allowed dec" "r4 = Inr row" for l1 l2 dec row
        using admitted_insert [OF Some saved] eqs that by blast
      show ?thesis
        using eqs ok saved time tx_clear(1) [OF b]
        by (auto simp: CheckAndCreate_def split: sum.splits if_splits) blast
    qed
  qed
qed

subsection \<open>The quota as an invariant\<close>

definition within :: "ext \<Rightarrow> db \<Rightarrow> bool" where
  "within x d \<longleftrightarrow>
     (\<forall>tn\<in>set (tenants d).
        lm_max_active (limitsFor x (t_tier tn)) < 0
        \<or> int (active_of (t_id tn) d) \<le> lm_max_active (limitsFor x (t_tier tn)))"

text \<open>Steps of other processes that keep the tables well-formed and within the quotas.\<close>

definition quota_rel :: "ext \<Rightarrow> db \<Rightarrow> db \<Rightarrow> bool" where
  "quota_rel x d d' \<longleftrightarrow> (db_ok d \<and> within x d \<longrightarrow> db_ok d' \<and> within x d')"

interpretation quota: rely_guarantee "quota_rel x" for x
  by unfold_locales (auto simp: quota_rel_def)

lemma count_where_pointwise:
  "length ys = length xs \<Longrightarrow> (\<And>i. i < length xs \<Longrightarrow> q (ys ! i) \<Longrightarrow> p (xs ! i)) \<Longrightarrow>
   count_where q ys \<le> count_where p xs"
proof (induction ys xs rule: list_induct2)
  case (Cons y ys x xs)
  have "q y \<Longrightarrow> p x" using Cons.prems [of 0] by simp
  moreover have "count_where q ys \<le> count_where p xs"
    using Cons.prems by (intro Cons.IH) (metis length_Cons not_less_eq nth_Cons_Suc)
  ultimately show ?case by auto
qed simp

lemma active_of_step:
  assumes "db_step d d'" and "length (executions d') = length (executions d)"
  shows "active_of tid d' \<le> active_of tid d"
  unfolding active_of_def
proof (rule count_where_pointwise [OF assms(2)])
  fix i
  assume i: "i < length (executions d)" and a: "e_tenant_id (executions d' ! i) = tid \<and> active (executions d' ! i)"
  have "status_edge (e_status (executions d ! i)) (e_status (executions d' ! i))"
    using db_step_edges [OF assms(1)] i by (simp add: edges_ok_def)
  moreover have "e_tenant_id (executions d' ! i) = e_tenant_id (executions d ! i)"
    using db_step_le [OF assms(1)] i by (simp add: db_le_def grows_def row_le_def same_request_def)
  ultimately show "e_tenant_id (executions d ! i) = tid \<and> active (executions d ! i)"
    using a by (auto simp: active_def status_edge_def)
qed

lemma active_of_unknown: "db_ok d \<Longrightarrow> tid \<notin> t_id ` set (tenants d) \<Longrightarrow> active_of tid d = 0"
  by (auto simp: active_of_def count_where_zero db_ok_def exec_ok_def)

text \<open>Every statement but the insert of an execution keeps the tables within the quotas.\<close>

lemma step_within:
  assumes "db_step d d'" and "length (executions d') = length (executions d)" and "db_ok d" and "within x d"
  shows "within x d'"
  unfolding within_def
proof
  fix tn
  assume tn: "tn \<in> set (tenants d')"
  let ?m = "lm_max_active (limitsFor x (t_tier tn))"
  have le: "active_of (t_id tn) d' \<le> active_of (t_id tn) d" by (rule active_of_step [OF assms(1,2)])
  show "?m < 0 \<or> int (active_of (t_id tn) d') \<le> ?m"
  proof (cases "tn \<in> set (tenants d)")
    case True
    with assms(4) le show ?thesis by (fastforce simp: within_def)
  next
    case False
    have sub: "set (tenants d) \<subseteq> set (tenants d')"
      using db_step_le [OF assms(1)] by (auto simp: db_le_def dest: grows_eq_subset)
    have dist: "distinct (map t_id (tenants d'))"
      using db_step_ok [OF assms(1,3)] by (simp add: db_ok_def)
    have "t_id tn \<notin> t_id ` set (tenants d)"
    proof
      assume "t_id tn \<in> t_id ` set (tenants d)"
      then obtain tn0 where "tn0 \<in> set (tenants d)" "t_id tn = t_id tn0" by blast
      with distinct_map_eq [OF dist tn, of tn0] sub False show False by auto
    qed
    with active_of_unknown [OF assms(3)] le show ?thesis by auto
  qed
qed

lemma quota_rel_step:
  "db_step d d' \<Longrightarrow> length (executions d') = length (executions d) \<Longrightarrow> quota_rel x d d'"
  by (auto simp: quota_rel_def intro: step_within db_step_ok)

text \<open>An admitted insert keeps them within the quotas too.\<close>

lemma inserted_within:
  assumes "inserted x tenant params clock d row d'" and "x_uuid_parse x tenant = Some tid"
    and "cp_tenant_id params = Some tid" and "db_ok d" and "within x d"
  shows "within x d'"
proof -
  from assms(1,2) obtain t u where adm: "admits x tid clock d"
    and ins: "CreateExecution params t u d = (Inr row, d')" by (auto simp: inserted_def)
  have d': "executions d' = executions d @ [new_execution params tid t u]" "tenants d' = tenants d"
    using ins assms(3) by (auto simp: CreateExecution_def split: if_splits)
  have new: "active_of j d' = (if j = tid then Suc (active_of j d) else active_of j d)" for j
    using d'(1) by (simp add: active_of_def new_execution_def active_def)
  from adm obtain tn where tn: "find (\<lambda>tn. t_id tn = tid) (tenants d) = Some tn"
    and lim: "lm_max_active (limitsFor x (t_tier tn)) < 0
      \<or> int (active_of tid d) < lm_max_active (limitsFor x (t_tier tn))"
    by (auto simp: admits_def Let_def split: option.splits)
  have uniq: "s = tn" if "s \<in> set (tenants d)" "t_id s = tid" for s
    using that find_SomeD [OF tn] assms(4) by (auto simp: db_ok_def intro: distinct_map_eq)
  show ?thesis
    unfolding within_def d'(2)
  proof
    fix s
    assume s: "s \<in> set (tenants d)"
    show "lm_max_active (limitsFor x (t_tier s)) < 0
      \<or> int (active_of (t_id s) d') \<le> lm_max_active (limitsFor x (t_tier s))"
      using assms(5) s lim uniq [OF s] by (auto simp: new within_def)
  qed
qed

subsection \<open>Properties\<close>


definition sample_params :: create_execution_params where
  "sample_params = \<lparr>cp_tenant_id = Some 2, cp_language = ''go'', cp_source = ''package main'', cp_stdin = [],
     cp_timeout_s = 5, cp_webhook_url = None, cp_submitted_by_user_id = Some 1,
     cp_submitted_by_api_key_id = None\<rparr>"

lemma sample_params_ok: "params_ok sample_params"
  by (simp add: params_ok_def sample_params_def ValidLanguage_def SupportedLanguages_def)

lemma sample_limits: "limitsFor x ''free'' = \<lparr>lm_submits_per_hour = 60, lm_max_active = 2\<rparr>"
  by (simp add: limitsFor_def TrimSpace_graphic graphic_def ascii_lower_def tierLimits_def)

lemma sample_within: "within x sample_db"
  by (simp add: within_def sample_limits active_of_def)


text \<open>
  Without interference, an answer of check-and-insert tells what happened: on
  denial nothing was inserted, on admission exactly the submitted row was, the tenant was below
  both limits, and afterwards at most the hourly limit of its executions lies in the trailing
  hour.
\<close>

theorem quota_answer:
  assumes "obeys (=) w" and "CheckAndCreate x (NewPostgresChecker None) tenant params w = (Inr (row, dec), w')"
    and "x_uuid_parse x tenant = Some tid" and "cp_tenant_id params = Some tid"
  shows "case row of
      None \<Rightarrow> \<not> dc_allowed dec \<and> db w' = db w
    | Some r \<Rightarrow> dc_allowed dec \<and>
        (\<exists>clock t u tn. now w \<le> clock \<and> admits x tid clock (db w)
           \<and> db w' = db w\<lparr>executions := executions (db w) @ [new_execution params tid t u]\<rparr>
           \<and> cr_id r = Some u \<and> find (\<lambda>tn. t_id tn = tid) (tenants (db w)) = Some tn
           \<and> (lm_submits_per_hour (limitsFor x (t_tier tn)) < 0
              \<or> int (since_of tid (clock - SubmitWindow) (db w')) \<le> lm_submits_per_hour (limitsFor x (t_tier tn))))"
proof -
  obtain e w1 where t: "tick w = (e, w1)" by (metis prod.exhaust)
  then have w1: "db w1 = db w" "now w \<le> now w1"
    using assms(1) by (auto simp: tick_def obeys_def split: list.splits)
  show ?thesis
  proof (cases row)
    case None
    with CheckAndCreate_effect [OF assms(2)] t w1 show ?thesis by auto
  next
    case (Some r)
    with CheckAndCreate_effect [OF assms(2)] t w1 obtain clock where
      dec: "dec = allow" and clock: "now w1 \<le> clock" and ins: "inserted x tenant params clock (db w) r (db w')" by auto
    from ins assms(3) obtain n u where adm: "admits x tid clock (db w)"
      and c: "CreateExecution params n u (db w) = (Inr r, db w')" by (auto simp: inserted_def)
    have w': "db w' = db w\<lparr>executions := executions (db w) @ [new_execution params tid n u]\<rparr>" "cr_id r = Some u"
      using c assms(4) by (auto simp: CreateExecution_def split: if_splits)
    from adm obtain tn where tn: "find (\<lambda>tn. t_id tn = tid) (tenants (db w)) = Some tn"
      "lm_submits_per_hour (limitsFor x (t_tier tn)) < 0
        \<or> int (since_of tid (clock - SubmitWindow) (db w)) < lm_submits_per_hour (limitsFor x (t_tier tn))"
      by (auto simp: admits_def Let_def split: option.splits)
    moreover have "since_of tid (clock - SubmitWindow) (db w') \<le> Suc (since_of tid (clock - SubmitWindow) (db w))"
      by (simp add: w' since_of_def)
    ultimately have "lm_submits_per_hour (limitsFor x (t_tier tn)) < 0
        \<or> int (since_of tid (clock - SubmitWindow) (db w')) \<le> lm_submits_per_hour (limitsFor x (t_tier tn))" by linarith
    with clock w1(2) adm w' tn(1) have "\<exists>clock t u tn. now w \<le> clock \<and> admits x tid clock (db w)
        \<and> db w' = db w\<lparr>executions := executions (db w) @ [new_execution params tid t u]\<rparr>
        \<and> cr_id r = Some u \<and> find (\<lambda>tn. t_id tn = tid) (tenants (db w)) = Some tn
        \<and> (lm_submits_per_hour (limitsFor x (t_tier tn)) < 0
          \<or> int (since_of tid (clock - SubmitWindow) (db w')) \<le> lm_submits_per_hour (limitsFor x (t_tier tn)))"
      by (meson order_trans)
    with Some dec show ?thesis by (simp add: allow_def)
  qed
qed

lemma tx_quiet:
  "script w = [] \<Longrightarrow> tx_begin w = (Inr \<lparr>tx_now = now w, tx_saved = db w\<rparr>, w)"
  "script w = [] \<Longrightarrow> tx_call t q w = (fst (q (tx_now t) 0 (db w)), w\<lparr>db := snd (q (tx_now t) 0 (db w))\<rparr>)"
  "script w = [] \<Longrightarrow> tx_commit t w = (nil_err, w)"
  by (simp_all add: tx_begin_def tx_call_def tx_commit_def tx_tick_def split: prod.split)

lemma sample_admitted:
  "fst (CheckAndCreate sample_ext (NewPostgresChecker None) ''2'' sample_params sample_world)
     = Inr (Some \<lparr>cr_id = Some 0, cr_tenant_id = Some 2, cr_language = ''go'', cr_status = ''queued'',
                 cr_created_at = 1000 * second\<rparr>, allow)"
proof -
  have p: "ParsePg sample_ext ''2'' = Inr (Some 2)" by (simp add: ParsePg_Inr sample_ext_def)
  have c: "checkCounts sample_ext (New_queries (OnTx t)) (Some 2) clock w = (Inr allow, w)"
    if "script w = []" "db w = sample_db" for t clock w
    using that by (simp add: checkCounts_def count_hourly_def count_active_def tx_quiet GetTenant_def
        CountExecutionsSince_def CountActiveExecutions_def sample_limits decide_def allow_def Let_def)
  have i: "fst (CreateExecution sample_params n 0 sample_db)
      = Inr \<lparr>cr_id = Some 0, cr_tenant_id = Some 2, cr_language = ''go'', cr_status = ''queued'',
             cr_created_at = n\<rparr>" for n
    by (simp add: CreateExecution_def params_text_ok_def text_ok_def actor_ok_def sample_params_def)
  show ?thesis
    by (simp add: CheckAndCreate_def tx_quiet p lock_stmt_def c i) (simp add: allow_def)
qed

theorem quota_answer_witness:
  "db (snd (CheckAndCreate sample_ext (NewPostgresChecker None) ''2'' sample_params sample_world)) \<noteq> sample_db"
proof -
  have "CheckAndCreate sample_ext (NewPostgresChecker None) ''2'' sample_params sample_world
      = (Inr (Some \<lparr>cr_id = Some 0, cr_tenant_id = Some 2, cr_language = ''go'', cr_status = ''queued'',
                 cr_created_at = 1000 * second\<rparr>, allow),
         snd (CheckAndCreate sample_ext (NewPostgresChecker None) ''2'' sample_params sample_world))"
    using sample_admitted by (metis prod.collapse)
  from quota_answer [OF _ this, of 2] show ?thesis
    by (auto simp: obeys_def sample_ext_def sample_params_def dest: arg_cong [where f = executions])
qed

end
