(* ===== verification/Http.thy ===== *)
theory Http
  imports Quotas
begin

section \<open>Requests and responses\<close>

text \<open>
  What the handlers see of a request and write as a response (\<open>internal/http/handlers/respond.go\<close>).
  Of a body the request keeps the struct its JSON value decodes to, \<open>None\<close> when there is none,
  and the number of bytes up to the end of that value, which must arrive within the 1 MiB cap.
  A response body is a JSON value; a time is kept as such and rendered by RFC 3339.
  The identity a middleware puts into the context is part of the request.
\<close>

datatype json =
    JString string
  | JInt int
  | JTime int
  | JNull
  | JObject "(string \<times> json) list"
  | JArray "json list"

record response =
  rs_code :: int
  rs_retry_after :: "int option"
  rs_body :: json

definition maxBodyBytes :: nat where "maxBodyBytes = 2 ^ 20"

definition writeJSON :: "int \<Rightarrow> json \<Rightarrow> response" where
  "writeJSON code v = \<lparr>rs_code = code, rs_retry_after = None, rs_body = v\<rparr>"

definition writeErr :: "int \<Rightarrow> string \<Rightarrow> response" where
  "writeErr code msg = writeJSON code (JObject [(''error'', JString msg)])"

record 'a request =
  rq_authorization :: string
  rq_tenant_header :: string      \<comment> \<open>X-Tenant-ID\<close>
  rq_request_id :: string         \<comment> \<open>X-Request-ID\<close>
  rq_path_id :: string
  rq_path_key :: string
  rq_limit :: string
  rq_offset :: string
  rq_user :: string               \<comment> \<open>context: UserIDFrom\<close>
  rq_tenant :: string             \<comment> \<open>context: TenantIDFrom\<close>
  rq_api_key :: string            \<comment> \<open>context: APIKeyIDFrom\<close>
  rq_body_size :: nat             \<comment> \<open>bytes up to the end of the JSON value\<close>
  rq_body :: "'a option"

type_synonym 'a handler = "'a request \<Rightarrow> world \<Rightarrow> response \<times> world"

text \<open>
  \<open>decodeBody\<close>: the reader fails past \<open>maxBodyBytes\<close>, and a value that is not complete by then
  does not decode. The caller writes the 400.
\<close>

definition decodeBody :: "'a request \<Rightarrow> 'a option" where
  "decodeBody r = (if maxBodyBytes < rq_body_size r then None else rq_body r)"

definition UserIDFrom :: "'a request \<Rightarrow> string" where "UserIDFrom r = rq_user r"
definition TenantIDFrom :: "'a request \<Rightarrow> string" where "TenantIDFrom r = rq_tenant r"
definition APIKeyIDFrom :: "'a request \<Rightarrow> string" where "APIKeyIDFrom r = rq_api_key r"

text \<open>\<open>requestTenant\<close> of \<open>handlers/executions.go\<close>.\<close>

definition requestTenant :: "'a request \<Rightarrow> string" where
  "requestTenant r = (if TenantIDFrom r \<noteq> [] then TenantIDFrom r else rq_tenant_header r)"

text \<open>A string field with \<open>omitempty\<close>.\<close>

definition omitempty :: "string \<Rightarrow> string \<Rightarrow> (string \<times> json) list" where
  "omitempty k s = (if s = [] then [] else [(k, JString s)])"

lemma writeErr_code [simp]: "rs_code (writeErr c m) = c"
  by (simp add: writeErr_def writeJSON_def)

lemma writeJSON_sel [simp]: "rs_code (writeJSON c v) = c" "rs_body (writeJSON c v) = v"
  by (simp_all add: writeJSON_def)

text \<open>An unauthenticated request for a tenant, with a short body.\<close>

definition plain_request :: "string \<Rightarrow> 'a option \<Rightarrow> 'a request" where
  "plain_request tenant body =
     \<lparr>rq_authorization = [], rq_tenant_header = tenant, rq_request_id = [], rq_path_id = [],
      rq_path_key = [], rq_limit = [], rq_offset = [], rq_user = [], rq_tenant = [],
      rq_api_key = [], rq_body_size = 2, rq_body = body\<rparr>"

lemma decodeBody_short [simp]: "rq_body_size r = 2 \<Longrightarrow> decodeBody r = rq_body r"
  by (simp add: decodeBody_def maxBodyBytes_def)

lemma decodeBody_plain [simp]: "decodeBody (plain_request tenant body) = body"
  by (simp add: plain_request_def decodeBody_short)

end
