(* ===== verification/Exec_Handlers.thy ===== *)
theory Exec_Handlers
  imports Http Webhooks
begin

section \<open>The execution handlers\<close>

text \<open>
  \<open>internal/http/handlers/executions.go\<close>: submitting, listing and reading executions. The
  handler is wired as in \<open>NewRouter\<close>: a publisher (NATS, or the one that always fails), the
  quota checker or none, and whether webhooks are on.
\<close>

definition DefaultTimeoutS :: int where "DefaultTimeoutS = 2"
definition MinTimeoutS :: int where "MinTimeoutS = 1"
definition MaxTimeoutS :: int where "MaxTimeoutS = 60"
definition MaxSourceBytes :: nat where "MaxSourceBytes = 100 * 1024"
definition DefaultListSize :: int where "DefaultListSize = 20"
definition MaxListSize :: int where "MaxListSize = 100"

record executions_handler =
  eh_publish :: "submit_message \<Rightarrow> world \<Rightarrow> unit result \<times> world"
  eh_webhooks_enabled :: bool
  eh_allow_private :: bool
  eh_quota :: bool

record create_request =
  ce_tenant_id :: string
  ce_language :: string
  ce_source :: string
  ce_stdin :: string
  ce_timeout_s :: int
  ce_webhook_url :: string

subsection \<open>Submit\<close>

text \<open>
  The checks before anything is stored, in the order of the code; the last ones may consult the
  DNS. The result is the tenant, the request with its language and timeout normalised, and the
  parameters of the insert.
\<close>

definition actor :: "ext \<Rightarrow> 'a request \<Rightarrow> response + uuid option" where
  "actor x r =
     (if UserIDFrom r = [] then Inr None
      else (case ParsePg x (UserIDFrom r) of
          Inl _ \<Rightarrow> Inl (writeErr 401 ''invalid user identity'')
        | Inr u \<Rightarrow> Inr u))"

definition exec_params ::
    "ext \<Rightarrow> 'a request \<Rightarrow> string \<Rightarrow> create_request \<Rightarrow> response + create_execution_params" where
  "exec_params x r tenant req =
     (case ParsePg x tenant of
        Inl _ \<Rightarrow> Inl (writeErr 400 ''invalid X-Tenant-ID'')
      | Inr tid \<Rightarrow>
          (case actor x r of
             Inl resp \<Rightarrow> Inl resp
           | Inr u \<Rightarrow>
               Inr \<lparr>cp_tenant_id = tid, cp_language = ce_language req, cp_source = ce_source req,
                    cp_stdin = ce_stdin req, cp_timeout_s = to_int32 (ce_timeout_s req),
                    cp_webhook_url = (if ce_webhook_url req = [] then None else Some (ce_webhook_url req)),
                    cp_submitted_by_user_id = u,
                    cp_submitted_by_api_key_id =
                      (if APIKeyIDFrom r = [] then None else Some (APIKeyIDFrom r))\<rparr>))"

definition check_webhook ::
    "ext \<Rightarrow> executions_handler \<Rightarrow> string \<Rightarrow> world \<Rightarrow> response option \<times> world" where
  "check_webhook x h url w =
     (if url = [] then (None, w)
      else if \<not> eh_webhooks_enabled h
        then (Some (writeErr 503 ''webhooks are not configured on this server''), w)
      else (case ValidateCallbackURL x url (eh_allow_private h) w of (v, w1) \<Rightarrow>
        (case v of Inl _ \<Rightarrow> Some (writeErr 400 ''invalid webhook_url'') | Inr _ \<Rightarrow> None, w1)))"

definition validate ::
    "ext \<Rightarrow> executions_handler \<Rightarrow> create_request request \<Rightarrow> world
      \<Rightarrow> (response + string \<times> create_request \<times> create_execution_params) \<times> world" where
  "validate x h r w =
     (case decodeBody r of
        None \<Rightarrow> (Inl (writeErr 400 ''invalid JSON body''), w)
      | Some req0 \<Rightarrow>
          let tenant = requestTenant r;
              lang = ToLower (x_lower x) (TrimSpace (ce_language req0));
              timeout = (if ce_timeout_s req0 = 0 then DefaultTimeoutS else ce_timeout_s req0);
              req = req0\<lparr>ce_language := lang, ce_timeout_s := timeout\<rparr>
          in if tenant = [] then (Inl (writeErr 400 ''X-Tenant-ID is required''), w)
             else if ce_tenant_id req0 \<noteq> [] \<and> ce_tenant_id req0 \<noteq> tenant
               then (Inl (writeErr 403 ''tenant_id does not match X-Tenant-ID''), w)
             else if \<not> ValidLanguage lang then (Inl (writeErr 400 ''unsupported language''), w)
             else if TrimSpace (ce_source req) = [] then (Inl (writeErr 400 ''source is required''), w)
             else if MaxSourceBytes < length (ce_source req) \<or> MaxSourceBytes < length (ce_stdin req)
               then (Inl (writeErr 400 ''source or stdin too large''), w)
             else if timeout < MinTimeoutS \<or> MaxTimeoutS < timeout
               then (Inl (writeErr 400 ''timeout_s must be 1-60''), w)
             else (case check_webhook x h (ce_webhook_url req) w of (bad, w1) \<Rightarrow>
               case bad of
                 Some resp \<Rightarrow> (Inl resp, w1)
               | None \<Rightarrow>
                   (case exec_params x r tenant req of
                      Inl resp \<Rightarrow> (Inl resp, w1)
                    | Inr params \<Rightarrow> (Inr (tenant, req, params), w1))))"

text \<open>The insert, through the quota checker when there is one, and past it when it fails.\<close>

definition store_execution ::
    "create_execution_params \<Rightarrow> world \<Rightarrow> (response + create_execution_row) \<times> world" where
  "store_execution params w =
     (case db_call (CreateExecution params) w of (r, w1) \<Rightarrow>
        (case r of
           Inl _ \<Rightarrow> Inl (writeErr 500 ''could not create execution'')
         | Inr row \<Rightarrow> Inr row, w1))"

definition denied :: "decision \<Rightarrow> response" where
  "denied d = (writeErr 429 (dc_reason d))\<lparr>rs_retry_after := Some (dc_retry_after d)\<rparr>"

definition insert_execution ::
    "ext \<Rightarrow> executions_handler \<Rightarrow> string \<Rightarrow> create_execution_params \<Rightarrow> world
      \<Rightarrow> (response + create_execution_row) \<times> world" where
  "insert_execution x h tenant params w =
     (if eh_quota h
      then (case CheckAndCreate x (NewPostgresChecker None) tenant params w of (q, w1) \<Rightarrow>
        case q of
          Inl _ \<Rightarrow> store_execution params w1
        | Inr rd \<Rightarrow>
            (case fst rd of
               Some row \<Rightarrow> (Inr row, w1)
             | None \<Rightarrow> (Inl (denied (snd rd)), w1)))
      else store_execution params w)"

definition submit_msg :: "ext \<Rightarrow> string \<Rightarrow> create_request \<Rightarrow> create_execution_row \<Rightarrow> submit_message" where
  "submit_msg x tenant req row =
     \<lparr>sm_execution_id = PgToString x (cr_id row), sm_tenant_id = tenant, sm_language = ce_language req\<rparr>"

definition Create_execution :: "ext \<Rightarrow> executions_handler \<Rightarrow> create_request handler" where
  "Create_execution x h r w =
     (case validate x h r w of (v, w1) \<Rightarrow>
        case v of
          Inl resp \<Rightarrow> (resp, w1)
        | Inr a \<Rightarrow>
            (case a of (tenant, req, params) \<Rightarrow>
              (case insert_execution x h tenant params w1 of (i, w2) \<Rightarrow>
                case i of
                  Inl resp \<Rightarrow> (resp, w2)
                | Inr row \<Rightarrow>
                    (case eh_publish h (submit_msg x tenant req row) w2 of (p, w3) \<Rightarrow>
                      case p of
                        Inl _ \<Rightarrow>
                          (case db_call (SetExecutionFailed (cr_id row) ''submit queue unavailable'') w3 of
                            (_, w4) \<Rightarrow>
                              (writeErr 502 ''submit queue unavailable, execution failed'', w4))
                      | Inr _ \<Rightarrow>
                          (writeJSON 202 (JObject
                             [(''created_at'', JTime (cr_created_at row)),
                              (''id'', JString (PgToString x (cr_id row))),
                              (''status'', JString (cr_status row))]), w3)))))"

subsection \<open>List and get\<close>

definition pageParams :: "'a request \<Rightarrow> response + int \<times> int" where
  "pageParams r =
     (let limit = (if rq_limit r = [] then Inr DefaultListSize
                   else case Atoi (rq_limit r) of
                       None \<Rightarrow> Inl (writeErr 400 ''invalid limit'')
                     | Some n \<Rightarrow>
                         if n < 1 then Inl (writeErr 400 ''invalid limit'')
                         else Inr (to_int32 (if MaxListSize < n then MaxListSize else n)));
          offset = (if rq_offset r = [] then Inr 0
                    else case Atoi (rq_offset r) of
                        None \<Rightarrow> Inl (writeErr 400 ''invalid offset'')
                      | Some n \<Rightarrow>
                          if n < 0 then Inl (writeErr 400 ''invalid offset'') else Inr (to_int32 n))
      in case limit of
           Inl resp \<Rightarrow> Inl resp
         | Inr l \<Rightarrow> (case offset of Inl resp \<Rightarrow> Inl resp | Inr off \<Rightarrow> Inr (l, off)))"

definition list_item :: "ext \<Rightarrow> list_row \<Rightarrow> json" where
  "list_item x row = JObject
     [(''id'', JString (PgToString x (lr_id row))), (''language'', JString (lr_language row)),
      (''status'', JString (lr_status row)), (''exit_code'', JNull),
      (''created_at'', JTime (lr_created_at row)), (''updated_at'', JTime (lr_updated_at row))]"

definition List_executions :: "ext \<Rightarrow> unit handler" where
  "List_executions x r w =
     (let tenant = requestTenant r
      in if tenant = [] then (writeErr 400 ''X-Tenant-ID is required'', w)
         else (case ParsePg x tenant of
             Inl _ \<Rightarrow> (writeErr 400 ''invalid X-Tenant-ID'', w)
           | Inr tid \<Rightarrow>
               (case pageParams r of
                  Inl resp \<Rightarrow> (resp, w)
                | Inr lo \<Rightarrow>
                    (case db_call (ListExecutions tid (fst lo) (snd lo)) w of (rows, w1) \<Rightarrow>
                      (case rows of
                         Inl _ \<Rightarrow> writeErr 500 ''could not list executions''
                       | Inr rs \<Rightarrow> writeJSON 200 (JObject
                           [(''executions'', JArray (map (list_item x) rs)),
                            (''limit'', JInt (fst lo)), (''offset'', JInt (snd lo))]), w1)))))"

definition execution_json :: "ext \<Rightarrow> get_row \<Rightarrow> json" where
  "execution_json x row = JObject
     ([(''id'', JString (PgToString x (gr_id row)))]
      @ omitempty ''tenant_id'' (PgToString x (gr_tenant_id row))
      @ [(''language'', JString (gr_language row)), (''status'', JString (gr_status row))]
      @ omitempty ''source'' (gr_source row) @ omitempty ''stdin'' (gr_stdin row)
      @ omitempty ''stdout'' (gr_stdout row) @ omitempty ''stderr'' (gr_stderr row)
      @ [(''exit_code'', case gr_exit_code row of None \<Rightarrow> JNull | Some n \<Rightarrow> JInt n),
         (''created_at'', JTime (gr_created_at row)), (''updated_at'', JTime (gr_updated_at row))])"

definition Get_execution :: "ext \<Rightarrow> unit handler" where
  "Get_execution x r w =
     (let tenant = requestTenant r
      in if tenant = [] then (writeErr 400 ''X-Tenant-ID is required'', w)
         else (case ParsePg x tenant of
             Inl _ \<Rightarrow> (writeErr 400 ''invalid X-Tenant-ID'', w)
           | Inr tid \<Rightarrow>
               (case ParsePg x (rq_path_id r) of
                  Inl _ \<Rightarrow> (writeErr 400 ''invalid execution id'', w)
                | Inr i \<Rightarrow>
                    (case db_call (GetExecution i tid) w of (q, w1) \<Rightarrow>
                      (case q of
                         Inl e \<Rightarrow> (if e = NoRows then writeErr 404 ''execution not found''
                                   else writeErr 500 ''could not get execution'')
                       | Inr row \<Rightarrow> writeJSON 200 (execution_json x row), w1)))))"

text \<open>The handler as \<open>NewRouter\<close> wires it; without NATS it has the publisher that fails.\<close>

definition new_exec_handler :: "bool \<Rightarrow> string \<Rightarrow> bool \<Rightarrow> bool \<Rightarrow> executions_handler" where
  "new_exec_handler nats secret priv quotas =
     \<lparr>eh_publish = (if nats then PublishSubmit else errPublisher), eh_webhooks_enabled = (secret \<noteq> []),
      eh_allow_private = priv, eh_quota = quotas\<rparr>"

subsection \<open>What the checks establish\<close>

lemma exec_params_Inr:
  assumes "exec_params x r tenant req = Inr params"
  shows "\<exists>tid. x_uuid_parse x tenant = Some tid \<and> cp_tenant_id params = Some tid"
    and "cp_language params = ce_language req" and "cp_source params = ce_source req"
    and "cp_stdin params = ce_stdin req" and "cp_timeout_s params = to_int32 (ce_timeout_s req)"
  using assms by (auto simp: exec_params_def ParsePg_Inr split: sum.splits)

lemma validate_Inr:
  assumes "validate x h r w = (Inr (tenant, req, params), w1)"
  shows "tenant = requestTenant r" and "params_ok params" and "exec_params x r tenant req = Inr params"
    and "\<exists>req0. decodeBody r = Some req0 \<and> ce_source req = ce_source req0 \<and> ce_stdin req = ce_stdin req0 \<and> requestTenant r \<noteq> []"
proof -
  from assms obtain req0 where b: "decodeBody r = Some req0"
    by (auto simp: validate_def split: option.splits)
  with assms have v: "tenant = requestTenant r" "exec_params x r tenant req = Inr params"
    "ValidLanguage (ce_language req)" "length (ce_source req) \<le> MaxSourceBytes"
    "length (ce_stdin req) \<le> MaxSourceBytes" "MinTimeoutS \<le> ce_timeout_s req" "ce_timeout_s req \<le> MaxTimeoutS"
    by (auto simp: validate_def Let_def split: if_splits prod.splits option.splits sum.splits)
  then show "tenant = requestTenant r" "exec_params x r tenant req = Inr params" by simp_all
  from assms b show "\<exists>req0. decodeBody r = Some req0 \<and> ce_source req = ce_source req0 \<and> ce_stdin req = ce_stdin req0 \<and> requestTenant r \<noteq> []"
    by (auto simp: validate_def Let_def split: if_splits prod.splits option.splits sum.splits)
  from v(6,7) have "to_int32 (ce_timeout_s req) = ce_timeout_s req"
    by (intro to_int32_id) (simp_all add: MinTimeoutS_def MaxTimeoutS_def)
  with v exec_params_Inr [OF v(2)] show "params_ok params"
    by (simp add: params_ok_def MaxSourceBytes_def MinTimeoutS_def MaxTimeoutS_def)
qed

lemma validate_Inl: "validate x h r w = (Inl resp, w1) \<Longrightarrow> rs_code resp \<in> {400, 401, 403, 503}"
  by (auto simp: validate_def check_webhook_def exec_params_def actor_def Let_def
      split: if_splits prod.splits option.splits sum.splits)

lemma check_webhook_same: "same_io w0 w \<Longrightarrow> keeps (same_io w0) (check_webhook x h u w)"
  unfolding check_webhook_def by (intro keeps_bind keeps_rules ValidateCallbackURL_same)

lemma validate_same: "same_io w0 w \<Longrightarrow> keeps (same_io w0) (validate x h r w)"
  unfolding validate_def Let_def by (intro keeps_bind keeps_rules check_webhook_same)

context rely_guarantee
begin

lemma check_webhook_keeps: "safe R d0 w \<Longrightarrow> keeps (safe R d0) (check_webhook x h u w)"
  unfolding check_webhook_def by (intro keeps_bind keeps_rules ValidateCallbackURL_keeps)

lemma validate_keeps: "safe R d0 w \<Longrightarrow> keeps (safe R d0) (validate x h r w)"
  unfolding validate_def Let_def by (intro keeps_bind keeps_rules check_webhook_keeps)

end

subsection \<open>Guarantee\<close>

text \<open>The submit handler over a store contract and a publisher.\<close>

locale submit_gateway = store_client R + submit_publisher "eh_publish h" for R and h :: executions_handler
begin

lemma publish_keeps: "safe R d0 w \<Longrightarrow> keeps (safe R d0) (eh_publish h m w)"
  by (rule publish_safe) (blast intro: R_trans R_refl)+

lemma store_execution_keeps:
  "params_ok params \<Longrightarrow> safe R d0 w \<Longrightarrow> keeps (safe R d0) (store_execution params w)"
  unfolding store_execution_def by (intro keeps_bind keeps_rules db_call_keeps store_rules)

lemma insert_execution_keeps:
  "params_ok params \<Longrightarrow> safe R d0 w \<Longrightarrow> keeps (safe R d0) (insert_execution x h tenant params w)"
  unfolding insert_execution_def
  by (intro keeps_bind keeps_rules CheckAndCreate_keeps store_execution_keeps)

lemma Create_keeps:
  assumes "safe R d0 w"
  shows "keeps (safe R d0) (Create_execution x h r w)"
  unfolding Create_execution_def
  by (intro keeps_bind keeps_triple keeps_rules validate_keeps insert_execution_keeps publish_keeps
      db_call_keeps store_rules assms) (auto dest: validate_Inr)

end

lemma exec_publisher: "submit_publisher (eh_publish (new_exec_handler nats secret priv quotas))"
  by (simp add: new_exec_handler_def nats.submit_publisher_axioms no_nats.submit_publisher_axioms)

interpretation gateway: submit_gateway db_path "new_exec_handler nats secret priv quotas"
  for nats secret priv quotas
  by (simp add: submit_gateway_def path.store_client_axioms exec_publisher)

subsection \<open>Outcomes of a submit\<close>

lemma validate_later: "later w0 w \<Longrightarrow> keeps (later w0) (validate x h r w)"
  unfolding validate_def check_webhook_def Let_def
  by (intro keeps_bind keeps_rules ValidateCallbackURL_later; simp)

lemma store_execution_alone:
  assumes "obeys (=) w" and "clear w" and "store_execution params w = (i, w')"
  shows "case i of Inl resp \<Rightarrow> rs_code resp = 500 \<and> db w' = db w
    | Inr row \<Rightarrow> \<exists>t u. CreateExecution params t u (db w) = (Inr row, db w')"
proof -
  obtain e w1 where t: "tick w = (e, w1)" by (metis prod.exhaust)
  have "ev_fault e \<noteq> Ambiguous" using tick_clear [OF assms(2) t] by simp
  with assms(3) t alone_tick [OF assms(1) t] show ?thesis
    by (auto simp: store_execution_def db_call_def split: fault.splits sum.splits prod.splits
        dest: failed_stmt_unchanged(1)) blast
qed

lemma insert_execution_alone:
  assumes "obeys (=) w" and "clear w" and "insert_execution x h tenant params w = (i, w')"
  shows "case i of Inl resp \<Rightarrow> rs_code resp \<in> {429, 500} \<and> db w' = db w
    | Inr row \<Rightarrow> \<exists>t u. CreateExecution params t u (db w) = (Inr row, db w')"
proof (cases "eh_quota h")
  case False
  with assms(3) store_execution_alone [OF assms(1,2)] show ?thesis
    by (fastforce simp: insert_execution_def split: sum.splits)
next
  case True
  obtain q w1 where q: "CheckAndCreate x (NewPostgresChecker None) tenant params w = (q, w1)" by (metis prod.exhaust)
  have l: "later w w1" using CheckAndCreate_io(2) [of w w x "NewPostgresChecker None" tenant params] q by (simp add: keeps_def)
  obtain e v where t: "tick w = (e, v)" by (metis prod.exhaust)
  then have v: "db v = db w" using alone_tick [OF assms(1) t] by simp
  note eff = CheckAndCreate_effect [OF q]
  show ?thesis
  proof (cases q)
    case (Inl err)
    with eff t v assms(2) have "db w1 = db w" by auto
    moreover have "store_execution params w1 = (i, w')"
      using assms(3) q Inl True by (simp add: insert_execution_def)
    ultimately show ?thesis
      using store_execution_alone [OF later_obeys [OF l assms(1)] later_clear [OF l assms(2)]]
      by (fastforce split: sum.splits)
  next
    case (Inr rd)
    obtain row dec where rd: "rd = (row, dec)" by (metis prod.exhaust)
    show ?thesis
    proof (cases row)
      case None
      with eff t v Inr rd have "db w1 = db w" by auto
      with assms(3) q Inr rd None True show ?thesis
        by (auto simp: insert_execution_def denied_def writeErr_def writeJSON_def)
    next
      case (Some a)
      with eff t v Inr rd have "\<exists>t u. CreateExecution params t u (db w) = (Inr a, db w1)"
        by (auto simp: inserted_def)
      with assms(3) q Inr rd Some True show ?thesis by (auto simp: insert_execution_def) blast
    qed
  qed
qed

lemma insert_execution_io:
  "same_io w0 w \<Longrightarrow> keeps (same_io w0) (insert_execution x h tenant params w)"
  "later w0 w \<Longrightarrow> keeps (later w0) (insert_execution x h tenant params w)"
  unfolding insert_execution_def store_execution_def
  by (intro keeps_bind keeps_rules call_same call_later CheckAndCreate_io; simp)+

lemma Create_cases:
  assumes "Create_execution x h r w = (resp, w')"
  obtains (rejected) "validate x h r w = (Inl resp, w')"
  | (not_stored) tenant req params w1 where "validate x h r w = (Inr (tenant, req, params), w1)"
      "insert_execution x h tenant params w1 = (Inl resp, w')"
  | (not_queued) tenant req params w1 row w2 e w3 q where "validate x h r w = (Inr (tenant, req, params), w1)"
      "insert_execution x h tenant params w1 = (Inr row, w2)"
      "eh_publish h (submit_msg x tenant req row) w2 = (Inl e, w3)"
      "db_call (SetExecutionFailed (cr_id row) ''submit queue unavailable'') w3 = (q, w')"
      "rs_code resp = 502"
  | (queued) tenant req params w1 row w2 where "validate x h r w = (Inr (tenant, req, params), w1)"
      "insert_execution x h tenant params w1 = (Inr row, w2)"
      "eh_publish h (submit_msg x tenant req row) w2 = (nil_err, w')" "rs_code resp = 202"
      "rs_body resp = JObject [(''created_at'', JTime (cr_created_at row)),
         (''id'', JString (PgToString x (cr_id row))), (''status'', JString (cr_status row))]"
proof -
  obtain v w1 where v: "validate x h r w = (v, w1)" by (metis prod.exhaust)
  show thesis
  proof (cases v)
    case (Inl e)
    with assms v rejected show thesis by (simp add: Create_execution_def)
  next
    case (Inr a)
    obtain tenant req params where a: "a = (tenant, req, params)" by (metis prod.exhaust)
    obtain i w2 where i: "insert_execution x h tenant params w1 = (i, w2)" by (metis prod.exhaust)
    show thesis
    proof (cases i)
      case (Inl e)
      with assms v Inr a i not_stored show thesis by (simp add: Create_execution_def)
    next
      case (Inr row)
      obtain p w3 where p: "eh_publish h (submit_msg x tenant req row) w2 = (p, w3)" by (metis prod.exhaust)
      obtain q w4 where q: "db_call (SetExecutionFailed (cr_id row) ''submit queue unavailable'') w3 = (q, w4)"
        by (metis prod.exhaust)
      show thesis
        using assms v \<open>v = Inr a\<close> a i Inr p q not_queued queued
        by (cases p) (auto simp: Create_execution_def)
    qed
  qed
qed

text \<open>Publishing by either publisher, without interference.\<close>

lemma publish_alone:
  assumes "obeys (=) w" and "eh_publish (new_exec_handler nats secret priv quotas) m w = (p, w')"
  shows "db w' = db w" and "later w w'"
    and "p = nil_err \<Longrightarrow> published w' = published w @ [(SubjectForSubmit (sm_language m), Submit m)]"
    and "p = Inl e \<Longrightarrow> clear w \<Longrightarrow> published w' = published w"
proof -
  note pub = exec_publisher [of nats secret priv quotas]
  show "db w' = db w"
    using submit_publisher.publish_safe [OF pub, of "(=)" "db w" w m] assms by (simp add: safe_def keeps_def)
  show "later w w'"
    using submit_publisher.publish_later [OF pub, of w w m] assms(2) by (simp add: keeps_def)
  show "p = nil_err \<Longrightarrow> published w' = published w @ [(SubjectForSubmit (sm_language m), Submit m)]"
    using submit_publisher.publish_ok [OF pub] assms(2) by blast
  show "p = Inl e \<Longrightarrow> clear w \<Longrightarrow> published w' = published w"
    using submit_publisher.publish_err [OF pub] assms(2) by blast
qed

text \<open>The state in which the insert finds the world: the checks have changed nothing.\<close>

lemma validate_alone:
  assumes "obeys (=) w" and "validate x h r w = (v, w1)"
  shows "db w1 = db w" and "same_io w w1" and "later w w1"
  using alone.validate_keeps [OF alone.safe_start [OF assms(1)], of x h r] validate_same [of w w x h r]
    validate_later [of w w x h r] assms(2) by (simp_all add: keeps_def safe_def)

lemma insert_alone_io:
  assumes "insert_execution x h tenant params w = (i, w')"
  shows "same_io w w'" and "later w w'"
  using insert_execution_io [of w w x h tenant params] assms by (simp_all add: keeps_def)

text \<open>A request that passed the checks and was inserted has its row in the table, and nothing else.\<close>

lemma stored_alone:
  assumes "obeys (=) w" and "clear w" and "validate x h r w = (Inr (tenant, req, params), w1)"
    and "insert_execution x h tenant params w1 = (Inr row, w2)"
  shows "obeys (=) w2" and "clear w2" and "published w2 = published w"
    and "\<exists>t u. CreateExecution params t u (db w) = (Inr row, db w2)"
proof -
  note v = validate_alone [OF assms(1,3)] and io = insert_alone_io [OF assms(4)]
  have w1: "obeys (=) w1" "clear w1" using v(3) assms(1,2) later_obeys later_clear by blast+
  show "obeys (=) w2" and "clear w2" using io(2) w1 later_obeys later_clear by blast+
  show "published w2 = published w" using v(2) io(1) by (simp add: same_io_def)
  show "\<exists>t u. CreateExecution params t u (db w) = (Inr row, db w2)"
    using insert_execution_alone [OF w1 assms(4)] v(1) by auto
qed

text \<open>A submit with nobody else around, answer by answer.\<close>

lemma Create_alone:
  assumes "obeys (=) w" and "clear w"
    and "Create_execution x (new_exec_handler nats secret priv quotas) r w = (resp, w')"
  shows "rs_code resp = 202 \<and> (\<exists>req0 req params row t u.
        decodeBody r = Some req0 \<and> ce_source req = ce_source req0 \<and> ce_stdin req = ce_stdin req0
        \<and> requestTenant r \<noteq> [] \<and> exec_params x r (requestTenant r) req = Inr params \<and> params_ok params
        \<and> CreateExecution params t u (db w) = (Inr row, db w')
        \<and> rs_body resp = JObject [(''created_at'', JTime (cr_created_at row)),
             (''id'', JString (PgToString x (cr_id row))), (''status'', JString (cr_status row))]
        \<and> published w' = published w @ [(SubjectForSubmit (ce_language req),
             Submit (submit_msg x (requestTenant r) req row))])
    \<or> rs_code resp = 502 \<and> published w' = published w \<and> (\<exists>params row t u d1.
        params_ok params \<and> CreateExecution params t u (db w) = (Inr row, d1)
        \<and> (db w' = d1 \<or> (\<exists>t'. db w' = snd (SetExecutionFailed (cr_id row) ''submit queue unavailable'' t' 0 d1))))
    \<or> rs_code resp \<in> {400, 401, 403, 429, 500, 503} \<and> db w' = db w \<and> published w' = published w"
  using assms(3)
proof (cases rule: Create_cases)
  case rejected
  with validate_Inl [OF rejected] validate_alone [OF assms(1) rejected] show ?thesis
    by (auto simp: same_io_def)
next
  case (not_stored tenant req params w1)
  note v = validate_alone [OF assms(1) not_stored(1)]
  with insert_execution_alone [OF later_obeys [OF v(3) assms(1)] later_clear [OF v(3) assms(2)] not_stored(2)]
    insert_alone_io [OF not_stored(2)]
  show ?thesis by (auto simp: same_io_def)
next
  case (not_queued tenant req params w1 row w2 e w3 q)
  note w2 = stored_alone [OF assms(1,2) not_queued(1,2)]
  note p = publish_alone [OF w2(1) not_queued(3)]
  obtain t' where "db w' = db w3 \<or> db w' = snd (SetExecutionFailed (cr_id row) ''submit queue unavailable'' t' 0 (db w3))"
    using db_call_alone(2) [OF later_obeys [OF p(2) w2(1)] not_queued(4)]
    by (auto simp: SetExecutionFailed_def)
  moreover have "published w' = published w"
    using w2(2,3) p(4) db_call_same [OF not_queued(4)] by (simp add: same_io_def)
  ultimately show ?thesis using not_queued(5) validate_Inr(2) [OF not_queued(1)] w2(4) p(1) by metis
next
  case (queued tenant req params w1 row w2)
  note w2 = stored_alone [OF assms(1,2) queued(1,2)]
  note p = publish_alone [OF w2(1) queued(3)]
  have "published w' = published w @ [(SubjectForSubmit (ce_language req), Submit (submit_msg x tenant req row))]"
    using w2(3) p(3) by (simp add: submit_msg_def)
  with queued(4,5) validate_Inr [OF queued(1)] w2(4) p(1) show ?thesis by metis
qed

subsection \<open>Properties\<close>


definition sample_request :: create_request where
  "sample_request = \<lparr>ce_tenant_id = [], ce_language = ''Python'', ce_source = ''print(1)'', ce_stdin = [],
     ce_timeout_s = 0, ce_webhook_url = []\<rparr>"

lemma sample_submit:
  assumes "tn \<noteq> []" and "x_uuid_parse x tn = Some 2"
  obtains resp w' where "Create_execution x (new_exec_handler True [] False False)
      (plain_request tn (Some sample_request)) sample_world = (resp, w')" and "rs_code resp = 202" and "script w' = []"
proof -
  have t: "TrimSpace ''Python'' = ''Python''" "TrimSpace ''print(1)'' = ''print(1)''"
    by (rule TrimSpace_graphic, simp add: graphic_def)+
  have "char_of (112 :: nat) = CHR ''p''" by (simp add: char_of_eq_iff)
  then have l: "ToLower ul ''Python'' = ''python''" for ul by (simp add: ascii_lower_def)
  have k: "text_ok ''python''" "text_ok ''print(1)''" "text_ok []" by (simp_all add: text_ok_ascii is_ascii_def)
  let ?p = "\<lparr>cp_tenant_id = Some 2, cp_language = ''python'', cp_source = ''print(1)'', cp_stdin = [], cp_timeout_s = 2,
      cp_webhook_url = None, cp_submitted_by_user_id = None, cp_submitted_by_api_key_id = None\<rparr>"
  have v: "fst (validate x (new_exec_handler True [] False False) (plain_request tn (Some sample_request)) sample_world)
      = Inr (tn, sample_request\<lparr>ce_language := ''python'', ce_timeout_s := 2\<rparr>, ?p)"
    and vw: "snd (validate x (new_exec_handler True [] False False) (plain_request tn (Some sample_request)) sample_world)
      = sample_world"
    using assms
    by (simp_all add: validate_def plain_request_def sample_request_def Let_def t l requestTenant_def TenantIDFrom_def
      ValidLanguage_def SupportedLanguages_def check_webhook_def exec_params_def actor_def ParsePg_def UUIDToPg_def
      UserIDFrom_def APIKeyIDFrom_def DefaultTimeoutS_def MinTimeoutS_def MaxTimeoutS_def MaxSourceBytes_def to_int32_def)
  obtain resp w' where c: "Create_execution x (new_exec_handler True [] False False)
      (plain_request tn (Some sample_request)) sample_world = (resp, w')" by (metis prod.exhaust)
  have p: "params_text_ok ?p" using k by (simp add: params_text_ok_def)
  have "rs_code resp = 202 \<and> script w' = []"
    using c v vw
    by (auto simp: Create_execution_def split_beta insert_execution_def new_exec_handler_def store_execution_def
      db_call_quiet CreateExecution_def p actor_ok_def PublishSubmit_def js_publish_def writeJSON_def)
  with c that show thesis by blast
qed


text \<open>
  Whatever fails and whatever others do, the submit handler only issues the guarded
  statements of the store: the invariant of the tables holds afterwards, and no finished
  execution and no submitted request has changed.
\<close>

theorem create_guarantee:
  assumes "obeys db_path w" and "db_ok (db w)"
    and "Create_execution x (new_exec_handler nats secret priv quotas) r w = (resp, w')"
  shows "db_path (db w) (db w') \<and> db_ok (db w') \<and> db_le (db w) (db w')"
proof -
  have "safe db_path (db w) w'"
    using gateway.Create_keeps [OF path.safe_start [OF assms(1)], of x nats secret priv quotas r] assms(3)
    by (simp add: keeps_def)
  with assms(2) show ?thesis by (auto simp: safe_def dest: db_path_ok db_path_le)
qed

theorem create_guarantee_witness:
  "db_ok (db (snd (Create_execution sample_ext (new_exec_handler False [] False False)
       (plain_request ''2'' (Some sample_request)) sample_world)))"
  using create_guarantee [of sample_world, OF _ _ prod.collapse [symmetric]] quiet_obeys(1) sample_db_ok
  by (metis sample_world_sel(1,2))

text \<open>
  Property C30: an execution is only shown to its own tenant: a 200 answer carries the row of the
  path's id that belongs to the tenant of the request, and the handler changes nothing.
\<close>

theorem get_tenant_scoped:
  assumes "obeys (=) w" and "Get_execution x r w = (resp, w')" and "rs_code resp = 200"
  shows "db w' = db w \<and> (\<exists>e\<in>set (executions (db w)).
     x_uuid_parse x (rq_path_id r) = Some (e_id e) \<and> x_uuid_parse x (requestTenant r) = Some (e_tenant_id e)
     \<and> rs_body resp = execution_json x (get_row_of e))"
proof -
  from assms(2,3) obtain i tid where i: "ParsePg x (rq_path_id r) = Inr i" "ParsePg x (requestTenant r) = Inr tid"
    by (auto simp: Get_execution_def Let_def split: if_splits sum.splits prod.splits)
  obtain q w1 where q: "db_call (GetExecution i tid) w = (q, w1)" by (metis prod.exhaust)
  with assms(2,3) i obtain row where row: "q = Inr row" "w' = w1" "rs_body resp = execution_json x row"
    by (auto simp: Get_execution_def Let_def split: if_splits sum.splits)
  from db_call_alone(2) [OF assms(1) q] row obtain t u
    where f: "fst (GetExecution i tid t u (db w)) = Inr row" "db w' = db w" by auto
  then obtain e where "find (\<lambda>r. Some (e_id r) = i \<and> Some (e_tenant_id r) = tid) (executions (db w)) = Some e"
    "row = get_row_of e" by (auto simp: GetExecution_def split: option.splits)
  with find_SomeD row(3) i f(2) show ?thesis by (fastforce simp: ParsePg_Inr)
qed

theorem get_tenant_scoped_witness:
  "\<exists>e\<in>set (executions sample_db). e_tenant_id e = 2 \<and>
     rs_body (fst (Get_execution sample_ext ((plain_request ''2'' None)\<lparr>rq_path_id := ''1''\<rparr>) sample_world))
       = execution_json sample_ext (get_row_of e)"
proof -
  have c: "rs_code (fst (Get_execution sample_ext ((plain_request ''2'' None)\<lparr>rq_path_id := ''1''\<rparr>) sample_world)) = 200"
    by (simp add: Get_execution_def plain_request_def requestTenant_def TenantIDFrom_def ParsePg_def UUIDToPg_def
        sample_ext_def db_call_quiet GetExecution_def sample_exec_def Let_def)
  from get_tenant_scoped [OF _ prod.collapse [symmetric] c] show ?thesis
    by (auto simp: quiet_obeys plain_request_def requestTenant_def TenantIDFrom_def sample_ext_def)
qed

lemma pageParams_limit: "pageParams r = Inr (l, off) \<Longrightarrow> 1 \<le> l \<and> l \<le> MaxListSize"
  by (auto simp: pageParams_def Let_def DefaultListSize_def MaxListSize_def to_int32_id
      split: if_splits option.splits sum.splits)

text \<open>The page of a tenant: its rows, newest first.\<close>

definition tenant_page :: "uuid \<Rightarrow> int \<Rightarrow> int \<Rightarrow> db \<Rightarrow> execution list" where
  "tenant_page tid l off d =
     take (nat l) (drop (nat off) (sort_key (\<lambda>r. - e_created_at r)
       (filter (\<lambda>r. e_tenant_id r = tid) (executions d))))"

lemma tenant_page_props:
  "set (tenant_page tid l off d) \<subseteq> {e \<in> set (executions d). e_tenant_id e = tid}"
  "length (tenant_page tid l off d) \<le> nat l"
  "sorted_wrt (\<lambda>a b. e_created_at b \<le> e_created_at a) (tenant_page tid l off d)"
proof -
  show "set (tenant_page tid l off d) \<subseteq> {e \<in> set (executions d). e_tenant_id e = tid}"
    by (auto simp: tenant_page_def dest!: in_set_takeD in_set_dropD)
  show "length (tenant_page tid l off d) \<le> nat l" by (simp add: tenant_page_def)
  let ?s = "sort_key (\<lambda>r. - e_created_at r) (filter (\<lambda>r. e_tenant_id r = tid) (executions d))"
  have "sorted (map (\<lambda>r. - e_created_at r) ?s)" by (rule sorted_sort_key)
  then have "sorted_wrt (\<lambda>a b. e_created_at b \<le> e_created_at a) ?s" by (simp add: sorted_map)
  then show "sorted_wrt (\<lambda>a b. e_created_at b \<le> e_created_at a) (tenant_page tid l off d)"
    by (simp add: tenant_page_def sorted_wrt_take sorted_wrt_drop)
qed


lemmas list_eval = List_executions_def plain_request_def requestTenant_def TenantIDFrom_def ParsePg_def UUIDToPg_def
  db_call_quiet ListExecutions_def pageParams_def DefaultListSize_def Let_def


text \<open>
  An offset of 2147483648, which the parser accepts, becomes a negative 32-bit
  number that Postgres refuses: the listing answers 500 instead of an empty page.
\<close>

theorem list_offset_overflow:
  "rs_code (fst (List_executions sample_ext ((plain_request ''2'' None)\<lparr>rq_offset := ''2147483648''\<rparr>) sample_world)) = 500"
  by (simp add: list_eval Atoi_def is_digit_def digits_val_def to_int32_def)

end
