(* ===== verification/Auth.thy ===== *)
theory Auth
  imports Http
begin

section \<open>Passwords, tokens and API keys\<close>

text \<open>
  \<open>internal/auth/auth.go\<close>. bcrypt, the JWT library and SHA-256 are external; random bytes come
  from the script. \<open>x_jwt_parse\<close> is \<open>jwt.ParseWithClaims\<close> with a key function, a required
  audience and the current time; \<open>tok.Valid\<close> is true whenever it returns no error.
\<close>

definition AccessAudience :: string where "AccessAudience = ''runnix-access''"
definition RefreshAudience :: string where "RefreshAudience = ''runnix-refresh''"

definition HashPassword :: "ext \<Rightarrow> string \<Rightarrow> world \<Rightarrow> string result \<times> world" where
  "HashPassword x password w =
     (case tick w of (e, w1) \<Rightarrow>
        (case x_bcrypt_hash x (ev_rand e) 12 password of
           None \<Rightarrow> Inl (Failure ''bcrypt'')
         | Some h \<Rightarrow> Inr h, w1))"

definition CheckPassword :: "ext \<Rightarrow> string \<Rightarrow> string \<Rightarrow> unit result" where
  "CheckPassword x hash password =
     (if x_bcrypt_check x hash password then nil_err else Inl (Failure ''mismatch''))"

definition hmacKeyFunc :: "string \<Rightarrow> alg \<Rightarrow> string option" where
  "hmacKeyFunc secret m = (case m of HMAC \<Rightarrow> Some secret | OtherAlg _ \<Rightarrow> None)"

definition sign_result :: "string option \<Rightarrow> string result" where
  "sign_result s = (case s of None \<Rightarrow> Inl (Failure ''sign'') | Some t \<Rightarrow> Inr t)"

definition SignAccessToken :: "ext \<Rightarrow> string \<Rightarrow> string \<Rightarrow> tenant_claim list \<Rightarrow> world \<Rightarrow> string result" where
  "SignAccessToken x secret userID ts w =
     sign_result (x_jwt_sign x secret
       \<lparr>cl_subject = userID, cl_audience = [AccessAudience], cl_id = [], cl_issued_at = now w,
        cl_expires_at = now w + 15 * 60 * second, cl_tenants = ts\<rparr>)"

text \<open>
  \<open>uuid.New\<close> and \<open>uuid.NewString\<close>. They are also called inside a transaction, so the others do
  not act there.
\<close>

definition new_uuid :: "world \<Rightarrow> uuid \<times> world" where
  "new_uuid w = (case tx_tick w of (e, w1) \<Rightarrow> (ev_uuid e, w1))"

definition SignRefreshToken :: "ext \<Rightarrow> string \<Rightarrow> string \<Rightarrow> world \<Rightarrow> (string \<times> string) result \<times> world" where
  "SignRefreshToken x secret userID w =
     (let t = now w
      in case new_uuid w of (u, w1) \<Rightarrow>
        let jti = x_uuid_string x u
        in (case sign_result (x_jwt_sign x secret
               \<lparr>cl_subject = userID, cl_audience = [RefreshAudience], cl_id = jti, cl_issued_at = t,
                cl_expires_at = t + 7 * 24 * 3600 * second, cl_tenants = []\<rparr>) of
             Inl e \<Rightarrow> Inl e
           | Inr tok \<Rightarrow> Inr (tok, jti), w1))"

definition ParseAccessToken :: "ext \<Rightarrow> string \<Rightarrow> string \<Rightarrow> int \<Rightarrow> claims result" where
  "ParseAccessToken x secret token t =
     (case x_jwt_parse x (hmacKeyFunc secret) AccessAudience t token of
        None \<Rightarrow> Inl (Failure ''invalid access token'')
      | Some c \<Rightarrow> Inr c)"

definition ParseRefreshToken :: "ext \<Rightarrow> string \<Rightarrow> string \<Rightarrow> int \<Rightarrow> (string \<times> string) result" where
  "ParseRefreshToken x secret token t =
     (case x_jwt_parse x (hmacKeyFunc secret) RefreshAudience t token of
        None \<Rightarrow> Inl (Failure ''invalid refresh token'')
      | Some c \<Rightarrow>
          if cl_subject c = [] \<or> cl_id c = [] then Inl (Failure ''invalid refresh token'')
          else Inr (cl_subject c, cl_id c))"

text \<open>\<open>rand.Read\<close> into a buffer of \<open>n\<close> bytes.\<close>

definition rand_read :: "nat \<Rightarrow> world \<Rightarrow> string result \<times> world" where
  "rand_read n w =
     (case tick w of (e, w1) \<Rightarrow>
        (if ev_fault e = Done then Inr (take n (ev_rand e @ replicate n (CHR 0x00)))
         else Inl (Failure ''rand''), w1))"

definition GenerateAPIKey :: "world \<Rightarrow> (string \<times> string \<times> string) result \<times> world" where
  "GenerateAPIKey w =
     (case rand_read 16 w of (a, w1) \<Rightarrow>
        case a of
          Inl e \<Rightarrow> (Inl e, w1)
        | Inr idBytes \<Rightarrow>
            let keyID = hex_encode idBytes
            in (case rand_read 32 w1 of (b, w2) \<Rightarrow>
              case b of
                Inl e \<Rightarrow> (Inl e, w2)
              | Inr raw \<Rightarrow>
                  let secret = hex_encode raw
                  in (Inr (keyID, secret, ''sk_live_'' @ keyID @ ''.'' @ secret), w2)))"

definition HashAPIKeySecret :: "ext \<Rightarrow> string \<Rightarrow> string" where
  "HashAPIKeySecret x secret = hex_encode (x_sha256 x secret)"

definition ParseAPIKey :: "string \<Rightarrow> (string \<times> string) result" where
  "ParseAPIKey full =
     (case CutPrefix full ''sk_live_'' of (rest, ok) \<Rightarrow>
        if \<not> ok then Inl (Failure ''invalid API key format'')
        else (case Cut rest (CHR ''.'') of (keyID, secret, ok2) \<Rightarrow>
          if \<not> ok2 then Inl (Failure ''invalid API key format'')
          else if keyID = [] \<or> secret = [] then Inl (Failure ''invalid API key format'')
          else Inr (keyID, secret)))"

text \<open>\<open>subtle.ConstantTimeCompare\<close> decides equality.\<close>

definition EqualAPIKeyHash :: "string \<Rightarrow> string \<Rightarrow> bool" where
  "EqualAPIKeyHash a b \<longleftrightarrow> a = b"

subsection \<open>Lemmas\<close>

lemma rand_read_length: "rand_read n w = (Inr s, w') \<Longrightarrow> length s = n"
  by (auto simp: rand_read_def split: prod.splits if_splits)

lemma GenerateAPIKey_Inr:
  assumes "GenerateAPIKey w = (Inr (keyID, secret, full), w')"
  shows "\<exists>a b. length a = 16 \<and> length b = 32 \<and> keyID = hex_encode a \<and> secret = hex_encode b
    \<and> full = ''sk_live_'' @ keyID @ ''.'' @ secret"
proof -
  obtain a w1 where a: "rand_read 16 w = (a, w1)" by (metis prod.exhaust)
  obtain b w2 where b: "rand_read 32 w1 = (b, w2)" by (metis prod.exhaust)
  from assms a b obtain s t where s: "a = Inr s" "b = Inr t" "keyID = hex_encode s" "secret = hex_encode t"
    "full = ''sk_live_'' @ keyID @ ''.'' @ secret"
    by (auto simp: GenerateAPIKey_def Let_def split: sum.splits)
  with rand_read_length a b show ?thesis by blast
qed

lemma ParseAPIKey_format:
  "ParseAPIKey full = Inr (k, s) \<longleftrightarrow>
   full = ''sk_live_'' @ k @ ''.'' @ s \<and> CHR ''.'' \<notin> set k \<and> k \<noteq> [] \<and> s \<noteq> []"
proof
  assume p: "ParseAPIKey full = Inr (k, s)"
  then obtain rest where r: "CutPrefix full ''sk_live_'' = (rest, True)"
    by (auto simp: ParseAPIKey_def split: prod.splits if_splits)
  then have "full = ''sk_live_'' @ rest" by (rule CutPrefix_True)
  moreover from p r have c: "Cut rest (CHR ''.'') = (k, s, True)" "k \<noteq> []" "s \<noteq> []"
    by (auto simp: ParseAPIKey_def split: prod.splits if_splits)
  ultimately show "full = ''sk_live_'' @ k @ ''.'' @ s \<and> CHR ''.'' \<notin> set k \<and> k \<noteq> [] \<and> s \<noteq> []"
    using Cut_True [OF c(1)] by simp
next
  assume f: "full = ''sk_live_'' @ k @ ''.'' @ s \<and> CHR ''.'' \<notin> set k \<and> k \<noteq> [] \<and> s \<noteq> []"
  then have "CutPrefix full ''sk_live_'' = (k @ CHR ''.'' # s, True)" by (simp add: CutPrefix_def)
  with f Cut_append [of "CHR ''.''" k s] show "ParseAPIKey full = Inr (k, s)" by (simp add: ParseAPIKey_def)
qed

lemma GenerateAPIKey_parse:
  assumes "GenerateAPIKey w = (Inr (keyID, secret, full), w')"
  shows "ParseAPIKey full = Inr (keyID, secret)" "length keyID = 32" "length secret = 64"
proof -
  obtain a b where ab: "length a = 16" "length b = 32" "keyID = hex_encode a" "secret = hex_encode b"
    "full = ''sk_live_'' @ keyID @ ''.'' @ secret"
    using GenerateAPIKey_Inr [OF assms] by blast
  then show l: "length keyID = 32" "length secret = 64" by simp_all
  from l have "keyID \<noteq> []" "secret \<noteq> []" by auto
  with ab hex_no_dot show "ParseAPIKey full = Inr (keyID, secret)" by (simp add: ParseAPIKey_format)
qed

text \<open>Drawing random bytes leaves the tables to the others.\<close>

lemma GenerateAPIKey_alone:
  assumes "obeys (=) w" and "GenerateAPIKey w = (g, w1)"
  shows "db w1 = db w \<and> obeys (=) w1"
proof -
  have t: "obeys (=) v \<Longrightarrow> rand_read n v = (a, v1) \<Longrightarrow> db v1 = db v \<and> obeys (=) v1" for v n a v1
    by (auto simp: rand_read_def dest: alone_tick split: prod.splits)
  obtain a w2 where a: "rand_read 16 w = (a, w2)" by (metis prod.exhaust)
  obtain b w3 where b: "rand_read 32 w2 = (b, w3)" by (metis prod.exhaust)
  from assms(2) a b have "w1 = w2 \<or> w1 = w3"
    by (auto simp: GenerateAPIKey_def Let_def split: sum.splits)
  with t [OF assms(1) a] t [OF _ b] show ?thesis by auto
qed

subsection \<open>Properties\<close>

text \<open>
  A generated API key has an id of 32 and a secret of 64 hexadecimal digits, and
  parsing the key that is shown to the user gives back exactly that id and secret.
\<close>

theorem api_key_roundtrip:
  assumes "GenerateAPIKey w = (Inr (keyID, secret, full), w')"
  shows "ParseAPIKey full = Inr (keyID, secret) \<and> length keyID = 32 \<and> length secret = 64"
  using GenerateAPIKey_parse [OF assms] by simp

theorem api_key_roundtrip_witness:
  "\<exists>k s full w'. GenerateAPIKey sample_world = (Inr (k, s, full), w') \<and> ParseAPIKey full = Inr (k, s)"
proof -
  obtain k s full w' where g: "GenerateAPIKey sample_world = (Inr (k, s, full), w')"
    by (simp add: GenerateAPIKey_def rand_read_def Let_def)
  with api_key_roundtrip [OF g] show ?thesis by blast
qed

end
