(* ===== verification/Middleware.thy ===== *)
theory Middleware
  imports Auth
begin

section \<open>Authentication middleware\<close>

text \<open>
  \<open>internal/http/middleware/tenant.go\<close>, with \<open>APIKeysHandler.CheckAPIKey\<close> of
  \<open>handlers/apikeys.go\<close>, the key checker the router installs. A middleware either answers itself
  or passes the request on with the identity in its context. A checker is a function, or
  \<open>None\<close> for Go's \<open>nil\<close>.
\<close>

type_synonym membership_checker = "string \<Rightarrow> string \<Rightarrow> world \<Rightarrow> string option \<times> world"
type_synonym key_checker = "string \<Rightarrow> string \<Rightarrow> world \<Rightarrow> (string \<times> string) option \<times> world"
type_synonym 'a gate = "'a request \<Rightarrow> world \<Rightarrow> (response + 'a request) \<times> world"

text \<open>A handler behind a middleware.\<close>

definition guard :: "'a gate \<Rightarrow> 'a handler \<Rightarrow> 'a handler" where
  "guard g next r w =
     (case g r w of (v, w1) \<Rightarrow> case v of Inl resp \<Rightarrow> (resp, w1) | Inr r1 \<Rightarrow> next r1 w1)"

text \<open>\<open>RequestID\<close>: the id of the response.\<close>

definition RequestID :: "ext \<Rightarrow> 'a request \<Rightarrow> world \<Rightarrow> string \<times> world" where
  "RequestID x r w =
     (if rq_request_id r \<noteq> [] then (rq_request_id r, w)
      else (case new_uuid w of (u, w1) \<Rightarrow> (x_uuid_string x u, w1)))"

definition DBChecker :: "ext \<Rightarrow> membership_checker" where
  "DBChecker x userID tenantID w =
     (case x_uuid_parse x userID of
        None \<Rightarrow> (None, w)
      | Some uid \<Rightarrow>
          (case x_uuid_parse x tenantID of
             None \<Rightarrow> (None, w)
           | Some tid \<Rightarrow>
               (case db_call (CheckMembership (Some uid) (Some tid)) w of (r, w1) \<Rightarrow>
                  (case r of Inl _ \<Rightarrow> None | Inr role \<Rightarrow> Some role, w1))))"

definition CheckAPIKey :: "ext \<Rightarrow> key_checker" where
  "CheckAPIKey x keyID secretHash w =
     (case db_call (GetAPIKey keyID) w of (r, w1) \<Rightarrow>
        (case r of
           Inl _ \<Rightarrow> None
         | Inr key \<Rightarrow>
             if k_revoked_at key \<noteq> None then None
             else if \<not> EqualAPIKeyHash (k_secret_hash key) secretHash then None
             else Some (PgToString x (Some (k_user_id key)), PgToString x (Some (k_tenant_id key))), w1))"

definition RequireAuth :: "ext \<Rightarrow> string \<Rightarrow> membership_checker option \<Rightarrow> 'a gate" where
  "RequireAuth x secret check r w =
     (case CutPrefix (rq_authorization r) ''Bearer '' of (token, ok) \<Rightarrow>
        if \<not> ok then (Inl (writeErr 401 ''missing bearer token''), w)
        else (case ParseAccessToken x secret token (now w) of
            Inl _ \<Rightarrow> (Inl (writeErr 401 ''invalid token''), w)
          | Inr c \<Rightarrow>
              let tenantID = rq_tenant_header r;
                  pass = Inr (r\<lparr>rq_user := cl_subject c, rq_tenant := tenantID\<rparr>);
                  no = Inl (writeErr 403 ''not a member of tenant'')
              in if tenantID = [] then (Inl (writeErr 400 ''X-Tenant-ID is required''), w)
                 else if list_ex (\<lambda>tc. tc_id tc = tenantID) (cl_tenants c) then (pass, w)
                 else (case check of
                     None \<Rightarrow> (no, w)
                   | Some chk \<Rightarrow>
                       (case chk (cl_subject c) tenantID w of (m, w1) \<Rightarrow>
                          (case m of None \<Rightarrow> no | Some _ \<Rightarrow> pass, w1)))))"

definition RequireUser :: "ext \<Rightarrow> string \<Rightarrow> 'a gate" where
  "RequireUser x secret r w =
     (case CutPrefix (rq_authorization r) ''Bearer '' of (token, ok) \<Rightarrow>
        (if \<not> ok then Inl (writeErr 401 ''missing bearer token'')
         else (case ParseAccessToken x secret token (now w) of
             Inl _ \<Rightarrow> Inl (writeErr 401 ''invalid token'')
           | Inr c \<Rightarrow> Inr (r\<lparr>rq_user := cl_subject c\<rparr>)), w))"

definition RequireAuthWithAPIKeys ::
    "ext \<Rightarrow> string \<Rightarrow> membership_checker option \<Rightarrow> key_checker option \<Rightarrow> 'a gate" where
  "RequireAuthWithAPIKeys x secret check keys r w =
     (let raw = fst (CutPrefix (rq_authorization r) ''Bearer '')
      in if \<not> snd (CutPrefix raw ''sk_live_'') then RequireAuth x secret check r w
         else (case ParseAPIKey raw of
             Inl _ \<Rightarrow> (Inl (writeErr 401 ''invalid API key''), w)
           | Inr ks \<Rightarrow>
               (case (case keys of
                        None \<Rightarrow> (None, w)
                      | Some chk \<Rightarrow> chk (fst ks) (HashAPIKeySecret x (snd ks)) w) of (found, w1) \<Rightarrow>
                 case found of
                   None \<Rightarrow> (Inl (writeErr 401 ''invalid API key''), w1)
                 | Some ut \<Rightarrow>
                     let tenantID = rq_tenant_header r
                     in if tenantID = [] then (Inl (writeErr 400 ''X-Tenant-ID is required''), w1)
                        else if snd ut \<noteq> tenantID
                          then (Inl (writeErr 403 ''API key is not valid for this tenant''), w1)
                        else (case (case check of
                                      None \<Rightarrow> (None, w1)
                                    | Some chk \<Rightarrow> chk (fst ut) tenantID w1) of (m, w2) \<Rightarrow>
                          case m of
                            None \<Rightarrow> (Inl (writeErr 403 ''not a member of tenant''), w2)
                          | Some _ \<Rightarrow>
                              (Inr (r\<lparr>rq_user := fst ut, rq_tenant := tenantID,
                                     rq_api_key := fst ks\<rparr>), w2)))))"

text \<open>The gate the router puts before the tenant routes when a secret is configured.\<close>

definition tenantAuth :: "ext \<Rightarrow> string \<Rightarrow> 'a gate" where
  "tenantAuth x secret =
     (if secret = [] then (\<lambda>r w. (Inr r, w))
      else RequireAuthWithAPIKeys x secret (Some (DBChecker x)) (Some (CheckAPIKey x)))"

subsection \<open>What a gate leaves alone\<close>

context store_client
begin

lemma DBChecker_keeps:
  assumes "safe R d0 w"
  shows "keeps (safe R d0) (DBChecker x u t w)"
  unfolding DBChecker_def
  by (intro keeps_bind keeps_rules db_call_keeps read_R assms)

lemma CheckAPIKey_keeps:
  assumes "safe R d0 w"
  shows "keeps (safe R d0) (CheckAPIKey x k h w)"
  unfolding CheckAPIKey_def
  by (rule keeps_bind, intro db_call_keeps read_R assms, rule keeps_ret)

lemma RequireAuth_keeps:
  assumes "safe R d0 w" and "check = Some (DBChecker x) \<or> check = None"
  shows "keeps (safe R d0) (RequireAuth x secret check r w)"
proof -
  obtain token ok where c: "CutPrefix (rq_authorization r) ''Bearer '' = (token, ok)"
    by (metis prod.exhaust)
  have m: "keeps (safe R d0) (case DBChecker x u t w of (m, w1) \<Rightarrow> (g m :: response + 'b request, w1))" for u t g
    by (intro keeps_bind DBChecker_keeps keeps_ret assms)
  from assms m show ?thesis
    by (auto simp: RequireAuth_def c Let_def keeps_ret split: sum.split)
qed

lemma tenantAuth_keeps:
  assumes "safe R d0 w"
  shows "keeps (safe R d0) (tenantAuth x secret r w)"
  using assms unfolding tenantAuth_def RequireAuthWithAPIKeys_def Let_def
  by (auto intro!: keeps_bind keeps_rules CheckAPIKey_keeps DBChecker_keeps RequireAuth_keeps)

end

lemma tenantAuth_cases:
  assumes "tenantAuth x secret r w = (Inr r1, w')" and "secret \<noteq> []"
  obtains
    (key) k s u w1 role where
      "ParseAPIKey (fst (CutPrefix (rq_authorization r) ''Bearer '')) = Inr (k, s)"
      "CheckAPIKey x k (HashAPIKeySecret x s) w = (Some (u, rq_tenant_header r), w1)"
      "DBChecker x u (rq_tenant_header r) w1 = (Some role, w')"
      "r1 = r\<lparr>rq_user := u, rq_tenant := rq_tenant_header r, rq_api_key := k\<rparr>"
      "rq_tenant_header r \<noteq> []"
  | (jwt) token c where
      "rq_authorization r = ''Bearer '' @ token" "ParseAccessToken x secret token (now w) = Inr c"
      "r1 = r\<lparr>rq_user := cl_subject c, rq_tenant := rq_tenant_header r\<rparr>"
      "rq_tenant_header r \<noteq> []"
      "rq_tenant_header r \<in> tc_id ` set (cl_tenants c) \<and> w' = w
       \<or> (\<exists>role. DBChecker x (cl_subject c) (rq_tenant_header r) w = (Some role, w'))"
proof (cases "snd (CutPrefix (fst (CutPrefix (rq_authorization r) ''Bearer '')) ''sk_live_'')")
  case True
  then show thesis
    using assms by (auto simp: tenantAuth_def RequireAuthWithAPIKeys_def Let_def intro: key
      split: sum.splits option.splits prod.splits if_splits)
next
  case False
  then have a: "RequireAuth x secret (Some (DBChecker x)) r w = (Inr r1, w')"
    using assms by (simp add: tenantAuth_def RequireAuthWithAPIKeys_def)
  then obtain token where t: "CutPrefix (rq_authorization r) ''Bearer '' = (token, True)"
    by (auto simp: RequireAuth_def split: prod.splits if_splits)
  then have "rq_authorization r = ''Bearer '' @ token" by (rule CutPrefix_True)
  with a t show thesis
    by (auto simp: RequireAuth_def Let_def list_ex_iff intro!: jwt rev_image_eqI split: sum.splits option.splits prod.splits if_splits)
qed

lemma CheckAPIKey_point:
  assumes "obeys db_path w" and "CheckAPIKey x k h w = (v, w1)"
  shows "obeys db_path w1 \<and> db_path (db w) (db w1) \<and> (\<forall>u t. v = Some (u, t) \<longrightarrow>
    (\<exists>key\<in>set (api_keys (db w1)). k_id key = k \<and> k_revoked_at key = None \<and> k_secret_hash key = h
       \<and> u = x_uuid_string x (k_user_id key) \<and> t = x_uuid_string x (k_tenant_id key)))"
proof -
  obtain q w2 where q: "db_call (GetAPIKey k) w = (q, w2)" by (metis prod.exhaust)
  with assms(2) have w1: "w2 = w1" by (auto simp: CheckAPIKey_def)
  obtain d tm i where d: "db_path (db w) d" "db w1 = d"
    "(\<exists>e. q = Inl e) \<or> q = fst (GetAPIKey k tm i d)"
    using path.db_call_point [OF assms(1) q] w1 by auto
  have "obeys db_path w1" using obeys_call [OF assms(1) q] w1 by simp
  moreover have "\<exists>key\<in>set (api_keys d). k_id key = k \<and> k_revoked_at key = None \<and> k_secret_hash key = h
       \<and> u = x_uuid_string x (k_user_id key) \<and> t = x_uuid_string x (k_tenant_id key)"
    if "v = Some (u, t)" for u t
    using that assms(2) q d(3)
    by (auto simp: CheckAPIKey_def GetAPIKey_def EqualAPIKeyHash_def dest!: find_SomeD
        split: sum.splits if_splits option.splits)
  ultimately show ?thesis using d(1,2) by auto
qed

lemma DBChecker_point:
  assumes "obeys db_path w" and "DBChecker x u t w = (Some role, w1)"
  shows "obeys db_path w1 \<and> db_path (db w) (db w1) \<and> (\<exists>m\<in>set (memberships (db w1)).
    x_uuid_parse x u = Some (m_user_id m) \<and> x_uuid_parse x t = Some (m_tenant_id m) \<and> m_role m = role)"
proof -
  from assms(2) obtain i j q where ij: "x_uuid_parse x u = Some i" "x_uuid_parse x t = Some j"
    and q: "db_call (CheckMembership (Some i) (Some j)) w = (Inr role, w1)"
    by (auto simp: DBChecker_def split: option.splits prod.splits sum.splits)
  obtain d tm k where d: "db_path (db w) d" "db w1 = d" "Inr role = fst (CheckMembership (Some i) (Some j) tm k d)"
    using path.db_call_point [OF assms(1) q] by auto
  from d(3) have "\<exists>m\<in>set (memberships d). m_user_id m = i \<and> m_tenant_id m = j \<and> m_role m = role"
    by (auto simp: CheckMembership_def dest!: find_SomeD split: option.splits)
  with d(1,2) ij obeys_call [OF assms(1) q] show ?thesis by auto
qed

lemma revoked_stays:
  assumes "db_path d d'" and "db_ok d" and "key \<in> set (api_keys d)" and "k_revoked_at key \<noteq> None"
    and "key' \<in> set (api_keys d')" and "k_id key' = k_id key"
  shows "k_revoked_at key' \<noteq> None"
proof -
  have "grows key_le (api_keys d) (api_keys d')" using db_path_le [OF assms(1)] by (simp add: db_le_def)
  then obtain k1 where k1: "k1 \<in> set (api_keys d')" "key_le key k1"
    using assms(3) by (rule grows_in)
  have "distinct (map k_id (api_keys d'))" using db_path_ok [OF assms(1,2)] by (simp add: db_ok_def)
  then have "key' = k1" using assms(5,6) k1 by (auto simp: key_le_def intro: distinct_map_eq)
  with k1 assms(4) show ?thesis by (auto simp: key_le_def)
qed

text \<open>Once a key is revoked, no request that presents it is let through.\<close>

lemma revoked_rejected:
  assumes "obeys db_path w" and "db_ok (db w)" and "secret \<noteq> []"
    and "key \<in> set (api_keys (db w))" and "k_revoked_at key \<noteq> None"
    and "ParseAPIKey (fst (CutPrefix (rq_authorization r) ''Bearer '')) = Inr (k_id key, s)"
  shows "fst (tenantAuth x secret r w) = Inl (writeErr 401 ''invalid API key'')"
proof -
  obtain v w1 where c: "CheckAPIKey x (k_id key) (HashAPIKeySecret x s) w = (v, w1)" by (metis prod.exhaust)
  have "v = None"
  proof (rule ccontr)
    assume "v \<noteq> None"
    then obtain u t where "v = Some (u, t)" by auto
    with CheckAPIKey_point [OF assms(1) c] obtain key' where "db_path (db w) (db w1)"
      "key' \<in> set (api_keys (db w1))" "k_id key' = k_id key" "k_revoked_at key' = None" by blast
    with revoked_stays [OF _ assms(2,4,5)] show False by blast
  qed
  moreover from assms(6) have "snd (CutPrefix (fst (CutPrefix (rq_authorization r) ''Bearer '')) ''sk_live_'')"
    by (auto simp: ParseAPIKey_def split: prod.splits if_splits)
  ultimately show ?thesis
    using assms(3,6) c by (simp add: tenantAuth_def RequireAuthWithAPIKeys_def Let_def)
qed

subsection \<open>Properties\<close>

text \<open>A request with an API key, and the tables that hold the key.\<close>

definition sample_key :: api_key where
  "sample_key = \<lparr>k_id = ''a'', k_user_id = 1, k_tenant_id = 2, k_name = ''ci'',
     k_secret_hash = hex_encode ''s'', k_created_at = 0, k_revoked_at = None\<rparr>"

definition key_world :: "api_key \<Rightarrow> world" where
  "key_world k = sample_world\<lparr>db := sample_db\<lparr>api_keys := [k]\<rparr>\<rparr>"

definition key_request :: "unit request" where
  "key_request = (plain_request ''2'' None)\<lparr>rq_authorization := ''Bearer sk_live_a.s''\<rparr>"

lemma key_request_parse:
  "ParseAPIKey (fst (CutPrefix (rq_authorization key_request) ''Bearer '')) = Inr (''a'', ''s'')"
  "CutPrefix (rq_authorization key_request) ''Bearer '' = (''sk_live_a.s'', True)"
  by (simp_all add: key_request_def CutPrefix_def ParseAPIKey_format)

lemma key_request_passes:
  "tenantAuth sample_ext ''k'' key_request (key_world sample_key)
   = (Inr (key_request\<lparr>rq_user := ''1'', rq_tenant := ''2'', rq_api_key := ''a''\<rparr>), key_world sample_key)"
proof -
  have c: "CheckAPIKey sample_ext ''a'' (HashAPIKeySecret sample_ext ''s'') (key_world sample_key)
      = (Some (''1'', ''2''), key_world sample_key)"
    by (simp add: CheckAPIKey_def key_world_def db_call_quiet GetAPIKey_def sample_key_def EqualAPIKeyHash_def
        HashAPIKeySecret_def text_ok_def) (simp add: sample_ext_def)
  have m: "DBChecker sample_ext ''1'' ''2'' (key_world sample_key) = (Some ''owner'', key_world sample_key)"
    by (simp add: DBChecker_def key_world_def db_call_quiet CheckMembership_def) (simp add: sample_db_def)
  have "rq_tenant_header key_request = ''2''" by (simp add: key_request_def plain_request_def)
  with c m key_request_parse show ?thesis
    by (simp add: tenantAuth_def RequireAuthWithAPIKeys_def Let_def CutPrefix_def)
qed




text \<open>A token for a user who has joined the tenant since it was issued.\<close>

definition token_ext :: ext where
  "token_ext = sample_ext\<lparr>x_jwt_parse := (\<lambda>key aud t s.
     if s = ''tok'' \<and> aud = AccessAudience \<and> key HMAC = Some ''k''
     then Some \<lparr>cl_subject = ''1'', cl_audience = [AccessAudience], cl_id = [], cl_issued_at = 0,
                cl_expires_at = 2000 * second, cl_tenants = []\<rparr>
     else None)\<rparr>"

definition token_request :: "unit request" where
  "token_request = (plain_request ''2'' None)\<lparr>rq_authorization := ''Bearer tok''\<rparr>"

lemma token_request_passes:
  "tenantAuth token_ext ''k'' token_request sample_world
   = (Inr (token_request\<lparr>rq_user := ''1'', rq_tenant := ''2''\<rparr>), sample_world)"
  by (simp add: tenantAuth_def RequireAuthWithAPIKeys_def RequireAuth_def CutPrefix_def Let_def token_request_def
      plain_request_def ParseAccessToken_def hmacKeyFunc_def token_ext_def DBChecker_def db_call_quiet
      CheckMembership_def) (simp add: sample_db_def)


end
