(* ===== verification/Key_Handlers.thy ===== *)
theory Key_Handlers
  imports Middleware
begin

section \<open>API keys\<close>

text \<open>
  \<open>internal/http/handlers/apikeys.go\<close>: create, list and revoke the API keys of a tenant. The
  insert loop of \<open>Create\<close> is bounded by two retries; \<open>n\<close> below counts the ones left.
\<close>

record create_key_request =
  ckr_name :: string

definition key_scope :: "string \<Rightarrow> 'a request \<Rightarrow> response option" where
  "key_scope what r =
     (if requestTenant r = [] then Some (writeErr 400 ''X-Tenant-ID is required'')
      else if rq_path_id r \<noteq> requestTenant r
        then Some (writeErr 403 ''tenant id does not match X-Tenant-ID'')
      else if UserIDFrom r = [] then Some (writeErr 403 what)
      else None)"

fun insert_key ::
    "ext \<Rightarrow> uuid option \<Rightarrow> uuid option \<Rightarrow> string \<Rightarrow> nat \<Rightarrow> string \<times> string \<times> string \<Rightarrow> world
     \<Rightarrow> (create_key_row \<times> string) option \<times> world" where
  "insert_key x uid tid name n (keyID, secret, fullKey) w =
     (case db_call (CreateAPIKey keyID uid tid name (HashAPIKeySecret x secret)) w of (q, w1) \<Rightarrow>
        case q of
          Inr row \<Rightarrow> (Some (row, fullKey), w1)
        | Inl e \<Rightarrow>
            (case n of
               0 \<Rightarrow> (None, w1)
             | Suc m \<Rightarrow>
                 if e \<noteq> PgError ''23505'' then (None, w1)
                 else (case GenerateAPIKey w1 of (g, w2) \<Rightarrow>
                   case g of Inl _ \<Rightarrow> (None, w2) | Inr k \<Rightarrow> insert_key x uid tid name m k w2)))"

definition Create_api_key :: "ext \<Rightarrow> create_key_request handler" where
  "Create_api_key x r w =
     (case key_scope ''authentication required to create an API key'' r of
        Some e \<Rightarrow> (e, w)
      | None \<Rightarrow>
        (case decodeBody r of
           None \<Rightarrow> (writeErr 400 ''invalid JSON body'', w)
         | Some req \<Rightarrow>
          let name = TrimSpace (ckr_name req)
          in if length name < 1 \<or> 60 < length name then (writeErr 400 ''name must be 1-60 characters'', w)
          else (case ParsePg x (UserIDFrom r) of
              Inl _ \<Rightarrow> (writeErr 401 ''invalid user identity'', w)
            | Inr uid \<Rightarrow>
                (case ParsePg x (requestTenant r) of
                   Inl _ \<Rightarrow> (writeErr 400 ''invalid tenant id'', w)
                 | Inr tid \<Rightarrow>
                   (case GenerateAPIKey w of (g, w1) \<Rightarrow>
                     case g of
                       Inl _ \<Rightarrow> (writeErr 500 ''could not create API key'', w1)
                     | Inr k \<Rightarrow>
                         (case insert_key x uid tid name 2 k w1 of (v, w2) \<Rightarrow>
                            (case v of
                               None \<Rightarrow> writeErr 500 ''could not create API key''
                             | Some (row, fullKey) \<Rightarrow>
                                 writeJSON 201 (JObject [(''created_at'', JTime (ck_created_at row)),
                                   (''id'', JString (ck_id row)), (''key'', JString fullKey),
                                   (''name'', JString (ck_name row))]), w2)))))))"

definition apiKeyJSON :: "list_key_row \<Rightarrow> json" where
  "apiKeyJSON k = JObject ([(''id'', JString (lk_id k)), (''name'', JString (lk_name k)),
     (''created_at'', JTime (lk_created_at k))]
     @ (case lk_revoked_at k of None \<Rightarrow> [] | Some t \<Rightarrow> [(''revoked_at'', JTime t)]))"

definition List_api_keys :: "ext \<Rightarrow> 'a handler" where
  "List_api_keys x r w =
     (case key_scope ''authentication required to list API keys'' r of
        Some e \<Rightarrow> (e, w)
      | None \<Rightarrow>
          (case ParsePg x (requestTenant r) of
             Inl _ \<Rightarrow> (writeErr 400 ''invalid tenant id'', w)
           | Inr tid \<Rightarrow>
               (case db_call (ListAPIKeys tid) w of (q, w1) \<Rightarrow>
                  (case q of
                     Inl _ \<Rightarrow> writeErr 500 ''could not list API keys''
                   | Inr rows \<Rightarrow> writeJSON 200 (JObject [(''api_keys'', JArray (map apiKeyJSON rows))]), w1))))"

definition Delete_api_key :: "ext \<Rightarrow> 'a handler" where
  "Delete_api_key x r w =
     (case key_scope ''authentication required to revoke an API key'' r of
        Some e \<Rightarrow> (e, w)
      | None \<Rightarrow>
          let keyID = rq_path_key r
          in if keyID = [] then (writeErr 404 ''API key not found'', w)
             else (case db_call (GetAPIKey keyID) w of (q, w1) \<Rightarrow>
               case q of
                 Inl e \<Rightarrow> (if e = NoRows then writeErr 404 ''API key not found''
                            else writeErr 500 ''could not revoke API key'', w1)
               | Inr key \<Rightarrow>
                   if PgToString x (Some (k_tenant_id key)) \<noteq> requestTenant r
                     then (writeErr 404 ''API key not found'', w1)
                   else (case db_call (RevokeAPIKey keyID) w1 of (v, w2) \<Rightarrow>
                     (case v of
                        Inl _ \<Rightarrow> writeErr 500 ''could not revoke API key''
                      | Inr _ \<Rightarrow> writeJSON 200 (JObject [(''status'', JString ''revoked'')]), w2))))"

subsection \<open>Lemmas\<close>

lemma CreateAPIKey_Inr:
  assumes "CreateAPIKey kid uid tid name h t u d = (Inr row, d')"
  shows "\<exists>i j. uid = Some i \<and> tid = Some j \<and> memberships d' = memberships d \<and> ck_id row = kid
    \<and> text_ok kid \<and> find (\<lambda>r. k_id r = kid) (api_keys d') = Some
        \<lparr>k_id = kid, k_user_id = i, k_tenant_id = j, k_name = name, k_secret_hash = h,
         k_created_at = t, k_revoked_at = None\<rparr>"
  using assms
  by (auto simp: CreateAPIKey_def Let_def find_absent split: option.splits if_splits)

text \<open>The key that is issued is in the table, under its own id.\<close>

definition issued :: "ext \<Rightarrow> uuid option \<Rightarrow> uuid option \<Rightarrow> string \<Rightarrow> db \<Rightarrow> bool" where
  "issued x uid tid full d \<longleftrightarrow> (\<exists>kid secret row. ParseAPIKey full = Inr (kid, secret) \<and> text_ok kid
     \<and> find (\<lambda>r. k_id r = kid) (api_keys d) = Some row \<and> k_secret_hash row = HashAPIKeySecret x secret
     \<and> Some (k_user_id row) = uid \<and> Some (k_tenant_id row) = tid \<and> k_revoked_at row = None)"

lemma insert_key_issued:
  assumes "insert_key x uid tid name n k w = (Some (row, full), w')"
    and "obeys (=) w" and "ParseAPIKey (snd (snd k)) = Inr (fst k, fst (snd k))"
  shows "issued x uid tid full (db w') \<and> memberships (db w') = memberships (db w)"
  using assms
proof (induction n arbitrary: k w rule: less_induct)
  case (less n)
  obtain kid secret fullKey where k: "k = (kid, secret, fullKey)" by (metis prod.exhaust)
  obtain q w1 where q: "db_call (CreateAPIKey kid uid tid name (HashAPIKeySecret x secret)) w = (q, w1)"
    by (metis prod.exhaust)
  note c = db_call_alone [OF less.prems(2) q]
  show ?case
  proof (cases q)
    case (Inr r)
    with c(2) obtain t u where "CreateAPIKey kid uid tid name (HashAPIKeySecret x secret) t u (db w) = (Inr r, db w1)"
      by (metis Inl_Inr_False insertE prod.collapse singletonD)
    from CreateAPIKey_Inr [OF this] less.prems(1,3) k q Inr show ?thesis
      by (auto simp: issued_def)
  next
    case (Inl e)
    with less.prems(1) k q obtain m g w2 where m: "n = Suc m" "e = PgError ''23505''"
      "GenerateAPIKey w1 = (Inr g, w2)" "insert_key x uid tid name m g w2 = (Some (row, full), w')"
      by (auto split: nat.splits if_splits prod.splits sum.splits)
    from c(2) Inl m(2) have "db w1 = db w"
      by auto (metis failed_stmt_unchanged(7) prod.collapse)
    moreover have "db w2 = db w1" "obeys (=) w2" using GenerateAPIKey_alone [OF c(1) m(3)] by auto
    moreover have "ParseAPIKey (snd (snd g)) = Inr (fst g, fst (snd g))"
      using GenerateAPIKey_parse(1) [of w1 "fst g" "fst (snd g)" "snd (snd g)" w2] m(3) by simp
    ultimately show ?thesis using less.IH [OF _ m(4)] m(1) by simp
  qed
qed

text \<open>A key that was found and then revoked is revoked in the tables that follow.\<close>

lemma Delete_revokes:
  assumes "obeys db_path w" and "Delete_api_key x r w = (resp, w')" and "rs_code resp = 200"
  obtains key where "key \<in> set (api_keys (db w'))" "k_id key = rq_path_key r" "k_revoked_at key \<noteq> None"
    "x_uuid_string x (k_tenant_id key) = requestTenant r" "db_path (db w) (db w')" "obeys db_path w'"
proof -
  obtain q w1 where q: "db_call (GetAPIKey (rq_path_key r)) w = (q, w1)" by (metis prod.exhaust)
  obtain v w2 where v: "db_call (RevokeAPIKey (rq_path_key r)) w1 = (v, w2)" by (metis prod.exhaust)
  from assms(2,3) q v obtain key where k: "q = Inr key" "x_uuid_string x (k_tenant_id key) = requestTenant r"
      "v = Inr ()" "w' = w2"
    by (auto simp: Delete_api_key_def key_scope_def Let_def split: if_splits sum.splits)
  obtain d t u where d: "db_path (db w) d" "db w1 = d" "Inr key = fst (GetAPIKey (rq_path_key r) t u d)"
    using path.db_call_point [OF assms(1) q] k(1) by auto
  then have key: "key \<in> set (api_keys d)" "k_id key = rq_path_key r"
    by (auto simp: GetAPIKey_def dest!: find_SomeD split: if_splits option.splits)
  have o1: "obeys db_path w1" using obeys_call [OF assms(1) q] .
  obtain d' t' u' where d': "db_path d d'" "Inr () = fst (RevokeAPIKey (rq_path_key r) t' u' d')"
      "db w2 = snd (RevokeAPIKey (rq_path_key r) t' u' d')"
    using path.db_call_point [OF o1 v] k(3) d(2) by auto
  from db_path_le [OF d'(1)] have "grows key_le (api_keys d) (api_keys d')" by (simp add: db_le_def)
  then obtain k1 where k1: "k1 \<in> set (api_keys d')" "key_le key k1" using key(1) by (rule grows_in)
  have f: "api_keys (db w2) = update_where (\<lambda>r'. k_id r' = rq_path_key r \<and> k_revoked_at r' = None)
      (\<lambda>r. r\<lparr>k_revoked_at := Some t'\<rparr>) (api_keys d')"
    using d'(2,3) by (auto simp: RevokeAPIKey_def split: if_splits)
  define k2 where "k2 = (if k_revoked_at k1 = None then k1\<lparr>k_revoked_at := Some t'\<rparr> else k1)"
  have "k2 \<in> set (api_keys (db w'))"
    unfolding k(4) f in_update_where using k1 key(2) by (auto simp: k2_def key_le_def intro!: bexI [of _ k1])
  moreover have "db_path (db w) (db w')"
    using d(1) d'(1,3) path.stmt_R(12) [of d' "rq_path_key r" t' u'] k(4) by (metis rtranclp_trans)
  ultimately show thesis
    using k1 key(2) k(2,4) obeys_call [OF o1 v] by (intro that [of k2]) (auto simp: k2_def key_le_def)
qed

lemma Create_api_key_201:
  assumes "Create_api_key x r w = (resp, w')" and "rs_code resp = 201"
  obtains uid tid name k w1 row full where "ParsePg x (UserIDFrom r) = Inr uid" "ParsePg x (requestTenant r) = Inr tid"
    "GenerateAPIKey w = (Inr k, w1)" "insert_key x uid tid name 2 k w1 = (Some (row, full), w')"
    "rs_body resp = JObject [(''created_at'', JTime (ck_created_at row)), (''id'', JString (ck_id row)),
       (''key'', JString full), (''name'', JString (ck_name row))]"
  using assms that unfolding Create_api_key_def key_scope_def Let_def
  by (auto split: if_splits option.splits sum.splits prod.splits simp del: insert_key.simps)

text \<open>A key that is in the table lets its owner in, as long as he is a member of the tenant.\<close>

lemma issued_passes:
  assumes "issued x (Some i) (Some j) full (db w)" and "script w = []" and "secret \<noteq> []"
    and "\<exists>m\<in>set (memberships (db w)). m_user_id m = i \<and> m_tenant_id m = j"
    and "x_uuid_parse x (x_uuid_string x i) = Some i" and "x_uuid_parse x (x_uuid_string x j) = Some j"
    and "rq_authorization r = ''Bearer '' @ full" and "rq_tenant_header r = x_uuid_string x j"
    and "x_uuid_string x j \<noteq> []"
  shows "\<exists>kid. tenantAuth x secret r w
    = (Inr (r\<lparr>rq_user := x_uuid_string x i, rq_tenant := x_uuid_string x j, rq_api_key := kid\<rparr>), w)"
proof -
  obtain kid s row where k: "ParseAPIKey full = Inr (kid, s)" "text_ok kid"
    "find (\<lambda>r. k_id r = kid) (api_keys (db w)) = Some row" "k_secret_hash row = HashAPIKeySecret x s"
    "k_user_id row = i" "k_tenant_id row = j" "k_revoked_at row = None"
    using assms(1) by (auto simp: issued_def)
  have "CheckAPIKey x kid (HashAPIKeySecret x s) w = (Some (x_uuid_string x i, x_uuid_string x j), w)"
    using k assms(2) by (simp add: CheckAPIKey_def db_call_quiet GetAPIKey_def EqualAPIKeyHash_def)
  moreover obtain m where "find (\<lambda>m. Some (m_user_id m) = Some i \<and> Some (m_tenant_id m) = Some j)
      (memberships (db w)) = Some m"
    using assms(4) find_None [of "\<lambda>m. m_user_id m = i \<and> m_tenant_id m = j"] by fastforce
  then have "DBChecker x (x_uuid_string x i) (x_uuid_string x j) w = (Some (m_role m), w)"
    using assms(2,5,6) by (simp add: DBChecker_def db_call_quiet CheckMembership_def)
  moreover have c: "CutPrefix (rq_authorization r) ''Bearer '' = (full, True)"
    using assms(7) by (simp add: CutPrefix_def)
  moreover have "snd (CutPrefix full ''sk_live_'')"
    using k(1) by (auto simp: ParseAPIKey_def split: prod.splits if_splits)
  ultimately show ?thesis
    using assms(3,8,9) k(1) by (auto simp: tenantAuth_def RequireAuthWithAPIKeys_def Let_def)
qed

subsection \<open>Properties\<close>


text \<open>A member of the tenant asks for a key.\<close>

definition sample_key_request :: "create_key_request request" where
  "sample_key_request = (plain_request ''2'' (Some \<lparr>ckr_name = ''ci''\<rparr>))\<lparr>rq_path_id := ''2'', rq_user := ''1''\<rparr>"

lemma sample_key_created: "rs_code (fst (Create_api_key sample_ext sample_key_request sample_world)) = 201"
proof -
  have t: "TrimSpace ''ci'' = ''ci''" "text_ok ''ci''"
    by (simp_all add: TrimSpace_graphic graphic_def text_ok_def)
  have p: "ParsePg sample_ext ''1'' = Inr (Some 1)" "ParsePg sample_ext ''2'' = Inr (Some 2)"
    by (simp_all add: ParsePg_def UUIDToPg_def)
  have g: "GenerateAPIKey sample_world = (Inr (hex_encode (replicate 16 (CHR 0x00)),
      hex_encode (replicate 32 (CHR 0x00)), ''sk_live_'' @ hex_encode (replicate 16 (CHR 0x00)) @ ''.''
      @ hex_encode (replicate 32 (CHR 0x00))), sample_world)"
    by (simp add: GenerateAPIKey_def rand_read_def Let_def)
  show ?thesis
    using t p g by (simp add: Create_api_key_def key_scope_def sample_key_request_def plain_request_def requestTenant_def
      TenantIDFrom_def UserIDFrom_def Let_def HashAPIKeySecret_def db_call_quiet CreateAPIKey_def)
qed


text \<open>
  Property C12: after a delete that answered 200, no request that presents the key is let through
  again, at any later time and whatever the other processes do to the tables: it is answered
  401. The key belonged to the tenant of the delete.
\<close>

theorem revoked_key_rejected:
  assumes "obeys db_path w" and "db_ok (db w)" and "Delete_api_key x r w = (resp, w')" and "rs_code resp = 200"
    and "db_path (db w') (db w2)" and "obeys db_path w2" and "secret \<noteq> []"
    and "ParseAPIKey (fst (CutPrefix (rq_authorization r2) ''Bearer '')) = Inr (rq_path_key r, s)"
  shows "fst (tenantAuth x secret r2 w2) = Inl (writeErr 401 ''invalid API key'')
    \<and> (\<exists>key\<in>set (api_keys (db w')). k_id key = rq_path_key r \<and> x_uuid_string x (k_tenant_id key) = requestTenant r)"
  using assms(1,3,4)
proof (cases rule: Delete_revokes)
  case (1 key)
  have ok: "db_ok (db w')" "db_ok (db w2)" using db_path_ok assms(2,5) 1(5) by blast+
  have "grows key_le (api_keys (db w')) (api_keys (db w2))"
    using db_path_le [OF assms(5)] by (simp add: db_le_def)
  then obtain k2 where k2: "k2 \<in> set (api_keys (db w2))" "key_le key k2" using 1(1) by (rule grows_in)
  have "fst (tenantAuth x secret r2 w2) = Inl (writeErr 401 ''invalid API key'')"
    using k2 1(2,3) assms(8) by (intro revoked_rejected [OF assms(6) ok(2) assms(7), of k2]) (auto simp: key_le_def)
  with 1 show ?thesis by blast
qed

text \<open>The owner of the key revokes it.\<close>

definition revoke_request :: "unit request" where
  "revoke_request = (plain_request ''2'' None)\<lparr>rq_path_id := ''2'', rq_path_key := ''a'', rq_user := ''1''\<rparr>"

theorem revoked_key_rejected_witness:
  "fst (tenantAuth sample_ext ''k'' key_request
      (snd (Delete_api_key sample_ext revoke_request (key_world sample_key)))) = Inl (writeErr 401 ''invalid API key'')"
proof -
  let ?w = "key_world sample_key"
  have ok: "db_ok (db ?w)" "obeys db_path ?w"
    using sample_db_ok by (auto simp: db_ok_def key_world_def sample_key_def exec_ok_def quiet_obeys)
  have d: "Delete_api_key sample_ext revoke_request ?w
      = (writeJSON 200 (JObject [(''status'', JString ''revoked'')]),
         ?w\<lparr>db := snd (RevokeAPIKey ''a'' (1000 * second) 0 (db ?w))\<rparr>)"
    by (simp add: Delete_api_key_def key_scope_def revoke_request_def plain_request_def requestTenant_def TenantIDFrom_def
        UserIDFrom_def Let_def key_world_def db_call_quiet GetAPIKey_def RevokeAPIKey_def sample_key_def text_ok_def)
  have k: "rq_path_key revoke_request = ''a''" by (simp add: revoke_request_def)
  show ?thesis
    using revoked_key_rejected [OF ok(2,1) d, of "snd (Delete_api_key sample_ext revoke_request ?w)" "''k''" key_request "''s''"]
    unfolding d k key_request_parse(1) by (simp add: quiet_obeys key_world_def)
qed

end
