(* ===== verification/Tenants.thy ===== *)
theory Tenants
  imports Auth
begin

section \<open>Tenants\<close>

text \<open>
  \<open>internal/http/handlers/tenants.go\<close>, with \<open>slugify\<close> and the conflict helpers of
  \<open>handlers/auth.go\<close>: creating an organisation and its owner in one transaction, the retries
  on a slug that is taken, and reading a tenant.
\<close>

subsection \<open>Slugs\<close>

text \<open>\<open>strings.Trim\<close> with a one-character cut set, \<open>strings.Contains\<close> and \<open>strings.ReplaceAll\<close>.\<close>

definition Trim :: "string \<Rightarrow> char \<Rightarrow> string" where
  "Trim s c = rev (dropWhile (\<lambda>a. a = c) (rev (dropWhile (\<lambda>a. a = c) s)))"

fun Contains :: "string \<Rightarrow> string \<Rightarrow> bool" where
  "Contains [] p = (p = [])"
| "Contains (a # s) p = (take (length p) (a # s) = p \<or> Contains s p)"

fun ReplaceAll :: "string \<Rightarrow> string \<Rightarrow> string \<Rightarrow> string" where
  "ReplaceAll [] old new = []"
| "ReplaceAll (a # s) old new =
     (if old \<noteq> [] \<and> take (length old) (a # s) = old then new @ ReplaceAll (drop (length old - 1) s) old new
      else a # ReplaceAll s old new)"

lemma take_eq_length: "take (length p) s = p \<Longrightarrow> length p \<le> length s"
  by (metis length_take min.cobounded1)

lemma length_ReplaceAll_le:
  "length new < length old \<Longrightarrow> length (ReplaceAll s old new) \<le> length s"
proof (induction s old new rule: ReplaceAll.induct)
  case (2 a s old new)
  show ?case
  proof (cases "take (length old) (a # s) = old")
    case True
    with 2 take_eq_length [OF True] show ?thesis by (cases "old = []") auto
  next
    case False
    with 2 show ?thesis by simp
  qed
qed simp

lemma length_ReplaceAll_less:
  "length new < length old \<Longrightarrow> Contains s old \<Longrightarrow> length (ReplaceAll s old new) < length s"
proof (induction s old new rule: ReplaceAll.induct)
  case (2 a s old new)
  show ?case
  proof (cases "take (length old) (a # s) = old")
    case True
    with 2(3) take_eq_length [OF True] length_ReplaceAll_le [OF 2(3), of "drop (length old - 1) s"]
    show ?thesis by (cases "old = []") auto
  next
    case False
    with 2 show ?thesis by simp
  qed
qed simp

text \<open>The loop that replaces double dashes until there are none.\<close>

function collapse :: "string \<Rightarrow> string" where
  "collapse s = (if Contains s ''--'' then collapse (ReplaceAll s ''--'' ''-'') else s)"
  by pat_completeness auto
termination
  by (relation "measure length") (auto intro: length_ReplaceAll_less)

declare collapse.simps [simp del]

definition slug_rune :: "nat \<Rightarrow> char" where
  "slug_rune r = (if 97 \<le> r \<and> r \<le> 122 \<or> 48 \<le> r \<and> r \<le> 57 then char_of r else CHR ''-'')"

definition slugify :: "ext \<Rightarrow> string \<Rightarrow> string" where
  "slugify x s =
     (let s1 = ToLower (x_lower x) (TrimSpace s);
          b = map slug_rune (range_runes s1);
          slug = collapse (Trim b (CHR ''-''));
          slug1 = (if 40 < length slug then take 40 slug else slug)
      in if slug1 = [] then ''tenant'' else slug1)"

definition pgConflictStatus :: "err \<Rightarrow> int" where
  "pgConflictStatus e = (if e = PgError ''23505'' then 409 else 500)"

definition pgConflictMessage :: "err \<Rightarrow> string \<Rightarrow> string" where
  "pgConflictMessage e fallback =
     (if pgConflictStatus e = 409 then fallback else ''could not complete request'')"

definition slug_char :: "char \<Rightarrow> bool" where
  "slug_char c \<longleftrightarrow> 97 \<le> byte c \<and> byte c \<le> 122 \<or> 48 \<le> byte c \<and> byte c \<le> 57 \<or> c = CHR ''-''"

definition validSlug :: "string \<Rightarrow> bool" where
  "validSlug s \<longleftrightarrow> list_all slug_char s \<and> 3 \<le> length s \<and> length s \<le> 40"

subsection \<open>Creating a tenant\<close>

text \<open>
  \<open>SAVEPOINT\<close> and \<open>RELEASE SAVEPOINT\<close> as statements of the transaction; rolling back to the
  savepoint puts the tables back as they were when it was taken.
\<close>

definition savepoint :: "db stmt" where
  "savepoint t u d = (Inr d, d)"

definition release :: "unit stmt" where
  "release t u d = (nil_err, d)"

definition tryCreateTenantTx :: "ext \<Rightarrow> tx \<Rightarrow> uuid \<Rightarrow> string \<Rightarrow> world \<Rightarrow> tenant result \<times> world" where
  "tryCreateTenantTx x t i slug w =
     (case tx_call t savepoint w of (s, w1) \<Rightarrow>
        case s of
          Inl e \<Rightarrow> (Inl e, w1)
        | Inr saved \<Rightarrow>
            (case tx_call t (CreateTenant x (UUIDToPg i) slug (''runnix-tenant-'' @ x_uuid_string x i) ''free'') w1 of
              (q, w2) \<Rightarrow>
                case q of
                  Inl e \<Rightarrow> (Inl e, w2\<lparr>db := saved\<rparr>)
                | Inr tn \<Rightarrow>
                    (case tx_call t release w2 of (c, w3) \<Rightarrow>
                      case c of Inl e \<Rightarrow> (Inl e, w3\<lparr>db := saved\<rparr>) | Inr _ \<Rightarrow> (Inr tn, w3))))"

text \<open>The loop of \<open>createTenantTx\<close>, with \<open>n\<close> retries left.\<close>

fun tenant_attempts ::
    "ext \<Rightarrow> tx \<Rightarrow> uuid \<Rightarrow> string \<Rightarrow> string \<Rightarrow> nat \<Rightarrow> world \<Rightarrow> tenant result \<times> world" where
  "tenant_attempts x t i base slug n w =
     (case tryCreateTenantTx x t i slug w of (r, w1) \<Rightarrow>
        case r of
          Inr tn \<Rightarrow> (Inr tn, w1)
        | Inl e \<Rightarrow>
            if pgConflictStatus e \<noteq> 409 then (Inl e, w1)
            else (case n of
                0 \<Rightarrow> (Inl e, w1)
              | Suc m \<Rightarrow>
                  (case new_uuid w1 of (u, w2) \<Rightarrow>
                     tenant_attempts x t i base (base @ ''-'' @ take 4 (x_uuid_string x u)) m w2)))"

declare tenant_attempts.simps [simp del]

definition createTenantTx :: "ext \<Rightarrow> tx \<Rightarrow> uuid \<Rightarrow> string \<Rightarrow> world \<Rightarrow> tenant result \<times> world" where
  "createTenantTx x t i base w = tenant_attempts x t i base base 4 w"

record create_tenant_request =
  ct_name :: string
  ct_slug :: string

text \<open>The slug of a new tenant: the one asked for, or one made from the name.\<close>

definition tenant_base :: "ext \<Rightarrow> create_tenant_request \<Rightarrow> response + string" where
  "tenant_base x req =
     (let name = TrimSpace (ct_name req); base = TrimSpace (ct_slug req); low = ToLower (x_lower x) base
      in if length name < 3 \<or> 60 < length name then Inl (writeErr 400 ''name must be 3-60 characters'')
         else if base = [] then Inr (slugify x name)
         else if \<not> validSlug low then Inl (writeErr 400 ''slug must match [a-z0-9-]{3,40}'')
         else Inr low)"

text \<open>\<open>Create\<close>; every return before the commit rolls the transaction back.\<close>

definition Create_tenant :: "ext \<Rightarrow> create_tenant_request handler" where
  "Create_tenant x r w =
     (case decodeBody r of
        None \<Rightarrow> (writeErr 400 ''invalid JSON body'', w)
      | Some req \<Rightarrow>
         if UserIDFrom r = [] then (writeErr 403 ''authentication required to create a tenant'', w)
         else (case tenant_base x req of
            Inl resp \<Rightarrow> (resp, w)
          | Inr base \<Rightarrow>
             (case ParsePg x (UserIDFrom r) of
                Inl _ \<Rightarrow> (writeErr 401 ''invalid user identity'', w)
              | Inr uid \<Rightarrow>
                 (case tx_begin w of (b, w1) \<Rightarrow>
                   case b of
                     Inl _ \<Rightarrow> (writeErr 500 ''could not create tenant'', w1)
                   | Inr t \<Rightarrow>
                      (case new_uuid w1 of (i, w2) \<Rightarrow>
                       case createTenantTx x t i base w2 of (c, w3) \<Rightarrow>
                         case c of
                           Inl e \<Rightarrow> (writeErr (pgConflictStatus e) (pgConflictMessage e ''slug is taken''),
                                      tx_rollback t w3)
                         | Inr tn \<Rightarrow>
                            (case tx_call t (AddMembership uid (Some (t_id tn)) ''owner'') w3 of (m, w4) \<Rightarrow>
                              case m of
                                Inl _ \<Rightarrow> (writeErr 500 ''could not create membership'', tx_rollback t w4)
                              | Inr _ \<Rightarrow>
                                 (case tx_commit t w4 of (k, w5) \<Rightarrow>
                                   (case k of
                                      Inl _ \<Rightarrow> writeErr 500 ''could not create tenant''
                                    | Inr _ \<Rightarrow> writeJSON 201 (JObject
                                        [(''created_at'', JTime (t_created_at tn)),
                                         (''id'', JString (x_uuid_string x (t_id tn))),
                                         (''namespace'', JString (t_namespace tn)), (''role'', JString ''owner''),
                                         (''slug'', JString (t_slug tn)), (''tier'', JString (t_tier tn))]), w5))))))))"

definition Get_tenant :: "ext \<Rightarrow> 'a handler" where
  "Get_tenant x r w =
     (let tenant = requestTenant r
      in if tenant = [] then (writeErr 400 ''X-Tenant-ID is required'', w)
         else if rq_path_id r \<noteq> tenant then (writeErr 403 ''tenant id does not match X-Tenant-ID'', w)
         else (case ParsePg x (rq_path_id r) of
             Inl _ \<Rightarrow> (writeErr 400 ''invalid tenant id'', w)
           | Inr i \<Rightarrow>
               (case db_call (GetTenant i) w of (q, w1) \<Rightarrow>
                 (case q of
                    Inl e \<Rightarrow> (if e = NoRows then writeErr 404 ''tenant not found''
                              else writeErr 500 ''could not get tenant'')
                  | Inr tn \<Rightarrow> writeJSON 200 (JObject
                      [(''created_at'', JTime (t_created_at tn)), (''id'', JString (x_uuid_string x (t_id tn))),
                       (''namespace'', JString (t_namespace tn)), (''slug'', JString (t_slug tn)),
                       (''tier'', JString (t_tier tn))]), w1))))"

subsection \<open>Slugs in one pass\<close>

text \<open>A reference for the loop: drop every dash that another one follows.\<close>

fun squeeze :: "string \<Rightarrow> string" where
  "squeeze [] = []"
| "squeeze (a # s) = (if a = CHR ''-'' \<and> (\<exists>t. s = CHR ''-'' # t) then squeeze s else a # squeeze s)"

lemma dashes_cases:
  obtains "s = []" | "s = [CHR ''-'']" | t where "s = CHR ''-'' # CHR ''-'' # t"
    | b t where "s = CHR ''-'' # b # t" "b \<noteq> CHR ''-''" | a t where "s = a # t" "a \<noteq> CHR ''-''"
  by (metis list.exhaust)

lemma squeeze_id: "\<not> Contains s ''--'' \<Longrightarrow> squeeze s = s"
  by (induction s) auto

lemma ReplaceAll_dash_head:
  "(\<exists>t. ReplaceAll s ''--'' ''-'' = CHR ''-'' # t) \<longleftrightarrow> (\<exists>t. s = CHR ''-'' # t)"
  by (cases s rule: dashes_cases) auto

lemma squeeze_ReplaceAll: "squeeze (ReplaceAll s ''--'' ''-'') = squeeze s"
proof (induction s rule: length_induct)
  case (1 s)
  show ?case
  proof (cases s rule: dashes_cases)
    case (3 t)
    have "squeeze (ReplaceAll s ''--'' ''-'') = squeeze (CHR ''-'' # ReplaceAll t ''--'' ''-'')"
      using 3 by simp
    also have "\<dots> = squeeze (CHR ''-'' # t)"
      using 1 3 ReplaceAll_dash_head [of t] by simp
    finally show ?thesis using 3 by simp
  next
    case (4 b t)
    with 1 show ?thesis by simp
  next
    case (5 a t)
    with 1 show ?thesis by simp
  qed simp_all
qed

lemma collapse_squeeze: "collapse s = squeeze s"
proof (induction s rule: collapse.induct)
  case (1 s)
  then show ?case
    by (cases "Contains s ''--''") (simp_all add: collapse.simps [of s] squeeze_ReplaceAll squeeze_id)
qed

lemma squeeze_no_double: "\<not> Contains (squeeze s) ''--''"
proof (induction s)
  case (Cons a s)
  have "(\<exists>t. squeeze s = CHR ''-'' # t) \<longleftrightarrow> (\<exists>t. s = CHR ''-'' # t)"
    by (induction s rule: squeeze.induct) auto
  with Cons show ?case by (cases "squeeze s") auto
qed simp

lemma squeeze_set: "set (squeeze s) \<subseteq> set s"
  by (induction s rule: squeeze.induct) auto

lemma squeeze_head: "s = [] \<or> hd s \<noteq> CHR ''-'' \<Longrightarrow> squeeze s = [] \<or> hd (squeeze s) \<noteq> CHR ''-''"
  by (cases s) auto

lemma Contains_iff: "Contains s p \<longleftrightarrow> (\<exists>l r. s = l @ p @ r)"
proof (induction s)
  case (Cons a s)
  have "take (length p) (a # s) = p \<longleftrightarrow> (\<exists>r. a # s = p @ r)" by (metis append_eq_conv_conj)
  moreover have "(\<exists>l r. a # s = l @ p @ r) \<longleftrightarrow> (\<exists>r. a # s = p @ r) \<or> (\<exists>l r. s = l @ p @ r)"
    by (auto simp: Cons_eq_append_conv)
  ultimately show ?case using Cons by simp
qed simp

lemma Contains_take: "Contains (take n s) p \<Longrightarrow> Contains s p"
  unfolding Contains_iff by (metis append.assoc append_take_drop_id)

lemma Trim_head: "Trim s c = [] \<or> hd (Trim s c) \<noteq> c"
proof -
  have p: "\<exists>l. d = rev (dropWhile P (rev d)) @ l" for P and d :: string
    using rev_append [of "takeWhile P (rev d)" "dropWhile P (rev d)"] by auto
  obtain l where l: "dropWhile (\<lambda>a. a = c) s = Trim s c @ l" unfolding Trim_def using p by blast
  have d: "dropWhile (\<lambda>a. a = c) s = [] \<or> hd (dropWhile (\<lambda>a. a = c) s) \<noteq> c"
    by (induction s) auto
  then show ?thesis unfolding l by (cases "Trim s c") auto
qed

lemma Trim_set: "set (Trim s c) \<subseteq> set s"
  unfolding Trim_def by (metis (no_types, lifting) set_dropWhileD set_rev subsetI)

lemma slug_rune_char: "slug_char (slug_rune r)"
proof (cases "97 \<le> r \<and> r \<le> 122 \<or> 48 \<le> r \<and> r \<le> 57")
  case True
  then have "r < 256" by auto
  then have "byte (char_of r) = r" by simp
  then have "slug_char (char_of r)" using True unfolding slug_char_def by metis
  with True show ?thesis by (simp add: slug_rune_def)
qed (simp add: slug_rune_def slug_char_def)

subsection \<open>Properties of slugs\<close>

text \<open>
  Property C39: \<open>slugify\<close> is the single pass that maps every rune to a slug character, trims the
  dashes and drops every dash that another one follows, cut at 40 characters. Its result is
  never empty, has at most 40 characters, all of them lower-case letters, digits or dashes,
  does not start with a dash and has no two dashes in a row.
\<close>

theorem slugify_spec:
  "slugify x s =
     (let t = take 40 (squeeze (Trim (map slug_rune (range_runes (ToLower (x_lower x) (TrimSpace s)))) (CHR ''-'')))
      in if t = [] then ''tenant'' else t)
   \<and> slugify x s \<noteq> [] \<and> length (slugify x s) \<le> 40 \<and> list_all slug_char (slugify x s)
   \<and> hd (slugify x s) \<noteq> CHR ''-'' \<and> \<not> Contains (slugify x s) ''--''"
proof -
  define b where "b = Trim (map slug_rune (range_runes (ToLower (x_lower x) (TrimSpace s)))) (CHR ''-'')"
  define t where "t = take 40 (squeeze b)"
  have e: "slugify x s = (if t = [] then ''tenant'' else t)"
    by (simp add: slugify_def Let_def collapse_squeeze b_def t_def)
  have "set b \<subseteq> range slug_rune" unfolding b_def using Trim_set by fastforce
  moreover have "set t \<subseteq> set b" unfolding t_def by (rule subset_trans [OF set_take_subset squeeze_set])
  ultimately have c: "list_all slug_char t" unfolding list_all_iff using slug_rune_char by blast
  have "b = [] \<or> hd b \<noteq> CHR ''-''" unfolding b_def by (rule Trim_head)
  then have h: "t = [] \<or> hd t \<noteq> CHR ''-''" using squeeze_head [of b] by (auto simp: t_def hd_take)
  have n: "\<not> Contains t ''--''" unfolding t_def using squeeze_no_double Contains_take by blast
  have "length t \<le> 40" by (simp add: t_def)
  with c h n show ?thesis unfolding e b_def [symmetric] t_def [symmetric] Let_def by (auto simp: slug_char_def)
qed

subsection \<open>Tenants and their owners\<close>

lemma tx_call_effect:
  assumes "tx_call t q w = (r, w')"
  shows "(\<exists>u. (r, db w') = q (tx_now t) u (db w)) \<or> (\<exists>e. r = Inl e) \<and> db w' = db w"
  using tx_callD [OF assms] by (metis prod.collapse)

lemma new_uuid_db [simp]: "new_uuid w = (u, w') \<Longrightarrow> db w' = db w"
  by (auto simp: new_uuid_def dest: tx_tickD(7) split: prod.splits)

text \<open>What a new tenant looks like in the tables it is added to.\<close>

definition adds_tenant :: "ext \<Rightarrow> uuid \<Rightarrow> db \<Rightarrow> tenant \<Rightarrow> db \<Rightarrow> bool" where
  "adds_tenant x i d tn d' \<longleftrightarrow> t_id tn = i \<and> t_tier tn = ''free'' \<and> t_namespace tn = ''runnix-tenant-'' @ x_uuid_string x i
     \<and> i \<notin> t_id ` set (tenants d) \<and> x_citext x (t_slug tn) \<notin> (\<lambda>r. x_citext x (t_slug r)) ` set (tenants d)
     \<and> d' = d\<lparr>tenants := tenants d @ [tn]\<rparr>"

lemma tryCreateTenantTx_effect:
  assumes "tryCreateTenantTx x t i slug w = (r, w')"
  shows "(\<exists>e. r = Inl e) \<and> db w' = db w \<or> (\<exists>tn. r = Inr tn \<and> t_slug tn = slug \<and> adds_tenant x i (db w) tn (db w'))"
proof -
  let ?q = "CreateTenant x (UUIDToPg i) slug (''runnix-tenant-'' @ x_uuid_string x i) ''free''"
  obtain s w1 where s: "tx_call t savepoint w = (s, w1)" by (metis prod.exhaust)
  have s1: "db w1 = db w \<and> (\<forall>d. s = Inr d \<longrightarrow> d = db w)"
    using tx_call_effect [OF s] by (auto simp: savepoint_def)
  obtain q w2 where q: "tx_call t ?q w1 = (q, w2)" by (metis prod.exhaust)
  obtain c w3 where c: "tx_call t release w2 = (c, w3)" by (metis prod.exhaust)
  have c1: "db w3 = db w2" using tx_call_effect [OF c] by (auto simp: release_def)
  show ?thesis
  proof (cases "\<exists>tn. r = Inr tn")
    case True
    with assms s q c obtain tn d where tn: "s = Inr d" "r = Inr tn" "q = Inr tn" "c = Inr ()" "w' = w3"
      by (auto simp: tryCreateTenantTx_def split: sum.splits)
    from tx_call_effect [OF q] tn(3) s1 obtain u where "(Inr tn, db w2) = ?q (tx_now t) u (db w)" by auto
    with tn c1 show ?thesis
      by (auto simp: CreateTenant_def UUIDToPg_def adds_tenant_def Let_def split: if_splits)
  next
    case False
    with assms s q c s1 show ?thesis by (auto simp: tryCreateTenantTx_def split: sum.splits)
  qed
qed

lemma tenant_attempts_effect:
  "tenant_attempts x t i base slug n w = (r, w') \<Longrightarrow>
   (\<exists>e. r = Inl e) \<and> db w' = db w \<or> (\<exists>tn. r = Inr tn \<and> adds_tenant x i (db w) tn (db w'))"
proof (induction n arbitrary: slug w)
  case 0
  obtain q w1 where q: "tryCreateTenantTx x t i slug w = (q, w1)" by (metis prod.exhaust)
  with 0 tryCreateTenantTx_effect [OF q] show ?case
    by (auto simp: tenant_attempts.simps [of x t i base slug 0] split: if_splits sum.splits)
next
  case (Suc n)
  obtain q w1 where q: "tryCreateTenantTx x t i slug w = (q, w1)" by (metis prod.exhaust)
  obtain u w2 where u: "new_uuid w1 = (u, w2)" by (metis prod.exhaust)
  from Suc.prems q u have "q = r \<and> w1 = w'
      \<or> (\<exists>e. q = Inl e) \<and> tenant_attempts x t i base (base @ ''-'' @ take 4 (x_uuid_string x u)) n w2 = (r, w')"
    by (auto simp: tenant_attempts.simps [of x t i base slug "Suc n"] split: if_splits sum.splits)
  with Suc.IH tryCreateTenantTx_effect [OF q] new_uuid_db [OF u] show ?case by fastforce
qed

lemma update_where_hit: "r \<in> set rs \<Longrightarrow> p r \<Longrightarrow> f r \<in> set (update_where p f rs)"
  by (auto simp: set_update_where intro!: rev_image_eqI)

lemma AddMembership_owner:
  assumes "AddMembership uid (Some k) ''owner'' t u d = (r, d')"
  shows "(\<exists>e. r = Inl e) \<and> d' = d \<or> (\<exists>i ms. r = Inr () \<and> uid = Some i \<and> d' = d\<lparr>memberships := ms\<rparr>
    \<and> (\<exists>m\<in>set ms. m_user_id m = i \<and> m_tenant_id m = k \<and> m_role m = ''owner'')
    \<and> grows member_le (memberships d) ms \<and> (\<forall>m\<in>set (memberships d). m_role m = ''owner'' \<longrightarrow> m \<in> set ms))"
proof (cases "r = Inr ()")
  case True
  with assms obtain i where i: "uid = Some i" by (auto simp: AddMembership_def split: option.splits)
  have "d' = d\<lparr>memberships := memberships d'\<rparr>"
    using assms by (auto simp: AddMembership_def split: option.splits if_splits)
  moreover have "\<exists>m\<in>set (memberships d'). m_user_id m = i \<and> m_tenant_id m = k \<and> m_role m = ''owner''"
    using assms True i
    by (auto simp: AddMembership_def split: if_splits intro!: bexI [OF _ update_where_hit])
  moreover have "grows member_le (memberships d) (memberships d')"
    using db_step_le [OF db_step.add_membership [of d uid "Some k" "''owner''" t u]] assms by (simp add: db_le_def)
  moreover have "\<forall>m\<in>set (memberships d). m_role m = ''owner'' \<longrightarrow> m \<in> set (memberships d')"
    using assms True i
    by (auto simp: AddMembership_def in_update_where split: if_splits) (metis (full_types) membership.surjective membership.update_convs(3))
  ultimately show ?thesis using True i by blast
next
  case False
  with assms show ?thesis by (auto simp: AddMembership_def split: option.splits if_splits)
qed

text \<open>The tables with one more tenant, whose owner is the given user.\<close>

definition owned_tenant :: "ext \<Rightarrow> uuid \<Rightarrow> db \<Rightarrow> db \<Rightarrow> bool" where
  "owned_tenant x i d d' \<longleftrightarrow> (\<exists>tn ms. adds_tenant x (t_id tn) d tn (d\<lparr>tenants := tenants d @ [tn]\<rparr>)
     \<and> d' = d\<lparr>tenants := tenants d @ [tn], memberships := ms\<rparr>
     \<and> (\<exists>m\<in>set ms. m_user_id m = i \<and> m_tenant_id m = t_id tn \<and> m_role m = ''owner'')
     \<and> grows member_le (memberships d) ms \<and> (\<forall>m\<in>set (memberships d). m_role m = ''owner'' \<longrightarrow> m \<in> set ms))"

text \<open>The two statements that \<open>Create\<close> and \<open>Register\<close> share.\<close>

lemma tenant_with_owner:
  assumes "createTenantTx x t i base w = (Inr tn, w1)"
    and "tx_call t (AddMembership uid (Some (t_id tn)) ''owner'') w1 = (Inr v, w2)"
  shows "\<exists>u. uid = Some u \<and> owned_tenant x u (db w) (db w2)"
proof -
  from assms(1) have a: "adds_tenant x i (db w) tn (db w1)"
    using tenant_attempts_effect unfolding createTenantTx_def by blast
  from tx_call_effect [OF assms(2)] obtain n
    where "AddMembership uid (Some (t_id tn)) ''owner'' (tx_now t) n (db w1) = (Inr v, db w2)" by auto
  from AddMembership_owner [OF this] obtain u ms where m: "uid = Some u" "db w2 = (db w1)\<lparr>memberships := ms\<rparr>"
    "\<exists>m\<in>set ms. m_user_id m = u \<and> m_tenant_id m = t_id tn \<and> m_role m = ''owner''"
    "grows member_le (memberships (db w1)) ms"
    "\<forall>m\<in>set (memberships (db w1)). m_role m = ''owner'' \<longrightarrow> m \<in> set ms" by auto
  from a have "db w1 = (db w)\<lparr>tenants := tenants (db w) @ [tn]\<rparr>" "t_id tn = i" by (auto simp: adds_tenant_def)
  with a m show ?thesis
    unfolding owned_tenant_def by (intro exI [of _ u] conjI exI [of _ tn] exI [of _ ms]) auto
qed

subsection \<open>Guarantee\<close>

lemma tx_call_savepoint: "tx_call t savepoint w = (Inr d, w1) \<Longrightarrow> d = db w \<and> db w1 = db w"
  using tx_call_effect [of t savepoint w "Inr d" w1] by (auto simp: savepoint_def)

lemma tryCreateTenantTx_io:
  "same_io w0 w \<Longrightarrow> keeps (same_io w0) (tryCreateTenantTx x t i slug w)"
  "later w0 w \<Longrightarrow> keeps (later w0) (tryCreateTenantTx x t i slug w)"
  unfolding tryCreateTenantTx_def
  by (intro keeps_bind keeps_rules call_same call_later; simp)+

lemma new_uuid_io:
  "same_io w0 w \<Longrightarrow> keeps (same_io w0) (new_uuid w)" "later w0 w \<Longrightarrow> keeps (later w0) (new_uuid w)"
  by (cases "tx_tick w"; simp add: new_uuid_def keeps_def same_io_def tx_tickD tx_tick_later)+

lemma tenant_attempts_io:
  "same_io w0 w \<Longrightarrow> keeps (same_io w0) (tenant_attempts x t i base slug n w)"
  "later w0 w \<Longrightarrow> keeps (later w0) (tenant_attempts x t i base slug n w)"
proof (induction n arbitrary: w slug)
  case 0
  { case 1 then show ?case unfolding tenant_attempts.simps [of _ _ _ _ _ 0]
      by (intro keeps_bind keeps_rules tryCreateTenantTx_io) (auto simp: keeps_def) }
  { case 2 then show ?case unfolding tenant_attempts.simps [of _ _ _ _ _ 0]
      by (intro keeps_bind keeps_rules tryCreateTenantTx_io) (auto simp: keeps_def) }
next
  case (Suc n)
  { case 1 then show ?case unfolding tenant_attempts.simps [of _ _ _ _ _ "Suc n"] nat.case
      by (intro keeps_bind keeps_rules tryCreateTenantTx_io new_uuid_io Suc.IH) (auto simp: keeps_def) }
  { case 2 then show ?case unfolding tenant_attempts.simps [of _ _ _ _ _ "Suc n"] nat.case
      by (intro keeps_bind keeps_rules tryCreateTenantTx_io new_uuid_io Suc.IH) (auto simp: keeps_def) }
qed

context store_client
begin

lemma new_uuid_keeps: "safe R d0 w \<Longrightarrow> keeps (safe R d0) (new_uuid w)"
  by (auto simp: new_uuid_def keeps_def dest: tx_tick_safe split: prod.split)

lemma tryCreateTenantTx_keeps:
  assumes "safe R d0 w"
  shows "keeps (safe R d0) (tryCreateTenantTx x t i slug w)"
proof -
  have undo: "safe R d0 (w2\<lparr>db := d\<rparr>)" if "tx_call t savepoint w = (Inr d, w1)" "safe R d0 w2" for d w1 w2
    using tx_call_savepoint [OF that(1)] assms that(2) by (auto simp: safe_def obeys_def)
  have sp: "R d (snd (savepoint tm u d))" "R d (snd (release tm u d))" for tm u d
    by (simp_all add: savepoint_def release_def R_refl)
  show ?thesis
    unfolding tryCreateTenantTx_def
    by (intro keeps_bind keeps_rules tx_call_keeps sp stmt_R assms) (auto intro: undo)
qed

lemma tenant_attempts_keeps:
  "safe R d0 w \<Longrightarrow> keeps (safe R d0) (tenant_attempts x t i base slug n w)"
proof (induction n arbitrary: w slug)
  case 0
  then show ?case unfolding tenant_attempts.simps [of _ _ _ _ _ 0]
    by (intro keeps_bind keeps_rules tryCreateTenantTx_keeps) (auto simp: keeps_def)
next
  case (Suc n)
  then show ?case unfolding tenant_attempts.simps [of _ _ _ _ _ "Suc n"] nat.case
    by (intro keeps_bind keeps_rules tryCreateTenantTx_keeps new_uuid_keeps Suc.IH) (auto simp: keeps_def)
qed

lemma Create_tenant_keeps:
  assumes "safe R d0 w"
  shows "keeps (safe R d0) (Create_tenant x r w)"
  unfolding Create_tenant_def createTenantTx_def
  by (intro keeps_bind keeps_rules tx_begin_keeps tx_call_keeps tx_commit_keeps tx_rollback_safe
      tenant_attempts_keeps new_uuid_keeps store_rules assms)
    (blast dest: tx_begin_saved [OF assms])+

lemma Get_tenant_keeps: "safe R d0 w \<Longrightarrow> keeps (safe R d0) (Get_tenant x r w)"
  unfolding Get_tenant_def Let_def
  by (intro keeps_bind keeps_rules db_call_keeps store_rules)

end

lemma Create_tenant_io:
  "same_io w0 w \<Longrightarrow> keeps (same_io w0) (Create_tenant x r w)"
  "later w0 w \<Longrightarrow> keeps (later w0) (Create_tenant x r w)"
  unfolding Create_tenant_def createTenantTx_def
  by (intro keeps_bind keeps_rules call_same call_later tenant_attempts_io new_uuid_io; simp)+

lemma Get_tenant_io: "same_io w0 w \<Longrightarrow> keeps (same_io w0) (Get_tenant x r w)"
  unfolding Get_tenant_def Let_def by (intro keeps_bind keeps_rules call_same; simp)

subsection \<open>Properties\<close>

lemma keeps_clear: "keeps (later w) p \<Longrightarrow> clear w \<Longrightarrow> clear (snd p)"
  by (auto simp: keeps_def dest: later_clear)

lemma new_uuid_clear: "new_uuid w = (u, w') \<Longrightarrow> clear w \<Longrightarrow> clear w'"
  using keeps_clear [OF new_uuid_io(2) [OF later_refl]] by fastforce

lemma createTenantTx_clear: "createTenantTx x t i base w = (r, w') \<Longrightarrow> clear w \<Longrightarrow> clear w'"
  using keeps_clear [OF tenant_attempts_io(2) [OF later_refl]] unfolding createTenantTx_def by (metis snd_conv)

text \<open>The transaction of a create-tenant request: all of it or nothing.\<close>

lemma create_tenant_tx:
  assumes "Create_tenant x r w = (resp, w')" and "decodeBody r = Some req" and "UserIDFrom r \<noteq> []"
    and "tenant_base x req = Inr base" and "ParsePg x (UserIDFrom r) = Inr uid" and "tx_begin w = (Inr t, w1)"
  shows "rs_code resp \<noteq> 201 \<and> db w' = db w1
    \<or> (\<exists>i. x_uuid_parse x (UserIDFrom r) = Some i \<and> owned_tenant x i (db w1) (db w')
        \<and> (rs_code resp = 201 \<or> rs_code resp = 500 \<and> \<not> clear w))"
proof -
  have saved: "tx_saved t = db w1" using assms(6) by (cases rule: tx_begin_cases) auto
  obtain i w2 where i: "new_uuid w1 = (i, w2)" by (metis prod.exhaust)
  obtain c w3 where c: "createTenantTx x t i base w2 = (c, w3)" by (metis prod.exhaust)
  note run = assms saved i c
  show ?thesis
  proof (cases "\<exists>tn. c = Inr tn")
    case True
    then obtain tn where tn: "c = Inr tn" ..
    obtain m w4 where m: "tx_call t (AddMembership uid (Some (t_id tn)) ''owner'') w3 = (m, w4)" by (metis prod.exhaust)
    obtain k w5 where k: "tx_commit t w4 = (k, w5)" by (metis prod.exhaust)
    have cl: "clear w \<Longrightarrow> clear w4"
      using tx_clear(1) [OF assms(6)] new_uuid_clear [OF i] createTenantTx_clear [OF c] tx_clear(2) [OF m] by blast
    show ?thesis
    proof (cases "m = Inr ()")
      case ok: True
      from tenant_with_owner [OF c [unfolded tn] m [unfolded ok]] i assms(5)
      obtain u where "x_uuid_parse x (UserIDFrom r) = Some u" "owned_tenant x u (db w1) (db w4)"
        by (auto simp: ParsePg_Inr)
      with run tn m ok k tx_commit_db [OF k] cl show ?thesis
        by (auto simp: Create_tenant_def split: sum.splits)
    qed (use run tn m in \<open>auto simp: Create_tenant_def split: sum.splits\<close>)
  qed (use run in \<open>auto simp: Create_tenant_def pgConflictStatus_def split: sum.splits if_splits\<close>)
qed

text \<open>
  Property C25: creating a tenant is atomic. Either nothing is stored, or exactly one tenant is
  stored together with an owner membership of the caller; 201 is answered only in the second
  case, and in the second case 201 is answered unless the outcome of the commit was
  ambiguous.
\<close>

theorem create_tenant_atomic:
  assumes "Create_tenant x r w = (resp, w')"
  shows "rs_code resp \<noteq> 201 \<and> db w' \<in> {db w, db (snd (tick w))}
    \<or> (\<exists>i. x_uuid_parse x (UserIDFrom r) = Some i \<and> owned_tenant x i (db (snd (tick w))) (db w')
        \<and> (rs_code resp = 201 \<or> rs_code resp = 500 \<and> \<not> clear w))"
proof -
  obtain b w1 where b: "tx_begin w = (b, w1)" by (metis prod.exhaust)
  have w1: "w1 = snd (tick w)" using b by (cases rule: tx_begin_cases) auto
  show ?thesis
  proof (cases "\<exists>req base uid t. decodeBody r = Some req \<and> UserIDFrom r \<noteq> [] \<and> tenant_base x req = Inr base
      \<and> ParsePg x (UserIDFrom r) = Inr uid \<and> b = Inr t")
    case True
    with create_tenant_tx [OF assms] b w1 show ?thesis by blast
  next
    case False
    with assms b w1 show ?thesis
      by (auto simp: Create_tenant_def tenant_base_def Let_def split: if_splits option.splits sum.splits)
  qed
qed

definition sample_tenant_request :: "create_tenant_request request" where
  "sample_tenant_request =
     (plain_request [] (Some \<lparr>ct_name = ''Acme-2'', ct_slug = ''acme-2''\<rparr>))\<lparr>rq_user := ''1''\<rparr>"

lemma sample_tenant_created: "rs_code (fst (Create_tenant sample_ext sample_tenant_request sample_world)) = 201"
proof -
  have g: "TrimSpace ''Acme-2'' = ''Acme-2''" "TrimSpace ''acme-2'' = ''acme-2''"
    by (simp_all add: TrimSpace_graphic graphic_def)
  have b: "tenant_base sample_ext \<lparr>ct_name = ''Acme-2'', ct_slug = ''acme-2''\<rparr> = Inr ''acme-2''"
    by (simp add: tenant_base_def g ascii_lower_def validSlug_def slug_char_def)
  have p: "ParsePg sample_ext ''1'' = Inr (Some 1)" by (simp add: ParsePg_def UUIDToPg_def)
  have u: "new_uuid sample_world = (0, sample_world)" by (simp add: new_uuid_def tx_tick_def)
  have t: "text_ok ''acme-2''" "text_ok ''runnix-tenant-0''" "text_ok ''free''" by (simp_all add: text_ok_def)
  have x: "x_citext sample_ext = (\<lambda>s. s)" "t_slug sample_tenant = ''acme''" "t_namespace sample_tenant = ''tenant-2''"
    by (simp_all add: sample_ext_def sample_tenant_def)
  have r: "decodeBody sample_tenant_request = Some \<lparr>ct_name = ''Acme-2'', ct_slug = ''acme-2''\<rparr>"
    "UserIDFrom sample_tenant_request = ''1''"
    by (simp_all add: sample_tenant_request_def plain_request_def UserIDFrom_def)
  have c: "createTenantTx sample_ext \<lparr>tx_now = n, tx_saved = sample_db\<rparr> 0 ''acme-2'' sample_world =
    (Inr \<lparr>t_id = 0, t_slug = ''acme-2'', t_namespace = ''runnix-tenant-0'', t_tier = ''free'', t_created_at = n\<rparr>,
     sample_world\<lparr>db := sample_db\<lparr>tenants := [sample_tenant, \<lparr>t_id = 0, t_slug = ''acme-2'',
        t_namespace = ''runnix-tenant-0'', t_tier = ''free'', t_created_at = n\<rparr>]\<rparr>\<rparr>)" for n
    by (simp add: createTenantTx_def tenant_attempts.simps tryCreateTenantTx_def tx_quiet savepoint_def release_def
        CreateTenant_def UUIDToPg_def valid_tier_def Let_def t x)
  show ?thesis
    by (simp add: Create_tenant_def r b p tx_quiet u c AddMembership_def valid_role_def)
qed

theorem create_tenant_atomic_witness:
  "owned_tenant sample_ext 1 sample_db (db (snd (Create_tenant sample_ext sample_tenant_request sample_world)))"
  using create_tenant_atomic [OF prod.collapse [symmetric], of sample_ext sample_tenant_request sample_world]
    sample_tenant_created
  by (auto simp: sample_tenant_request_def plain_request_def UserIDFrom_def)

end
