(* ===== verification/Sessions.thy ===== *)
theory Sessions
  imports Tenants
begin

section \<open>Accounts and sessions\<close>

text \<open>
  \<open>internal/http/handlers/auth.go\<close> and \<open>handlers/users.go\<close>: registering, logging in, rotating and
  revoking refresh tokens, and the profile of the caller. A session is a signed access token
  and a refresh token whose \<open>jti\<close> is a row of \<open>refresh_tokens\<close>.
\<close>

record register_request =
  rg_username :: string
  rg_email :: string
  rg_password :: string

record login_request =
  lg_email :: string
  lg_username :: string
  lg_password :: string

record refresh_request =
  tk_refresh :: string

record logout_request =
  lo_refresh :: string

subsection \<open>Memberships and the session envelope\<close>

definition tenantJSON :: "ext \<Rightarrow> membership_row \<Rightarrow> json" where
  "tenantJSON x m = JObject [(''id'', JString (PgToString x (mr_id m))), (''slug'', JString (mr_slug m)),
     (''role'', JString (mr_role m))]"

definition userJSON :: "string \<Rightarrow> string \<Rightarrow> string \<Rightarrow> json" where
  "userJSON i name email =
     JObject [(''id'', JString i), (''username'', JString name), (''email'', JString email)]"

definition claim_of :: "ext \<Rightarrow> membership_row \<Rightarrow> tenant_claim" where
  "claim_of x m = \<lparr>tc_id = PgToString x (mr_id m), tc_role = mr_role m\<rparr>"

text \<open>The lister is the queries on the pool or in a transaction.\<close>

definition resolveMemberships ::
    "ext \<Rightarrow> queries \<Rightarrow> uuid option \<Rightarrow> world
     \<Rightarrow> (json list \<times> tenant_claim list) result \<times> world" where
  "resolveMemberships x lister uid w =
     (case run_query lister (ListTenantMemberships uid) w of (q, w1) \<Rightarrow>
        (case q of
           Inl e \<Rightarrow> Inl e
         | Inr rows \<Rightarrow> Inr (map (tenantJSON x) rows, map (claim_of x) rows), w1))"

definition session_json :: "json \<Rightarrow> json list \<Rightarrow> string \<Rightarrow> string \<Rightarrow> json" where
  "session_json user ts access refresh =
     JObject [(''accessToken'', JString access), (''refreshToken'', JString refresh),
       (''tenants'', JArray ts), (''user'', user)]"

definition RefreshTTL :: int where "RefreshTTL = 7 * 24 * 3600 * second"

definition writeSession ::
    "ext \<Rightarrow> string \<Rightarrow> int \<Rightarrow> string \<Rightarrow> string \<Rightarrow> string \<Rightarrow> world \<Rightarrow> response \<times> world" where
  "writeSession x secret code userID username email w =
     (let bad = writeErr 500 ''could not create session''
      in case ParsePg x userID of
        Inl _ \<Rightarrow> (bad, w)
      | Inr uid \<Rightarrow>
          (case resolveMemberships x (New_queries OnPool) uid w of (m, w1) \<Rightarrow>
            case m of
              Inl _ \<Rightarrow> (bad, w1)
            | Inr tc \<Rightarrow>
                (case SignAccessToken x secret userID (snd tc) w1 of
                   Inl _ \<Rightarrow> (bad, w1)
                 | Inr access \<Rightarrow>
                     (case SignRefreshToken x secret userID w1 of (s, w2) \<Rightarrow>
                       case s of
                         Inl _ \<Rightarrow> (bad, w2)
                       | Inr rj \<Rightarrow>
                           (case ParsePg x (snd rj) of
                              Inl _ \<Rightarrow> (bad, w2)
                            | Inr jti \<Rightarrow>
                                (case db_call (CreateRefreshToken jti uid (now w2 + RefreshTTL)) w2 of (c, w3) \<Rightarrow>
                                  (case c of
                                     Inl _ \<Rightarrow> bad
                                   | Inr _ \<Rightarrow> writeJSON code
                                       (session_json (userJSON userID username email) (fst tc) access (fst rj)),
                                   w3)))))))"

subsection \<open>Register and login\<close>

definition Register :: "ext \<Rightarrow> string \<Rightarrow> register_request handler" where
  "Register x secret r w =
     (case decodeBody r of
        None \<Rightarrow> (writeErr 400 ''invalid JSON body'', w)
      | Some req \<Rightarrow>
         let name = TrimSpace (rg_username req); email = ToLower (x_lower x) (TrimSpace (rg_email req))
         in if length name < 3 then (writeErr 400 ''username must be 3+ characters'', w)
            else if \<not> x_mail_ok x email then (writeErr 400 ''invalid email'', w)
            else if length (rg_password req) < 8 then (writeErr 400 ''password must be 8+ characters'', w)
            else (case HashPassword x (rg_password req) w of (h, w1) \<Rightarrow>
              case h of
                Inl _ \<Rightarrow> (writeErr 500 ''could not create user'', w1)
              | Inr hash \<Rightarrow>
                  (case tx_begin w1 of (b, w2) \<Rightarrow>
                    case b of
                      Inl _ \<Rightarrow> (writeErr 500 ''could not create user'', w2)
                    | Inr t \<Rightarrow>
                        (case tx_call t (CreateUser x email name hash) w2 of (u, w3) \<Rightarrow>
                          case u of
                            Inl e \<Rightarrow> (writeErr (pgConflictStatus e)
                                        (pgConflictMessage e ''username or email already exists''), tx_rollback t w3)
                          | Inr user \<Rightarrow>
                              (case new_uuid w3 of (i, w4) \<Rightarrow>
                               case createTenantTx x t i (slugify x name) w4 of (c, w5) \<Rightarrow>
                                case c of
                                  Inl e \<Rightarrow> (writeErr (pgConflictStatus e) (pgConflictMessage e ''username is taken''),
                                             tx_rollback t w5)
                                | Inr tn \<Rightarrow>
                                    (case tx_call t (AddMembership (cu_id user) (Some (t_id tn)) ''owner'') w5 of (m, w6) \<Rightarrow>
                                      case m of
                                        Inl _ \<Rightarrow> (writeErr 500 ''could not create membership'', tx_rollback t w6)
                                      | Inr _ \<Rightarrow>
                                          (case tx_commit t w6 of (k, w7) \<Rightarrow>
                                            case k of
                                              Inl _ \<Rightarrow> (writeErr 500 ''could not create user'', w7)
                                            | Inr _ \<Rightarrow> writeSession x secret 201 (PgToString x (cu_id user))
                                                (cu_username user) (cu_email user) w7)))))))"

definition Login :: "ext \<Rightarrow> string \<Rightarrow> login_request handler" where
  "Login x secret r w =
     (case decodeBody r of
        None \<Rightarrow> (writeErr 400 ''invalid JSON body'', w)
      | Some req \<Rightarrow>
         let email = ToLower (x_lower x) (TrimSpace (lg_email req)); name = TrimSpace (lg_username req)
         in if lg_password req = [] \<or> email = [] \<and> name = []
              then (writeErr 400 ''email or username and password are required'', w)
            else (case db_call (if email \<noteq> [] then GetUserByEmail x email else GetUserByUsername name) w of (q, w1) \<Rightarrow>
              case q of
                Inl e \<Rightarrow> (if e = NoRows then writeErr 401 ''invalid credentials''
                          else writeErr 500 ''could not log in'', w1)
              | Inr user \<Rightarrow>
                  (case CheckPassword x (u_password_hash user) (lg_password req) of
                     Inl _ \<Rightarrow> (writeErr 401 ''invalid credentials'', w1)
                   | Inr _ \<Rightarrow> writeSession x secret 200 (x_uuid_string x (u_id user)) (u_username user)
                       (u_email user) w1)))"

subsection \<open>Refresh and logout\<close>

text \<open>What \<open>Refresh\<close> does inside its transaction after the token is consumed.\<close>

definition rotate_session ::
    "ext \<Rightarrow> string \<Rightarrow> tx \<Rightarrow> string \<Rightarrow> uuid option \<Rightarrow> world \<Rightarrow> (response + json) \<times> world" where
  "rotate_session x secret t userID uid w =
     (let bad = Inl (writeErr 500 ''could not refresh'')
      in case tx_call t (GetUserByID uid) w of (q, w1) \<Rightarrow>
        case q of
          Inl e \<Rightarrow> (if e = NoRows then Inl (writeErr 401 ''invalid refresh token'') else bad, w1)
        | Inr user \<Rightarrow>
            (case resolveMemberships x (New_queries (OnTx t)) uid w1 of (m, w2) \<Rightarrow>
              case m of
                Inl _ \<Rightarrow> (bad, w2)
              | Inr tc \<Rightarrow>
                  (case SignAccessToken x secret userID (snd tc) w2 of
                     Inl _ \<Rightarrow> (bad, w2)
                   | Inr access \<Rightarrow>
                       (case SignRefreshToken x secret userID w2 of (s, w3) \<Rightarrow>
                         case s of
                           Inl _ \<Rightarrow> (bad, w3)
                         | Inr rj \<Rightarrow>
                             (case ParsePg x (snd rj) of
                                Inl _ \<Rightarrow> (bad, w3)
                              | Inr jti \<Rightarrow>
                                  (case tx_call t (CreateRefreshToken jti uid (now w3 + RefreshTTL)) w3 of (c, w4) \<Rightarrow>
                                    (case c of
                                       Inl _ \<Rightarrow> bad
                                     | Inr _ \<Rightarrow> Inr (session_json
                                         (userJSON (x_uuid_string x (u_id user)) (u_username user) (u_email user))
                                         (fst tc) access (fst rj)), w4)))))))"

definition Refresh :: "ext \<Rightarrow> string \<Rightarrow> refresh_request handler" where
  "Refresh x secret r w =
     (let unauth = writeErr 401 ''invalid refresh token''; bad = writeErr 500 ''could not refresh''
      in case decodeBody r of
        None \<Rightarrow> (writeErr 400 ''invalid JSON body'', w)
      | Some req \<Rightarrow>
         if tk_refresh req = [] then (writeErr 400 ''refreshToken is required'', w)
         else (case ParseRefreshToken x secret (tk_refresh req) (now w) of
             Inl _ \<Rightarrow> (unauth, w)
           | Inr uj \<Rightarrow>
              (case ParsePg x (snd uj) of
                 Inl _ \<Rightarrow> (unauth, w)
               | Inr jti \<Rightarrow>
                  (case ParsePg x (fst uj) of
                     Inl _ \<Rightarrow> (unauth, w)
                   | Inr uid \<Rightarrow>
                      (case tx_begin w of (b, w1) \<Rightarrow>
                        case b of
                          Inl _ \<Rightarrow> (bad, w1)
                        | Inr t \<Rightarrow>
                            (case tx_call t (ConsumeRefreshToken jti uid) w1 of (q, w2) \<Rightarrow>
                              case q of
                                Inl e \<Rightarrow> (if e = NoRows then unauth else bad, tx_rollback t w2)
                              | Inr _ \<Rightarrow>
                                  (case rotate_session x secret t (fst uj) uid w2 of (v, w3) \<Rightarrow>
                                    case v of
                                      Inl resp \<Rightarrow> (resp, tx_rollback t w3)
                                    | Inr j \<Rightarrow>
                                        (case tx_commit t w3 of (k, w4) \<Rightarrow>
                                          (case k of Inl _ \<Rightarrow> bad | Inr _ \<Rightarrow> writeJSON 200 j, w4)))))))))"

definition Logout :: "ext \<Rightarrow> string \<Rightarrow> logout_request handler" where
  "Logout x secret r w =
     (writeJSON 200 (JObject [(''status'', JString ''logged out'')]),
      (case decodeBody r of
         None \<Rightarrow> w
       | Some req \<Rightarrow>
           if lo_refresh req = [] then w
           else (case ParseRefreshToken x secret (lo_refresh req) (now w) of
               Inl _ \<Rightarrow> w
             | Inr uj \<Rightarrow>
                 (case ParsePg x (snd uj) of
                    Inl _ \<Rightarrow> w
                  | Inr jti \<Rightarrow> snd (db_call (RevokeRefreshToken jti) w)))))"

definition LogoutAll :: "ext \<Rightarrow> 'a handler" where
  "LogoutAll x r w =
     (if UserIDFrom r = [] then (writeErr 401 ''authentication required'', w)
      else (case ParsePg x (UserIDFrom r) of
          Inl _ \<Rightarrow> (writeErr 401 ''invalid user identity'', w)
        | Inr uid \<Rightarrow>
            (case db_call (RevokeAllRefreshTokens uid) w of (q, w1) \<Rightarrow>
              (case q of
                 Inl _ \<Rightarrow> writeErr 500 ''could not log out''
               | Inr _ \<Rightarrow> writeJSON 200 (JObject [(''status'', JString ''logged out'')]), w1))))"

subsection \<open>The caller's profile\<close>

definition Me :: "ext \<Rightarrow> 'a handler" where
  "Me x r w =
     (if UserIDFrom r = [] then (writeErr 401 ''authentication required'', w)
      else (case ParsePg x (UserIDFrom r) of
          Inl _ \<Rightarrow> (writeErr 401 ''invalid user identity'', w)
        | Inr uid \<Rightarrow>
            (case db_call (GetUserByID uid) w of (q, w1) \<Rightarrow>
              case q of
                Inl e \<Rightarrow> (if e = NoRows then writeErr 401 ''invalid user identity''
                          else writeErr 500 ''could not get user'', w1)
              | Inr user \<Rightarrow>
                  (case resolveMemberships x (New_queries OnPool) uid w1 of (m, w2) \<Rightarrow>
                    (case m of
                       Inl _ \<Rightarrow> writeErr 500 ''could not get user''
                     | Inr tc \<Rightarrow> writeJSON 200 (JObject [(''tenants'', JArray (fst tc)),
                         (''user'', userJSON (x_uuid_string x (u_id user)) (u_username user) (u_email user))]), w2)))))"

subsection \<open>Guarantee\<close>

lemma SignRefreshToken_db: "SignRefreshToken x secret u w = (s, w') \<Longrightarrow> db w' = db w"
  by (auto simp: SignRefreshToken_def Let_def split: prod.splits)

lemma SignRefreshToken_io:
  "same_io w0 w \<Longrightarrow> keeps (same_io w0) (SignRefreshToken x secret u w)"
  "later w0 w \<Longrightarrow> keeps (later w0) (SignRefreshToken x secret u w)"
  unfolding SignRefreshToken_def Let_def
  by (rule keeps_bind, erule new_uuid_io, erule keeps_ret)+

lemma HashPassword_io:
  "same_io w0 w \<Longrightarrow> keeps (same_io w0) (HashPassword x p w)" "later w0 w \<Longrightarrow> keeps (later w0) (HashPassword x p w)"
  unfolding HashPassword_def
  by (rule keeps_bind, erule tick_same, erule keeps_ret) (rule keeps_bind, erule call_later, erule keeps_ret)

lemma resolveMemberships_io:
  "same_io w0 w \<Longrightarrow> keeps (same_io w0) (resolveMemberships x (New_queries OnPool) uid w)"
  "same_io w0 w \<Longrightarrow> keeps (same_io w0) (resolveMemberships x (New_queries (OnTx t)) uid w)"
  "later w0 w \<Longrightarrow> keeps (later w0) (resolveMemberships x (New_queries OnPool) uid w)"
  "later w0 w \<Longrightarrow> keeps (later w0) (resolveMemberships x (New_queries (OnTx t)) uid w)"
  unfolding resolveMemberships_def run_query_simps
  by (rule keeps_bind, (erule call_same | erule call_later), erule keeps_ret)+

lemma writeSession_io:
  "same_io w0 w \<Longrightarrow> keeps (same_io w0) (writeSession x secret code u n e w)"
  "later w0 w \<Longrightarrow> keeps (later w0) (writeSession x secret code u n e w)"
  unfolding writeSession_def Let_def
  by (intro keeps_bind keeps_rules call_same call_later resolveMemberships_io SignRefreshToken_io; simp)+

lemma rotate_session_io:
  "same_io w0 w \<Longrightarrow> keeps (same_io w0) (rotate_session x secret t u uid w)"
  "later w0 w \<Longrightarrow> keeps (later w0) (rotate_session x secret t u uid w)"
  unfolding rotate_session_def Let_def
  by (intro keeps_bind keeps_rules call_same call_later resolveMemberships_io SignRefreshToken_io; simp)+

lemma account_io:
  "same_io w0 w \<Longrightarrow> keeps (same_io w0) (Register x secret rr w)"
  "same_io w0 w \<Longrightarrow> keeps (same_io w0) (Login x secret lr w)"
  "same_io w0 w \<Longrightarrow> keeps (same_io w0) (Refresh x secret tr w)"
  "same_io w0 w \<Longrightarrow> keeps (same_io w0) (Logout x secret lo w)"
  "same_io w0 w \<Longrightarrow> keeps (same_io w0) (LogoutAll x r w)"
  "same_io w0 w \<Longrightarrow> keeps (same_io w0) (Me x r w)"
proof -
  show "same_io w0 w \<Longrightarrow> keeps (same_io w0) (Register x secret rr w)"
    unfolding Register_def Let_def createTenantTx_def
    by (intro keeps_bind keeps_rules call_same HashPassword_io tenant_attempts_io new_uuid_io writeSession_io; simp)
  show "same_io w0 w \<Longrightarrow> keeps (same_io w0) (Login x secret lr w)"
    unfolding Login_def Let_def by (intro keeps_bind keeps_rules call_same writeSession_io; simp)
  show "same_io w0 w \<Longrightarrow> keeps (same_io w0) (Refresh x secret tr w)"
    unfolding Refresh_def Let_def by (intro keeps_bind keeps_rules call_same rotate_session_io; simp)
  show "same_io w0 w \<Longrightarrow> keeps (same_io w0) (Logout x secret lo w)"
    using call_same(1) [of w0 w] by (auto simp: Logout_def keeps_def split: option.split sum.split)
  show "same_io w0 w \<Longrightarrow> keeps (same_io w0) (LogoutAll x r w)"
    unfolding LogoutAll_def by (intro keeps_bind keeps_rules call_same; simp)
  show "same_io w0 w \<Longrightarrow> keeps (same_io w0) (Me x r w)"
    unfolding Me_def by (intro keeps_bind keeps_rules call_same resolveMemberships_io; simp)
qed

context store_client
begin

lemma SignRefreshToken_keeps: "safe R d0 w \<Longrightarrow> keeps (safe R d0) (SignRefreshToken x secret u w)"
  unfolding SignRefreshToken_def Let_def by (rule keeps_bind, erule new_uuid_keeps, erule keeps_ret)

lemma resolveMemberships_keeps:
  assumes "safe R d0 w"
  shows "keeps (safe R d0) (resolveMemberships x (New_queries OnPool) uid w)"
    "keeps (safe R d0) (resolveMemberships x (New_queries (OnTx t)) uid w)"
  unfolding resolveMemberships_def run_query_simps
  by (rule keeps_bind, intro db_call_keeps tx_call_keeps store_rules assms, erule keeps_ret)+

lemma writeSession_keeps: "safe R d0 w \<Longrightarrow> keeps (safe R d0) (writeSession x secret code u n e w)"
  unfolding writeSession_def Let_def
  by (intro keeps_bind keeps_rules db_call_keeps store_rules resolveMemberships_keeps SignRefreshToken_keeps)

lemma rotate_session_keeps: "safe R d0 w \<Longrightarrow> keeps (safe R d0) (rotate_session x secret t u uid w)"
  unfolding rotate_session_def Let_def
  by (intro keeps_bind keeps_rules tx_call_keeps store_rules resolveMemberships_keeps SignRefreshToken_keeps)

lemma HashPassword_keeps: "safe R d0 w \<Longrightarrow> keeps (safe R d0) (HashPassword x p w)"
  by (auto simp: HashPassword_def keeps_def dest: tick_safe split: prod.split)

lemma Register_keeps:
  assumes "safe R d0 w"
  shows "keeps (safe R d0) (Register x secret r w)"
  unfolding Register_def Let_def createTenantTx_def
  by (intro keeps_bind keeps_rules tx_begin_keeps tx_call_keeps tx_commit_keeps tx_rollback_safe HashPassword_keeps
      tenant_attempts_keeps new_uuid_keeps writeSession_keeps store_rules assms)
    (blast dest: tx_begin_saved)+

lemma Login_keeps:
  assumes "safe R d0 w"
  shows "keeps (safe R d0) (Login x secret r w)"
proof -
  have q: "R d (snd ((if b then GetUserByEmail x e else GetUserByUsername n) t u d))" for b e n t u d
    by (simp add: R_refl)
  show ?thesis
    unfolding Login_def Let_def
    by (intro keeps_bind keeps_rules db_call_keeps q writeSession_keeps assms)
qed

lemma Refresh_keeps:
  assumes "safe R d0 w"
  shows "keeps (safe R d0) (Refresh x secret r w)"
  unfolding Refresh_def Let_def
  by (intro keeps_bind keeps_rules tx_begin_keeps tx_call_keeps tx_commit_keeps tx_rollback_safe rotate_session_keeps
      store_rules assms)
    (blast dest: tx_begin_saved [OF assms])+

lemma session_keeps:
  assumes "safe R d0 w"
  shows "keeps (safe R d0) (Logout x secret lo w)" "keeps (safe R d0) (LogoutAll x r w)"
    "keeps (safe R d0) (Me x r w)"
proof -
  show "keeps (safe R d0) (Logout x secret lo w)"
    using db_call_keeps [OF stmt_R(14) assms] assms
    by (auto simp: Logout_def keeps_def split: option.split sum.split)
  show "keeps (safe R d0) (LogoutAll x r w)"
    unfolding LogoutAll_def by (intro keeps_bind keeps_rules db_call_keeps store_rules assms)
  show "keeps (safe R d0) (Me x r w)"
    unfolding Me_def by (intro keeps_bind keeps_rules db_call_keeps store_rules resolveMemberships_keeps assms)
qed

end

end
