(* ===== verification/Session_Laws.thy ===== *)
theory Session_Laws
  imports Sessions
begin

section \<open>What sessions promise\<close>

text \<open>
  The effect of \<open>Register\<close> and \<open>Refresh\<close> on the tables, and what follows for tokens: rotation is
  atomic, a refresh token is good for one exchange, and logging out everywhere ends every session
  of the user.
\<close>

subsection \<open>Rotation\<close>

lemma tx_call_Inr: "tx_call t q w = (Inr v, w') \<Longrightarrow> \<exists>u. q (tx_now t) u (db w) = (Inr v, db w')"
  using tx_call_effect [of t q w "Inr v" w'] by auto

lemma tx_read:
  assumes "tx_call t q w = (r, w')" and "\<And>tm u d. snd (q tm u d) = d"
  shows "db w' = db w"
  using tx_call_effect [OF assms(1)] assms(2) by (metis snd_conv)

lemma resolveMemberships_db: "resolveMemberships x (New_queries (OnTx t)) uid w = (m, w') \<Longrightarrow> db w' = db w"
  by (auto simp: resolveMemberships_def dest!: tx_read split: prod.splits)

lemma rotate_session_effect:
  assumes "rotate_session x secret t userID uid w = (v, w')"
  shows "(\<exists>resp. v = Inl resp \<and> rs_code resp \<noteq> 200) \<and> db w' = db w
    \<or> (\<exists>j nj ex u row. v = Inr j \<and> CreateRefreshToken nj uid ex (tx_now t) u (db w) = (Inr row, db w'))"
proof -
  obtain q w1 where q: "tx_call t (GetUserByID uid) w = (q, w1)" by (metis prod.exhaust)
  obtain m w2 where m: "resolveMemberships x (New_queries (OnTx t)) uid w1 = (m, w2)" by (metis prod.exhaust)
  obtain s w3 where s: "SignRefreshToken x secret userID w2 = (s, w3)" by (metis prod.exhaust)
  have d: "db w1 = db w" "db w2 = db w" "db w3 = db w"
    using tx_read [OF q] resolveMemberships_db [OF m] SignRefreshToken_db [OF s] by simp_all
  show ?thesis
  proof (cases "\<exists>user tc access rj nj. q = Inr user \<and> m = Inr tc \<and> SignAccessToken x secret userID (snd tc) w2 = Inr access
      \<and> s = Inr rj \<and> ParsePg x (snd rj) = Inr nj")
    case True
    then obtain user tc access rj nj where h: "q = Inr user" "m = Inr tc"
      "SignAccessToken x secret userID (snd tc) w2 = Inr access" "s = Inr rj" "ParsePg x (snd rj) = Inr nj" by blast
    obtain c w4 where c: "tx_call t (CreateRefreshToken nj uid (now w3 + RefreshTTL)) w3 = (c, w4)" by (metis prod.exhaust)
    show ?thesis
    proof (cases c)
      case (Inl e)
      have "db w4 = db w"
        using tx_call_effect [OF c] Inl d by (metis failed_stmt_unchanged(8))
      with assms q m s h c Inl show ?thesis by (auto simp: rotate_session_def Let_def)
    next
      case (Inr row)
      with tx_call_Inr c d obtain u
        where "CreateRefreshToken nj uid (now w3 + RefreshTTL) (tx_now t) u (db w) = (Inr row, db w4)" by metis
      moreover from assms q m s h c Inr have "\<exists>j. v = Inr j" "w' = w4" by (auto simp: rotate_session_def Let_def)
      ultimately show ?thesis by blast
    qed
  next
    case False
    with assms q m s d show ?thesis by (auto simp: rotate_session_def Let_def split: sum.splits if_splits)
  qed
qed

text \<open>The tables after a rotation: the presented token is revoked and its successor added.\<close>

definition presented :: "uuid \<Rightarrow> uuid \<Rightarrow> int \<Rightarrow> refresh_token \<Rightarrow> bool" where
  "presented j i t r \<longleftrightarrow> r_jti r = j \<and> r_user_id r = i \<and> t < r_expires_at r \<and> r_revoked_at r = None"

definition rotated :: "uuid \<Rightarrow> uuid \<Rightarrow> int \<Rightarrow> db \<Rightarrow> db \<Rightarrow> bool" where
  "rotated j i t d d' \<longleftrightarrow> (\<exists>r\<in>set (refresh_tokens d). presented j i t r)
     \<and> (\<exists>new. r_jti new \<notin> r_jti ` set (refresh_tokens d) \<and> r_user_id new = i \<and> r_revoked_at new = None
        \<and> d' = d\<lparr>refresh_tokens := update_where (presented j i t) (\<lambda>r. r\<lparr>r_revoked_at := Some t\<rparr>) (refresh_tokens d)
                   @ [new]\<rparr>)"

lemma rotated_rows:
  assumes "ConsumeRefreshToken (Some j) (Some i) t u d = (Inr v, d1)"
    and "CreateRefreshToken nj (Some i) ex t u' d1 = (Inr row, d')"
  shows "rotated j i t d d'"
proof -
  have e: "(\<lambda>r. (Some (r_jti r) = Some j \<and> Some (r_user_id r) = Some i \<and> t < r_expires_at r) \<and> r_revoked_at r = None)
      = presented j i t" by (auto simp: presented_def fun_eq_iff)
  from assms(1) have "\<exists>r\<in>set (refresh_tokens d). presented j i t r"
      and d1: "d1 = d\<lparr>refresh_tokens := update_where (presented j i t) (\<lambda>r. r\<lparr>r_revoked_at := Some t\<rparr>) (refresh_tokens d)\<rparr>"
    unfolding ConsumeRefreshToken_def Let_def revoke_where_def e
    by (auto dest: find_SomeD split: option.splits)
  moreover have "r_jti ` set (refresh_tokens d1) = r_jti ` set (refresh_tokens d)"
    using map_key_update_where [of r_jti "\<lambda>r. r\<lparr>r_revoked_at := Some t\<rparr>" "presented j i t" "refresh_tokens d"]
    unfolding d1 by (simp flip: set_map)
  then have "\<exists>new. r_jti new \<notin> r_jti ` set (refresh_tokens d) \<and> r_user_id new = i \<and> r_revoked_at new = None
      \<and> d' = d1\<lparr>refresh_tokens := refresh_tokens d1 @ [new]\<rparr>"
    using assms(2) by (intro exI [of _ row]) (auto simp: CreateRefreshToken_def Let_def split: option.splits if_splits)
  ultimately show ?thesis unfolding rotated_def by auto
qed

lemma Refresh_effect:
  assumes "Refresh x secret r w = (resp, w')"
  shows "rs_code resp \<noteq> 200 \<and> db w' \<in> {db w, db (snd (tick w))}
    \<or> (\<exists>req us js j i. decodeBody r = Some req \<and> ParseRefreshToken x secret (tk_refresh req) (now w) = Inr (us, js)
        \<and> x_uuid_parse x js = Some j \<and> x_uuid_parse x us = Some i
        \<and> rotated j i (now (snd (tick w))) (db (snd (tick w))) (db w')
        \<and> (rs_code resp = 200 \<or> rs_code resp = 500 \<and> \<not> clear w))"
proof -
  obtain b w1 where b: "tx_begin w = (b, w1)" by (metis prod.exhaust)
  have w1: "w1 = snd (tick w)" using b by (cases rule: tx_begin_cases) auto
  show ?thesis
  proof (cases "\<exists>req us js j i t. decodeBody r = Some req \<and> tk_refresh req \<noteq> []
      \<and> ParseRefreshToken x secret (tk_refresh req) (now w) = Inr (us, js)
      \<and> x_uuid_parse x js = Some j \<and> x_uuid_parse x us = Some i \<and> b = Inr t")
    case True
    then obtain req us js j i t where h: "decodeBody r = Some req" "tk_refresh req \<noteq> []"
      "ParseRefreshToken x secret (tk_refresh req) (now w) = Inr (us, js)"
      "x_uuid_parse x js = Some j" "x_uuid_parse x us = Some i" "b = Inr t" by blast
    have p: "ParsePg x js = Inr (Some j)" "ParsePg x us = Inr (Some i)" using h by (simp_all add: ParsePg_Inr)
    have saved: "tx_saved t = db w1" "tx_now t = now w1" using b h(6) by (cases rule: tx_begin_cases; auto)+
    obtain q w2 where q: "tx_call t (ConsumeRefreshToken (Some j) (Some i)) w1 = (q, w2)" by (metis prod.exhaust)
    obtain v w3 where v: "rotate_session x secret t us (Some i) w2 = (v, w3)" by (metis prod.exhaust)
    obtain k w4 where k: "tx_commit t w3 = (k, w4)" by (metis prod.exhaust)
    have cl: "clear w \<Longrightarrow> clear w3"
      using tx_clear(1) [OF b] tx_clear(2) [OF q] keeps_clear [OF rotate_session_io(2) [OF later_refl]] v by (metis snd_conv)
    show ?thesis
    proof (cases "\<exists>o1 json. q = Inr o1 \<and> v = Inr json")
      case True
      then obtain o1 json where o: "q = Inr o1" "v = Inr json" by blast
      obtain u where "ConsumeRefreshToken (Some j) (Some i) (now w1) u (db w1) = (Inr o1, db w2)"
        using tx_call_Inr [OF q [unfolded o]] saved by auto
      moreover obtain nj ex u' row where "CreateRefreshToken nj (Some i) ex (now w1) u' (db w2) = (Inr row, db w3)"
        using rotate_session_effect [OF v] o saved by auto
      ultimately have "rotated j i (now w1) (db w1) (db w3)" by (rule rotated_rows)
      with assms b h p q v k o saved tx_commit_db [OF k] cl w1 show ?thesis
        by (auto simp: Refresh_def Let_def split: sum.splits)
    next
      case False
      with assms b h p q v k saved w1 rotate_session_effect [OF v] show ?thesis
        by (auto simp: Refresh_def Let_def split: sum.splits if_splits)
    qed
  next
    case False
    with assms b w1 show ?thesis
      by (auto simp: Refresh_def Let_def ParsePg_def split: if_splits option.splits sum.splits)
  qed
qed

subsection \<open>Tokens that are spent\<close>

text \<open>
  The JWT library: the time decides whether a token is valid, not what it says.
\<close>

definition jwt_stable :: "ext \<Rightarrow> bool" where
  "jwt_stable x \<longleftrightarrow> (\<forall>k a t t' s c c'. x_jwt_parse x k a t s = Some c \<and> x_jwt_parse x k a t' s = Some c' \<longrightarrow> c = c')"

lemma ParseRefreshToken_stable:
  assumes "jwt_stable x" and "ParseRefreshToken x secret s t = Inr p" and "ParseRefreshToken x secret s t' = Inr p'"
  shows "p' = p"
proof -
  from assms(2,3) obtain c c' where "x_jwt_parse x (hmacKeyFunc secret) RefreshAudience t s = Some c"
    "x_jwt_parse x (hmacKeyFunc secret) RefreshAudience t' s = Some c'" "p = (cl_subject c, cl_id c)"
    "p' = (cl_subject c', cl_id c')"
    by (auto simp: ParseRefreshToken_def split: option.splits if_splits)
  with assms(1) show ?thesis unfolding jwt_stable_def by blast
qed

lemma spent_stays:
  assumes "db_path d d'" and "db_ok d" and "tok \<in> set (refresh_tokens d)" and "r_revoked_at tok \<noteq> None"
    and "tok' \<in> set (refresh_tokens d')" and "r_jti tok' = r_jti tok"
  shows "r_revoked_at tok' \<noteq> None"
proof -
  have "grows token_le (refresh_tokens d) (refresh_tokens d')" using db_path_le [OF assms(1)] by (simp add: db_le_def)
  then obtain t1 where t1: "t1 \<in> set (refresh_tokens d')" "token_le tok t1" using assms(3) by (rule grows_in)
  have "distinct (map r_jti (refresh_tokens d'))" using db_path_ok [OF assms(1,2)] by (simp add: db_ok_def)
  then have "tok' = t1" using assms(5,6) t1 by (auto simp: token_le_def intro: distinct_map_eq)
  with t1 assms(4) show ?thesis by (auto simp: token_le_def)
qed

lemma tick_path: "obeys db_path w \<Longrightarrow> db_path (db w) (db (snd (tick w)))"
  using path.tick_safe [OF path.safe_start, of w] by (cases "tick w") (simp add: safe_def)

text \<open>A token whose row is revoked is refused.\<close>

lemma spent_refused:
  assumes "obeys db_path w" and "db_ok (db w)" and "decodeBody r = Some req"
    and "tok \<in> set (refresh_tokens (db w))" and "r_revoked_at tok \<noteq> None"
    and "\<And>us js. ParseRefreshToken x secret (tk_refresh req) (now w) = Inr (us, js) \<Longrightarrow> x_uuid_parse x js = Some (r_jti tok)"
  shows "rs_code (fst (Refresh x secret r w)) \<noteq> 200"
proof
  assume "rs_code (fst (Refresh x secret r w)) = 200"
  with Refresh_effect [OF prod.collapse [symmetric], of x secret r w] assms(3) obtain us js j i
    where p: "ParseRefreshToken x secret (tk_refresh req) (now w) = Inr (us, js)" "x_uuid_parse x js = Some j"
      "rotated j i (now (snd (tick w))) (db (snd (tick w))) (db (snd (Refresh x secret r w)))" by auto
  from p(3) obtain tok' where t: "tok' \<in> set (refresh_tokens (db (snd (tick w))))" "r_jti tok' = j" "r_revoked_at tok' = None"
    by (auto simp: rotated_def presented_def)
  from assms(6) [OF p(1)] p(2) have "j = r_jti tok" by simp
  with spent_stays [OF tick_path [OF assms(1)] assms(2,4,5) t(1)] t(2,3) show False by simp
qed

lemma revoked_row:
  assumes "r \<in> set rs" and "p r"
  shows "\<exists>r'\<in>set (update_where (\<lambda>r. p r \<and> r_revoked_at r = None) (\<lambda>r. r\<lparr>r_revoked_at := Some t\<rparr>) rs).
    r_jti r' = r_jti r \<and> r_revoked_at r' \<noteq> None"
proof -
  define r' where "r' = (if r_revoked_at r = None then r\<lparr>r_revoked_at := Some t\<rparr> else r)"
  have "r' \<in> set (update_where (\<lambda>r. p r \<and> r_revoked_at r = None) (\<lambda>r. r\<lparr>r_revoked_at := Some t\<rparr>) rs)"
    unfolding in_update_where using assms by (auto simp: r'_def intro!: bexI [of _ r])
  moreover have "r_jti r' = r_jti r \<and> r_revoked_at r' \<noteq> None" by (simp add: r'_def)
  ultimately show ?thesis by blast
qed

lemma rotated_spent:
  assumes "rotated j i t d d'"
  shows "\<exists>tok\<in>set (refresh_tokens d'). r_jti tok = j \<and> r_revoked_at tok \<noteq> None"
proof -
  from assms obtain r where r: "r \<in> set (refresh_tokens d)" "presented j i t r" by (auto simp: rotated_def)
  from assms have "set (update_where (presented j i t) (\<lambda>r. r\<lparr>r_revoked_at := Some t\<rparr>) (refresh_tokens d))
      \<subseteq> set (refresh_tokens d')" by (auto simp: rotated_def)
  moreover have "r\<lparr>r_revoked_at := Some t\<rparr>
      \<in> set (update_where (presented j i t) (\<lambda>r. r\<lparr>r_revoked_at := Some t\<rparr>) (refresh_tokens d))"
    using r by (rule update_where_hit [where p = "presented j i t" and f = "\<lambda>r. r\<lparr>r_revoked_at := Some t\<rparr>"])
  ultimately have "r\<lparr>r_revoked_at := Some t\<rparr> \<in> set (refresh_tokens d')" by blast
  moreover have "r_jti (r\<lparr>r_revoked_at := Some t\<rparr>) = j" using r(2) by (simp add: presented_def)
  ultimately show ?thesis by (intro bexI [of _ "r\<lparr>r_revoked_at := Some t\<rparr>"]) simp_all
qed

subsection \<open>Properties\<close>

text \<open>A stored refresh token and the request that presents it.\<close>

definition session_ext :: ext where
  "session_ext = sample_ext\<lparr>x_jwt_parse := (\<lambda>key aud t s.
     if s = ''rt'' \<and> aud = RefreshAudience \<and> t < 2000 * second
     then Some \<lparr>cl_subject = ''1'', cl_audience = [RefreshAudience], cl_id = ''2'', cl_issued_at = 0,
                cl_expires_at = 2000 * second, cl_tenants = []\<rparr>
     else None)\<rparr>"

definition session_world :: world where
  "session_world = sample_world\<lparr>db := sample_db\<lparr>refresh_tokens := [\<lparr>r_jti = 2, r_user_id = 1,
     r_expires_at = 2000 * second, r_revoked_at = None, r_created_at = 0\<rparr>]\<rparr>\<rparr>"

definition refresh_req :: "refresh_request request" where
  "refresh_req = plain_request [] (Some \<lparr>tk_refresh = ''rt''\<rparr>)"

lemma session_ext_sel [simp]:
  "x_uuid_parse session_ext = x_uuid_parse sample_ext" "x_uuid_string session_ext = x_uuid_string sample_ext"
  by (simp_all add: session_ext_def)

lemma session_world_sel [simp]: "script session_world = []" "now session_world = 1000 * second"
  by (simp_all add: session_world_def)

lemma session_ok: "jwt_stable session_ext" "obeys db_path session_world" "db_ok (db session_world)"
  using sample_db_ok
  by (auto simp: jwt_stable_def session_ext_def quiet_obeys db_ok_def session_world_def exec_ok_def)

lemma refresh_req_parse:
  "t < 2000000000000 \<Longrightarrow> ParseRefreshToken session_ext ''k'' ''rt'' t = Inr (''1'', ''2'')"
  by (simp add: ParseRefreshToken_def session_ext_def)

lemma refresh_answers: "rs_code (fst (Refresh session_ext ''k'' refresh_req session_world)) = 200"
proof -
  have p: "ParsePg session_ext ''1'' = Inr (Some 1)" "ParsePg session_ext ''2'' = Inr (Some 2)" "ParsePg session_ext ''0'' = Inr (Some 0)"
    by (simp_all add: ParsePg_def UUIDToPg_def)
  have s: "x_jwt_sign session_ext = x_jwt_sign sample_ext" by (simp add: session_ext_def)
  have j: "x_jwt_sign sample_ext k c = Some (cl_subject c @ ''.'' @ k)" for k c by (simp add: sample_ext_def)
  have u: "script w = [] \<Longrightarrow> new_uuid w = (0, w)" for w by (simp add: new_uuid_def tx_tick_def)
  show ?thesis
    by (simp add: Refresh_def refresh_req_def plain_request_def refresh_req_parse p tx_quiet ConsumeRefreshToken_def
        rotate_session_def resolveMemberships_def GetUserByID_def find_user_def ListTenantMemberships_def
        SignAccessToken_def SignRefreshToken_def sign_result_def s j u CreateRefreshToken_def revoke_where_def Let_def
        session_world_def)
qed

text \<open>
  Property C26: rotation is atomic. Either the tables are unchanged and the answer is not 200, or
  the presented token was stored, unrevoked, unexpired and owned by the token's subject, it is
  now revoked, and exactly one new token of the same user is stored; then the answer is 200
  unless the outcome of the commit was ambiguous.
\<close>

theorem refresh_atomic:
  assumes "Refresh x secret r w = (resp, w')"
  shows "rs_code resp \<noteq> 200 \<and> db w' \<in> {db w, db (snd (tick w))}
    \<or> (\<exists>req us js j i. decodeBody r = Some req \<and> ParseRefreshToken x secret (tk_refresh req) (now w) = Inr (us, js)
        \<and> x_uuid_parse x js = Some j \<and> x_uuid_parse x us = Some i
        \<and> rotated j i (now (snd (tick w))) (db (snd (tick w))) (db w')
        \<and> (rs_code resp = 200 \<or> rs_code resp = 500 \<and> \<not> clear w))"
  using assms by (rule Refresh_effect)

theorem refresh_atomic_witness:
  "rotated 2 1 (1000 * second) (db session_world) (db (snd (Refresh session_ext ''k'' refresh_req session_world)))"
  using refresh_atomic [OF prod.collapse [symmetric], of session_ext "''k''" refresh_req session_world] refresh_answers
    refresh_req_parse
  by (auto simp: refresh_req_def plain_request_def)

text \<open>
  Property C11: a refresh token is good for one exchange. After a refresh that answered 200, no
  refresh with the same token answers 200 again, at any later time and whatever the other
  processes do to the tables. The JWT library is assumed to read the same claims from a token
  at any time.
\<close>

theorem refresh_single_use:
  assumes "jwt_stable x" and "obeys db_path w" and "db_ok (db w)"
    and "Refresh x secret r w = (resp, w')" and "rs_code resp = 200"
    and "db_path (db w') (db w2)" and "obeys db_path w2" and "decodeBody r2 = decodeBody r"
  shows "rs_code (fst (Refresh x secret r2 w2)) \<noteq> 200"
proof -
  from Refresh_effect [OF assms(4)] assms(5) obtain req us js j i
    where p: "decodeBody r = Some req" "ParseRefreshToken x secret (tk_refresh req) (now w) = Inr (us, js)"
      "x_uuid_parse x js = Some j" "rotated j i (now (snd (tick w))) (db (snd (tick w))) (db w')" by auto
  from rotated_spent [OF p(4)] obtain tok where tok: "tok \<in> set (refresh_tokens (db w'))" "r_jti tok = j"
    "r_revoked_at tok \<noteq> None" by blast
  have path: "db_path (db w) (db w')"
    using path.Refresh_keeps [OF path.safe_start [OF assms(2)], of x secret r] assms(4) by (simp add: keeps_def safe_def)
  have ok: "db_ok (db w')" "db_ok (db w2)" using db_path_ok path assms(3,6) by blast+
  have "grows token_le (refresh_tokens (db w')) (refresh_tokens (db w2))"
    using db_path_le [OF assms(6)] by (simp add: db_le_def)
  then obtain t2 where t2: "t2 \<in> set (refresh_tokens (db w2))" "token_le tok t2" using tok(1) by (rule grows_in)
  then have r2: "r_revoked_at t2 \<noteq> None" "r_jti t2 = j" using tok by (auto simp: token_le_def)
  show ?thesis
  proof (rule spent_refused [OF assms(7) ok(2) _ t2(1) r2(1)])
    show "decodeBody r2 = Some req" using assms(8) p(1) by simp
    fix us' js' assume "ParseRefreshToken x secret (tk_refresh req) (now w2) = Inr (us', js')"
    from ParseRefreshToken_stable [OF assms(1) p(2) this] p(3) r2(2) show "x_uuid_parse x js' = Some (r_jti t2)" by simp
  qed
qed

theorem refresh_single_use_witness:
  "rs_code (fst (Refresh session_ext ''k'' refresh_req (snd (Refresh session_ext ''k'' refresh_req session_world)))) \<noteq> 200"
proof (rule refresh_single_use [OF session_ok prod.collapse [symmetric] refresh_answers])
  show "obeys db_path (snd (Refresh session_ext ''k'' refresh_req session_world))"
    using path.Refresh_keeps [OF path.safe_start [OF session_ok(2)], of session_ext "''k''" refresh_req]
    by (simp add: keeps_def safe_def)
qed simp_all

text \<open>
  Property C27: logging out everywhere ends every session of the user. After it answered 200, no
  refresh token of the user that was stored before is exchanged again, at any later time.
\<close>

theorem logout_all_revokes:
  assumes "obeys db_path w" and "db_ok (db w)" and "LogoutAll x r w = (resp, w')" and "rs_code resp = 200"
    and "tok \<in> set (refresh_tokens (db w))" and "x_uuid_parse x (UserIDFrom r) = Some (r_user_id tok)"
    and "db_path (db w') (db w2)" and "obeys db_path w2" and "decodeBody r2 = Some req"
    and "ParseRefreshToken x secret (tk_refresh req) (now w2) = Inr (us, js)" and "x_uuid_parse x js = Some (r_jti tok)"
  shows "rs_code (fst (Refresh x secret r2 w2)) \<noteq> 200"
proof -
  obtain q w1 where q: "db_call (RevokeAllRefreshTokens (Some (r_user_id tok))) w = (q, w1)" by (metis prod.exhaust)
  from assms(3,4,6) q have h: "w' = w1" "\<exists>n. q = Inr n"
    by (auto simp: LogoutAll_def ParsePg_def UUIDToPg_def split: if_splits sum.splits)
  obtain d t u where d: "db_path (db w) d" "db w' = snd (RevokeAllRefreshTokens (Some (r_user_id tok)) t u d)"
    using path.db_call_point [OF assms(1) q] h by auto
  have "grows token_le (refresh_tokens (db w)) (refresh_tokens d)" using db_path_le [OF d(1)] by (simp add: db_le_def)
  then obtain t1 where t1: "t1 \<in> set (refresh_tokens d)" "token_le tok t1" using assms(5) by (rule grows_in)
  have "\<exists>t2\<in>set (refresh_tokens (db w')). r_jti t2 = r_jti tok \<and> r_revoked_at t2 \<noteq> None"
    using revoked_row [of t1 "refresh_tokens d" "\<lambda>r. Some (r_user_id r) = Some (r_user_id tok)" t] t1
    unfolding d(2) RevokeAllRefreshTokens_def revoke_where_def by (simp add: token_le_def)
  then obtain t2 where t2: "t2 \<in> set (refresh_tokens (db w'))" "r_jti t2 = r_jti tok" "r_revoked_at t2 \<noteq> None" by blast
  have path: "db_path (db w) (db w')"
    using path.session_keeps(2) [OF path.safe_start [OF assms(1)], of x r] assms(3) by (simp add: keeps_def safe_def)
  have ok: "db_ok (db w')" "db_ok (db w2)" using db_path_ok path assms(2,7) by blast+
  have "grows token_le (refresh_tokens (db w')) (refresh_tokens (db w2))"
    using db_path_le [OF assms(7)] by (simp add: db_le_def)
  then obtain t3 where t3: "t3 \<in> set (refresh_tokens (db w2))" "token_le t2 t3" using t2(1) by (rule grows_in)
  show ?thesis
    using t3 t2 assms(10,11) by (intro spent_refused [OF assms(8) ok(2) assms(9) t3(1)]) (auto simp: token_le_def)
qed

theorem logout_all_revokes_witness:
  "rs_code (fst (Refresh session_ext ''k'' refresh_req
     (snd (LogoutAll session_ext ((plain_request [] (None :: unit option))\<lparr>rq_user := ''1''\<rparr>) session_world)))) \<noteq> 200"
proof -
  let ?r = "(plain_request [] (None :: unit option))\<lparr>rq_user := ''1''\<rparr>"
  have l: "LogoutAll session_ext ?r session_world = (writeJSON 200 (JObject [(''status'', JString ''logged out'')]),
      session_world\<lparr>db := snd (RevokeAllRefreshTokens (Some 1) (1000 * second) 0 (db session_world))\<rparr>)"
    by (simp add: LogoutAll_def plain_request_def UserIDFrom_def ParsePg_def UUIDToPg_def db_call_quiet
        RevokeAllRefreshTokens_def)
  show ?thesis
    unfolding l snd_conv
    by (rule logout_all_revokes [OF session_ok(2,3) l, where req = "\<lparr>tk_refresh = ''rt''\<rparr>" and us = "''1''" and js = "''2''"
          and tok = "hd (refresh_tokens (db session_world))"])
      (simp_all add: quiet_obeys refresh_req_parse session_world_def refresh_req_def plain_request_def UserIDFrom_def)
qed

end
