(* ===== verification/Accounts.thy ===== *)
theory Accounts
  imports Session_Laws
begin

section \<open>Registering and logging in\<close>

text \<open>
  What \<open>Register\<close> leaves in the tables, and that the credentials it stored are the ones
  \<open>Login\<close> accepts.
\<close>

subsection \<open>A session is one more refresh token\<close>

definition adds_token :: "ext \<Rightarrow> string \<Rightarrow> db \<Rightarrow> db \<Rightarrow> bool" where
  "adds_token x userID d d' \<longleftrightarrow> (\<exists>tok. x_uuid_parse x userID = Some (r_user_id tok) \<and> r_revoked_at tok = None
     \<and> r_jti tok \<notin> r_jti ` set (refresh_tokens d) \<and> d' = d\<lparr>refresh_tokens := refresh_tokens d @ [tok]\<rparr>)"

lemma CreateRefreshToken_adds:
  assumes "x_uuid_parse x userID = Some i"
  shows "(\<exists>e. fst (CreateRefreshToken jti (Some i) ex t u d) = Inl e) \<and> snd (CreateRefreshToken jti (Some i) ex t u d) = d
    \<or> adds_token x userID d (snd (CreateRefreshToken jti (Some i) ex t u d))"
proof (cases "fst (CreateRefreshToken jti (Some i) ex t u d)")
  case (Inl e)
  then show ?thesis using failed_stmt_unchanged(8) by (metis prod.collapse)
next
  case (Inr row)
  with assms show ?thesis
    unfolding adds_token_def
    by (intro disjI2 exI [of _ row])
      (auto simp: CreateRefreshToken_def Let_def split: option.splits if_splits)
qed

lemma later_keeps: "keeps (later w) p \<Longrightarrow> obeys R w \<Longrightarrow> obeys R (snd p)"
  by (auto simp: keeps_def dest: later_obeys)

lemma alone_uuid: "obeys (=) w \<Longrightarrow> SignRefreshToken x secret u w = (s, w') \<Longrightarrow> obeys (=) w'"
  using later_keeps [OF SignRefreshToken_io(2) [OF later_refl]] by (metis snd_conv)

lemma writeSession_effect:
  assumes "obeys (=) w" and "writeSession x secret code userID name email w = (resp, w')"
  shows "rs_code resp = 500 \<and> (db w' = db w \<or> adds_token x userID (db w) (db w'))
    \<or> rs_code resp = code \<and> adds_token x userID (db w) (db w')"
proof (cases "x_uuid_parse x userID")
  case None
  with assms(2) show ?thesis by (auto simp: writeSession_def ParsePg_def Let_def)
next
  case (Some i)
  then have p: "ParsePg x userID = Inr (Some i)" by (simp add: ParsePg_Inr)
  obtain q w1 where q: "db_call (ListTenantMemberships (Some i)) w = (q, w1)" by (metis prod.exhaust)
  obtain s w2 where s: "SignRefreshToken x secret userID w1 = (s, w2)" by (metis prod.exhaust)
  have w1: "obeys (=) w1" "db w1 = db w" using db_call_alone [OF assms(1) q] by auto
  have w2: "obeys (=) w2" "db w2 = db w" using alone_uuid [OF w1(1) s] SignRefreshToken_db [OF s] w1(2) by auto
  obtain m where m: "resolveMemberships x (New_queries OnPool) (Some i) w = (m, w1)"
    using q by (simp add: resolveMemberships_def)
  show ?thesis
  proof (cases "\<exists>tc access rj nj. m = Inr tc \<and> SignAccessToken x secret userID (snd tc) w1 = Inr access
      \<and> s = Inr rj \<and> ParsePg x (snd rj) = Inr nj")
    case True
    then obtain tc access rj nj where h: "m = Inr tc" "SignAccessToken x secret userID (snd tc) w1 = Inr access"
      "s = Inr rj" "ParsePg x (snd rj) = Inr nj" by blast
    obtain c w3 where c: "db_call (CreateRefreshToken nj (Some i) (now w2 + RefreshTTL)) w2 = (c, w3)" by (metis prod.exhaust)
    have "(\<exists>e. c = Inl e) \<and> (db w3 = db w \<or> adds_token x userID (db w) (db w3))
      \<or> adds_token x userID (db w) (db w3)"
      using db_call_alone(2) [OF w2(1) c] w2(2) CreateRefreshToken_adds [OF Some, of nj "now w2 + RefreshTTL"] by force
    with assms(2) p m s h c show ?thesis by (auto simp: writeSession_def Let_def split: sum.splits)
  next
    case False
    with assms(2) p m s w1(2) w2(2) show ?thesis by (auto simp: writeSession_def Let_def split: sum.splits)
  qed
qed

subsection \<open>Registering\<close>

text \<open>The tables with the new user, his tenant and his membership.\<close>

definition registered :: "ext \<Rightarrow> register_request \<Rightarrow> db \<Rightarrow> user \<Rightarrow> db \<Rightarrow> bool" where
  "registered x req d user d' \<longleftrightarrow>
     u_username user = TrimSpace (rg_username req) \<and> u_email user = ToLower (x_lower x) (TrimSpace (rg_email req))
     \<and> (\<exists>salt. x_bcrypt_hash x salt 12 (rg_password req) = Some (u_password_hash user))
     \<and> u_username user \<notin> u_username ` set (users d) \<and> u_id user \<notin> u_id ` set (users d)
     \<and> owned_tenant x (u_id user) (d\<lparr>users := users d @ [user]\<rparr>) d'"

lemma HashPassword_alone:
  assumes "obeys (=) w" and "HashPassword x p w = (h, w1)"
  shows "obeys (=) w1 \<and> db w1 = db w \<and> (\<forall>s. h = Inr s \<longrightarrow> (\<exists>salt. x_bcrypt_hash x salt 12 p = Some s))"
proof -
  obtain e w2 where t: "tick w = (e, w2)" by (metis prod.exhaust)
  with assms alone_tick [OF assms(1) t] show ?thesis by (auto simp: HashPassword_def split: option.splits)
qed

lemma tx_begin_alone: "obeys (=) w \<Longrightarrow> tx_begin w = (b, w1) \<Longrightarrow> obeys (=) w1 \<and> db w1 = db w \<and> (\<forall>t. b = Inr t \<longrightarrow> tx_saved t = db w)"
  using alone_tick [of w] by (cases "tick w") (auto simp: tx_begin_def split: fault.splits)

lemma CreateUser_Inr:
  assumes "CreateUser x email name hash t u d = (Inr row, d')"
  shows "\<exists>user. d' = d\<lparr>users := users d @ [user]\<rparr> \<and> u_username user = name \<and> u_email user = email
    \<and> u_password_hash user = hash \<and> name \<notin> u_username ` set (users d) \<and> u_id user \<notin> u_id ` set (users d)
    \<and> cu_id row = Some (u_id user) \<and> cu_username row = name \<and> cu_email row = email"
  using assms by (auto simp: CreateUser_def Let_def split: if_splits)

lemma register_later:
  assumes "tx_call t q w2 = (u, w3)" and "new_uuid w3 = (i, w4)" and "createTenantTx x t i base w4 = (c, w5)"
    and "tx_call t q' w5 = (m, w6)" and "tx_commit t w6 = (k, w7)"
  shows "later w2 w7"
proof -
  have "later w2 w3" "later w3 w4" "later w4 w5" "later w5 w6" "later w6 w7"
    using call_later(3) [OF later_refl, of w2 t q] assms(1) new_uuid_io(2) [OF later_refl, of w3] assms(2)
      tenant_attempts_io(2) [OF later_refl, of w4 x t i base base 4] assms(3)
      call_later(3) [OF later_refl, of w5 t q'] assms(4) call_later(4) [OF later_refl, of w6 t] assms(5)
    by (simp_all add: keeps_def createTenantTx_def)
  then show ?thesis by (metis later_trans)
qed

text \<open>What the statements of the transaction have stored when they have all succeeded.\<close>

lemma register_stores:
  assumes "tx_call t (CreateUser x (ToLower (x_lower x) (TrimSpace (rg_email req))) (TrimSpace (rg_username req)) hash) w2
      = (Inr row, w3)" and "new_uuid w3 = (i, w4)" and "createTenantTx x t i base w4 = (Inr tn, w5)"
    and "tx_call t (AddMembership (cu_id row) (Some (t_id tn)) ''owner'') w5 = (Inr (), w6)"
    and "x_bcrypt_hash x salt 12 (rg_password req) = Some hash"
  obtains user where "registered x req (db w2) user (db w6)" "cu_id row = Some (u_id user)"
proof -
  from tx_call_Inr [OF assms(1)] CreateUser_Inr obtain user
    where user: "db w3 = (db w2)\<lparr>users := users (db w2) @ [user]\<rparr>" "u_username user = TrimSpace (rg_username req)"
      "u_email user = ToLower (x_lower x) (TrimSpace (rg_email req))" "u_password_hash user = hash"
      "TrimSpace (rg_username req) \<notin> u_username ` set (users (db w2))" "u_id user \<notin> u_id ` set (users (db w2))"
      "cu_id row = Some (u_id user)"
    by metis
  from tenant_with_owner [OF assms(3,4)] user(1,7) assms(2)
  have "owned_tenant x (u_id user) ((db w2)\<lparr>users := users (db w2) @ [user]\<rparr>) (db w6)" by auto
  with user assms(5) have "registered x req (db w2) user (db w6)" by (auto simp: registered_def)
  with user(7) that show thesis by blast
qed

lemma Register_cases:
  assumes "obeys (=) w" and "Register x secret r w = (resp, w')"
  obtains (refused) "rs_code resp \<noteq> 201" "db w' = db w"
  | (commits) req user t w6 k w7 n e where "decodeBody r = Some req" "8 \<le> length (rg_password req)"
      "registered x req (db w) user (db w6)" "obeys (=) w7" "tx_saved t = db w" "tx_commit t w6 = (k, w7)"
      "k \<noteq> nil_err \<Longrightarrow> rs_code resp = 500 \<and> w' = w7"
      "k = nil_err \<Longrightarrow> writeSession x secret 201 (x_uuid_string x (u_id user)) n e w7 = (resp, w')"
proof (cases "\<exists>req. decodeBody r = Some req \<and> 3 \<le> length (TrimSpace (rg_username req))
    \<and> x_mail_ok x (ToLower (x_lower x) (TrimSpace (rg_email req))) \<and> 8 \<le> length (rg_password req)")
  case False
  with assms(2) refused show thesis by (auto simp: Register_def Let_def split: option.splits if_splits)
next
  case True
  then obtain req where g: "decodeBody r = Some req" "\<not> length (TrimSpace (rg_username req)) < 3"
    "x_mail_ok x (ToLower (x_lower x) (TrimSpace (rg_email req)))" "\<not> length (rg_password req) < 8" by force
  let ?name = "TrimSpace (rg_username req)" and ?email = "ToLower (x_lower x) (TrimSpace (rg_email req))"
  obtain h w1 where h: "HashPassword x (rg_password req) w = (h, w1)" by (metis prod.exhaust)
  note w1 = HashPassword_alone [OF assms(1) h]
  obtain b w2 where b: "tx_begin w1 = (b, w2)" by (metis prod.exhaust)
  note w2 = tx_begin_alone [OF conjunct1 [OF w1] b]
  define t hash where "t = projr b" and "hash = projr h"
  obtain u w3 where u: "tx_call t (CreateUser x ?email ?name hash) w2 = (u, w3)" by (metis prod.exhaust)
  obtain i w4 where i: "new_uuid w3 = (i, w4)" by (metis prod.exhaust)
  obtain c w5 where c: "createTenantTx x t i (slugify x ?name) w4 = (c, w5)" by (metis prod.exhaust)
  obtain m w6 where m: "tx_call t (AddMembership (cu_id (projr u)) (Some (t_id (projr c))) ''owner'') w5 = (m, w6)"
    by (metis prod.exhaust)
  obtain k w7 where k: "tx_commit t w6 = (k, w7)" by (metis prod.exhaust)
  note run = assms(2) g h b u i c m k
  show thesis
  proof (cases "\<exists>row tn. h = Inr hash \<and> b = Inr t \<and> u = Inr row \<and> c = Inr tn \<and> m = Inr ()")
    case False
    with run w1 w2 refused t_def hash_def show thesis
      by (auto simp: Register_def Let_def pgConflictStatus_def split: sum.splits if_splits)
  next
    case True
    then obtain row tn where ok: "h = Inr hash" "b = Inr t" "u = Inr row" "c = Inr tn" "m = Inr ()" by blast
    from w1 ok(1) obtain salt where "x_bcrypt_hash x salt 12 (rg_password req) = Some hash" by blast
    from register_stores [OF u [unfolded ok] i c [unfolded ok] m [unfolded ok sum.sel(2)] this]
    obtain user where user: "registered x req (db w) user (db w6)" "cu_id row = Some (u_id user)"
      using w1 w2 by metis
    have "obeys (=) w7" using later_obeys [OF register_later [OF u i c m k]] w2 by blast
    from commits [OF g(1) _ user(1) this _ k, of "cu_username row" "cu_email row"] run ok user(2) w1 w2
    show thesis by (auto simp: Register_def Let_def split: sum.splits)
  qed
qed

lemma Register_effect:
  assumes "obeys (=) w" and "Register x secret r w = (resp, w')"
  shows "rs_code resp \<noteq> 201 \<and> db w' = db w
    \<or> (\<exists>req user d. decodeBody r = Some req \<and> 8 \<le> length (rg_password req) \<and> registered x req (db w) user d
        \<and> (rs_code resp = 201 \<and> adds_token x (x_uuid_string x (u_id user)) d (db w')
           \<or> rs_code resp = 500 \<and> (db w' = d \<or> adds_token x (x_uuid_string x (u_id user)) d (db w'))))"
  using assms
proof (cases rule: Register_cases)
  case (commits req user t w6 k w7 n e)
  show ?thesis
  proof (cases "k = nil_err")
    case True
    with tx_commit_db [OF commits(6)] have "db w7 = db w6" by auto
    with writeSession_effect [OF commits(4) commits(8) [OF True]] commits(1-3) show ?thesis by auto
  next
    case False
    with tx_commit_db [OF commits(6)] commits show ?thesis by auto
  qed
qed simp

subsection \<open>Properties\<close>

text \<open>Somebody registers.\<close>

definition sample_register :: register_request where
  "sample_register = \<lparr>rg_username = ''bobby'', rg_email = ''b@c.d'', rg_password = ''password''\<rparr>"

lemma sample_slug: "slugify sample_ext ''bobby'' = ''bobby''"
proof -
  have "(char_of (98 :: nat) :: char) = CHR ''b''" "(char_of (111 :: nat) :: char) = CHR ''o''"
    "(char_of (121 :: nat) :: char) = CHR ''y''" by code_simp+
  then show ?thesis
    by (simp add: slugify_def TrimSpace_graphic graphic_def range_runes_ascii is_ascii_def ascii_lower_def slug_rune_def
        Trim_def collapse_squeeze Let_def)
qed

lemma sample_registered:
  "rs_code (fst (Register sample_ext ''k'' (plain_request [] (Some sample_register)) sample_world)) = 201"
proof -
  have g: "TrimSpace ''bobby'' = ''bobby''" "TrimSpace ''b@c.d'' = ''b@c.d''"
    by (simp_all add: TrimSpace_graphic graphic_def)
  have e: "ToLower ul ''b@c.d'' = ''b@c.d''" for ul by (simp add: ascii_lower_def)
  have x: "x_mail_ok sample_ext ''b@c.d''" "x_bcrypt_hash sample_ext s c ''password'' = Some ''hpassword''"
    "x_citext sample_ext = (\<lambda>s. s)" "x_jwt_sign sample_ext k cl = Some (cl_subject cl @ ''.'' @ k)" for s c k cl
    by (simp_all add: sample_ext_def)
  have p: "ParsePg sample_ext ''0'' = Inr (Some 0)" by (simp add: ParsePg_def UUIDToPg_def)
  have u: "script w = [] \<Longrightarrow> new_uuid w = (0, w)" for w by (simp add: new_uuid_def tx_tick_def)
  have t: "text_ok ''bobby''" "text_ok ''b@c.d''" "text_ok ''hpassword''" "text_ok ''runnix-tenant-0''" "text_ok ''free''"
    by (simp_all add: text_ok_def)
  have s: "t_slug sample_tenant = ''acme''" "t_namespace sample_tenant = ''tenant-2''"
    by (simp_all add: sample_tenant_def)
  show ?thesis
    by (simp add: Register_def plain_request_def sample_register_def g e x p u t s sample_slug HashPassword_def tx_quiet
        CreateUser_def createTenantTx_def tenant_attempts.simps tryCreateTenantTx_def savepoint_def release_def
        CreateTenant_def UUIDToPg_def valid_tier_def AddMembership_def valid_role_def writeSession_def resolveMemberships_def
        db_call_quiet ListTenantMemberships_def SignAccessToken_def SignRefreshToken_def sign_result_def
        CreateRefreshToken_def Let_def)
qed

text \<open>
  Property C24: registering is atomic. Either nothing is stored and the answer is not 201, or the
  user, with the bcrypt hash of the password, one tenant and his owner membership of it are
  stored together; 201 is answered only when his first refresh token is stored as well.
\<close>

theorem register_atomic:
  assumes "obeys (=) w" and "Register x secret r w = (resp, w')"
  shows "rs_code resp \<noteq> 201 \<and> db w' = db w
    \<or> (\<exists>req user d. decodeBody r = Some req \<and> 8 \<le> length (rg_password req) \<and> registered x req (db w) user d
        \<and> (rs_code resp = 201 \<and> adds_token x (x_uuid_string x (u_id user)) d (db w')
           \<or> rs_code resp = 500 \<and> (db w' = d \<or> adds_token x (x_uuid_string x (u_id user)) d (db w'))))"
  using assms by (rule Register_effect)

theorem register_atomic_witness:
  "\<exists>user d. registered sample_ext sample_register sample_db user d \<and> adds_token sample_ext (x_uuid_string sample_ext (u_id user)) d
     (db (snd (Register sample_ext ''k'' (plain_request [] (Some sample_register)) sample_world)))"
  using register_atomic [OF _ prod.collapse [symmetric], of sample_world sample_ext "''k''" "plain_request [] (Some sample_register)"]
    sample_registered
  by (auto simp: quiet_obeys plain_request_def)

lemma registered_found:
  assumes "registered x req d user d'" and "users d2 = users d'"
  shows "find (\<lambda>r. u_username r = TrimSpace (rg_username req)) (users d2) = Some user"
proof -
  from assms have "users d2 = users d @ [user]" "u_username user = TrimSpace (rg_username req)"
    "TrimSpace (rg_username req) \<notin> u_username ` set (users d)"
    by (auto simp: registered_def owned_tenant_def)
  then show ?thesis by (simp add: find_absent)
qed

lemma Login_accepts:
  assumes "obeys (=) w" and "name \<noteq> []" and "name = TrimSpace raw" and "pw \<noteq> []"
    and "find (\<lambda>r. u_username r = name) (users (db w)) = Some user" and "x_bcrypt_check x (u_password_hash user) pw"
    and "decodeBody r = Some \<lparr>lg_email = [], lg_username = raw, lg_password = pw\<rparr>"
  shows "rs_code (fst (Login x secret r w)) \<in> {200, 500}"
proof -
  obtain q w1 where q: "db_call (GetUserByUsername name) w = (q, w1)" by (metis prod.exhaust)
  have t: "TrimSpace [] = []" using length_TrimSpace [of "[]"] by simp
  from db_call_alone(2) [OF assms(1) q] assms(5) have "q = Inr user \<or> (\<exists>e. q = Inl e \<and> e \<noteq> NoRows)"
    by (auto simp: GetUserByUsername_def find_user_def split: if_splits)
  then show ?thesis
  proof
    assume "q = Inr user"
    moreover have "obeys (=) w1" using db_call_alone(1) [OF assms(1) q] .
    ultimately show ?thesis
      using assms(2-4,6,7) q t writeSession_effect [OF _ prod.collapse [symmetric], of w1 x secret 200]
      by (auto simp: Login_def CheckPassword_def Let_def)
  next
    assume "\<exists>e. q = Inl e \<and> e \<noteq> NoRows"
    with assms(2-4,7) q t show ?thesis by (auto simp: Login_def Let_def)
  qed
qed

text \<open>
  Property C23: the credentials that were registered are the ones login accepts. After a register
  that answered 201, a login with the same user name and password is never refused as wrong:
  it answers 200, or 500 when a call to the outside fails. bcrypt is assumed to verify the
  hashes it makes.
\<close>

theorem registered_can_login:
  assumes "\<forall>salt p h. x_bcrypt_hash x salt 12 p = Some h \<longrightarrow> x_bcrypt_check x h p"
    and "obeys (=) w" and "Register x secret r w = (resp, w')" and "rs_code resp = 201" and "decodeBody r = Some req"
    and "obeys (=) w2" and "db w2 = db w'"
  shows "rs_code (fst (Login x secret (plain_request [] (Some \<lparr>lg_email = [], lg_username = rg_username req,
     lg_password = rg_password req\<rparr>)) w2)) \<in> {200, 500}"
proof -
  from Register_effect [OF assms(2,3)] assms(4,5) obtain user d where
    reg: "registered x req (db w) user d" "adds_token x (x_uuid_string x (u_id user)) d (db w')"
    "8 \<le> length (rg_password req)" by auto
  have "users (db w2) = users d" using reg(2) assms(7) by (auto simp: adds_token_def)
  from registered_found [OF reg(1) this]
  have "find (\<lambda>r. u_username r = TrimSpace (rg_username req)) (users (db w2)) = Some user" .
  moreover have "x_bcrypt_check x (u_password_hash user) (rg_password req)"
    using reg(1) assms(1) by (auto simp: registered_def)
  moreover have "TrimSpace (rg_username req) \<noteq> []"
    using assms(3,4,5) by (auto simp: Register_def Let_def split: if_splits)
  moreover have "rg_password req \<noteq> []" using reg(3) by auto
  ultimately show ?thesis
    by (intro Login_accepts [OF assms(6) _ refl, of _ "rg_password req" user]) (auto simp: plain_request_def)
qed

theorem registered_can_login_witness:
  "rs_code (fst (Login sample_ext ''k'' (plain_request [] (Some \<lparr>lg_email = [], lg_username = ''bobby'', lg_password = ''password''\<rparr>))
     (sample_world\<lparr>db := db (snd (Register sample_ext ''k'' (plain_request [] (Some sample_register)) sample_world))\<rparr>))) \<in> {200, 500}"
proof -
  have b: "\<forall>salt p h. x_bcrypt_hash sample_ext salt 12 p = Some h \<longrightarrow> x_bcrypt_check sample_ext h p"
    by (simp add: sample_ext_def)
  have r: "decodeBody (plain_request [] (Some sample_register)) = Some sample_register" by (simp add: plain_request_def)
  have o: "obeys (=) sample_world" by (simp add: quiet_obeys)
  show ?thesis
    using registered_can_login [OF b o prod.collapse [symmetric] sample_registered r,
        of "sample_world\<lparr>db := db (snd (Register sample_ext ''k'' (plain_request [] (Some sample_register)) sample_world))\<rparr>"]
    by (simp add: quiet_obeys sample_register_def)
qed

end
