(* ===== verification/Gateway.thy ===== *)
theory Gateway
  imports Exec_Handlers Key_Handlers Accounts Config Dispatcher
begin

section \<open>The gateway\<close>

text \<open>
  \<open>internal/http/router.go\<close>, \<open>handlers/health.go\<close> and the wiring of \<open>cmd/gateway/main.go\<close>: the
  routes, the gate in front of each, and the handlers behind them. The body of a raw request
  carries what the JSON decoder makes of it for each request struct. \<open>ServeMux\<close> is modelled on
  clean paths, as lists of segments. A handler that panics has no response; none of the
  handlers of the model does, so \<open>recoverer\<close> only passes their responses on.
\<close>

subsection \<open>Health\<close>

definition Health :: response where
  "Health = writeJSON 200 (JObject [(''service'', JString ''runnix-gateway''), (''status'', JString ''ok'')])"

definition ReadyHandler :: "(world \<Rightarrow> unit result \<times> world) option \<Rightarrow> world \<Rightarrow> response \<times> world" where
  "ReadyHandler check w =
     (case check of
        None \<Rightarrow> (writeJSON 200 (JObject [(''status'', JString ''ready'')]), w)
      | Some chk \<Rightarrow>
          (case chk w of (r, w1) \<Rightarrow>
            (case r of
               Inl e \<Rightarrow> writeJSON 503 (JObject [(''error'', JString (err_text e)), (''status'', JString ''not_ready'')])
             | Inr _ \<Rightarrow> writeJSON 200 (JObject [(''status'', JString ''ready'')]), w1)))"

text \<open>\<open>pgxpool.Ping\<close> and \<open>nats.FlushWithContext\<close>: the error text, if any.\<close>

definition ping :: "world \<Rightarrow> string option \<times> world" where
  "ping w = (case tick w of (e, w1) \<Rightarrow> (if ev_fault e = Done then None else Some (ev_msg e), w1))"

definition readiness :: "bool \<Rightarrow> bool \<Rightarrow> world \<Rightarrow> unit result \<times> world" where
  "readiness pool nats w =
     (case (if pool then ping w else (Some ''postgres unavailable'', w)) of (a, w1) \<Rightarrow>
      case (if nats then ping w1 else (Some ''nats unavailable'', w1)) of (b, w2) \<Rightarrow>
        (case (a, b) of
           (None, None) \<Rightarrow> nil_err
         | (Some s, None) \<Rightarrow> Inl (Failure s)
         | (None, Some t) \<Rightarrow> Inl (Failure t)
         | (Some s, Some t) \<Rightarrow> Inl (Failure (s @ [CHR 0x0A] @ t)), w2))"

subsection \<open>Routes\<close>

record router_config =
  rc_jwt_secret :: string
  rc_pool :: bool
  rc_nats :: bool
  rc_webhook_secret :: string
  rc_webhook_allow_private :: bool
  rc_quotas_enabled :: bool
  rc_ready_check :: "(world \<Rightarrow> unit result \<times> world) option"

datatype endpoint =
    Healthz | Readyz | Languages
  | PostRegister | PostLogin | PostRefresh | PostLogout | PostLogoutAll | GetMe
  | PostExecutions | GetExecutions | GetOneExecution string
  | PostTenants | GetOneTenant string
  | PostKeys string | GetKeys string | DeleteKey string string

definition get_route :: "string list \<Rightarrow> endpoint option" where
  "get_route p =
     (case p of
        [a] \<Rightarrow> if a = ''healthz'' then Some Healthz else if a = ''readyz'' then Some Readyz
              else if a = ''languages'' then Some Languages else if a = ''executions'' then Some GetExecutions else None
      | [a, b] \<Rightarrow> if a = ''users'' \<and> b = ''me'' then Some GetMe
                 else if a = ''executions'' \<and> b \<noteq> [] then Some (GetOneExecution b)
                 else if a = ''tenants'' \<and> b \<noteq> [] then Some (GetOneTenant b) else None
      | [a, b, c] \<Rightarrow> if a = ''tenants'' \<and> b \<noteq> [] \<and> c = ''api-keys'' then Some (GetKeys b) else None
      | _ \<Rightarrow> None)"

definition post_route :: "string list \<Rightarrow> endpoint option" where
  "post_route p =
     (case p of
        [a] \<Rightarrow> if a = ''executions'' then Some PostExecutions else if a = ''tenants'' then Some PostTenants else None
      | [a, b] \<Rightarrow> if a = ''auth''
                 then (if b = ''register'' then Some PostRegister else if b = ''login'' then Some PostLogin
                       else if b = ''refresh'' then Some PostRefresh else if b = ''logout'' then Some PostLogout
                       else if b = ''logout-all'' then Some PostLogoutAll else None)
                 else None
      | [a, b, c] \<Rightarrow> if a = ''tenants'' \<and> b \<noteq> [] \<and> c = ''api-keys'' then Some (PostKeys b) else None
      | _ \<Rightarrow> None)"

definition delete_route :: "string list \<Rightarrow> endpoint option" where
  "delete_route p =
     (case p of
        [a, b, c, d] \<Rightarrow> if a = ''tenants'' \<and> b \<noteq> [] \<and> c = ''api-keys'' \<and> d \<noteq> [] then Some (DeleteKey b d) else None
      | _ \<Rightarrow> None)"

text \<open>A GET pattern also matches HEAD.\<close>

definition mux :: "string \<Rightarrow> string list \<Rightarrow> endpoint option" where
  "mux m p = (if m = ''GET'' \<or> m = ''HEAD'' then get_route p else if m = ''POST'' then post_route p
     else if m = ''DELETE'' then delete_route p else None)"

definition mux_miss :: "string list \<Rightarrow> response" where
  "mux_miss p = (if get_route p = None \<and> post_route p = None \<and> delete_route p = None
     then writeJSON 404 (JString ''404 page not found'') else writeJSON 405 (JString ''Method Not Allowed''))"

text \<open>The routes behind the tenant gate.\<close>

fun tenant_scoped :: "endpoint \<Rightarrow> bool" where
  "tenant_scoped PostExecutions = True"
| "tenant_scoped GetExecutions = True"
| "tenant_scoped (GetOneExecution _) = True"
| "tenant_scoped PostTenants = True"
| "tenant_scoped (GetOneTenant _) = True"
| "tenant_scoped (PostKeys _) = True"
| "tenant_scoped (GetKeys _) = True"
| "tenant_scoped (DeleteKey _ _) = True"
| "tenant_scoped _ = False"

record bodies =
  bd_register :: "register_request option"
  bd_login :: "login_request option"
  bd_refresh :: "refresh_request option"
  bd_logout :: "logout_request option"
  bd_execution :: "create_request option"
  bd_tenant :: "create_tenant_request option"
  bd_key :: "create_key_request option"

definition retype :: "'b option \<Rightarrow> 'a request \<Rightarrow> 'b request" where
  "retype body r =
     \<lparr>rq_authorization = rq_authorization r, rq_tenant_header = rq_tenant_header r, rq_request_id = rq_request_id r,
      rq_path_id = rq_path_id r, rq_path_key = rq_path_key r, rq_limit = rq_limit r, rq_offset = rq_offset r,
      rq_user = rq_user r, rq_tenant = rq_tenant r, rq_api_key = rq_api_key r,
      rq_body_size = rq_body_size r, rq_body = body\<rparr>"

subsection \<open>The router\<close>

text \<open>Without a pool the membership checker refuses everybody and there is no key checker.\<close>

definition tenant_gate :: "ext \<Rightarrow> router_config \<Rightarrow> 'a gate" where
  "tenant_gate x c =
     (if rc_pool c then tenantAuth x (rc_jwt_secret c)
      else if rc_jwt_secret c = [] then (\<lambda>r w. (Inr r, w))
      else RequireAuthWithAPIKeys x (rc_jwt_secret c) (Some (\<lambda>u t w. (None, w))) None)"

definition stub :: response where
  "stub = writeJSON 501 (JObject [(''error'', JString ''not implemented (scaffold)'')])"

definition down :: response where
  "down = writeJSON 503 (JObject [(''error'', JString ''database not connected'')])"

definition pooled :: "router_config \<Rightarrow> response \<Rightarrow> 'a handler \<Rightarrow> 'a handler" where
  "pooled c none h r w = (if rc_pool c then h r w else (none, w))"

definition tenant_route :: "ext \<Rightarrow> router_config \<Rightarrow> 'a handler \<Rightarrow> 'a handler" where
  "tenant_route x c h = guard (tenant_gate x c) (pooled c down h)"

definition serve :: "ext \<Rightarrow> router_config \<Rightarrow> endpoint \<Rightarrow> bodies \<Rightarrow> unit request \<Rightarrow> world \<Rightarrow> response \<times> world" where
  "serve x c ep b r w =
     (let secret = rc_jwt_secret c;
          eh = new_exec_handler (rc_nats c) (rc_webhook_secret c) (rc_webhook_allow_private c) (rc_quotas_enabled c)
      in case ep of
        Healthz \<Rightarrow> (Health, w)
      | Readyz \<Rightarrow> ReadyHandler (rc_ready_check c) w
      | Languages \<Rightarrow> (writeJSON 200 (JObject [(''languages'', JArray (map JString SupportedLanguages))]), w)
      | PostRegister \<Rightarrow> pooled c stub (Register x secret) (retype (bd_register b) r) w
      | PostLogin \<Rightarrow> pooled c stub (Login x secret) (retype (bd_login b) r) w
      | PostRefresh \<Rightarrow> pooled c stub (Refresh x secret) (retype (bd_refresh b) r) w
      | PostLogout \<Rightarrow> pooled c stub (Logout x secret) (retype (bd_logout b) r) w
      | PostLogoutAll \<Rightarrow> pooled c stub (guard (RequireUser x secret) (LogoutAll x)) r w
      | GetMe \<Rightarrow> pooled c stub (guard (RequireUser x secret) (Me x)) r w
      | PostExecutions \<Rightarrow> tenant_route x c (Create_execution x eh) (retype (bd_execution b) r) w
      | GetExecutions \<Rightarrow> tenant_route x c (List_executions x) r w
      | GetOneExecution i \<Rightarrow> tenant_route x c (Get_execution x) (r\<lparr>rq_path_id := i\<rparr>) w
      | PostTenants \<Rightarrow> tenant_route x c (Create_tenant x) (retype (bd_tenant b) r) w
      | GetOneTenant i \<Rightarrow> tenant_route x c (Get_tenant x) (r\<lparr>rq_path_id := i\<rparr>) w
      | PostKeys i \<Rightarrow> tenant_route x c (Create_api_key x) (retype (bd_key b) (r\<lparr>rq_path_id := i\<rparr>)) w
      | GetKeys i \<Rightarrow> tenant_route x c (List_api_keys x) (r\<lparr>rq_path_id := i\<rparr>) w
      | DeleteKey i k \<Rightarrow> tenant_route x c (Delete_api_key x) (r\<lparr>rq_path_id := i, rq_path_key := k\<rparr>) w)"

text \<open>A request as the server hands it over: nothing is in its context yet.\<close>

definition fresh :: "'a request \<Rightarrow> bool" where
  "fresh r \<longleftrightarrow> rq_user r = [] \<and> rq_tenant r = [] \<and> rq_api_key r = []"

text \<open>\<open>recoverer\<close> around the chain of handlers, which gives the request id and, unless it panicked, a response.\<close>

definition recoverer ::
    "(world \<Rightarrow> (string \<times> response option) \<times> world) \<Rightarrow> world \<Rightarrow> (string \<times> response) \<times> world" where
  "recoverer chain w =
     (case chain w of (a, w1) \<Rightarrow>
        ((fst a, case snd a of None \<Rightarrow> writeJSON 500 (JString ''Internal Server Error'') | Some resp \<Rightarrow> resp), w1))"

definition NewRouter ::
    "ext \<Rightarrow> router_config \<Rightarrow> string \<Rightarrow> string list \<Rightarrow> bodies \<Rightarrow> unit request \<Rightarrow> world \<Rightarrow> (string \<times> response) \<times> world" where
  "NewRouter x c m p b r w =
     recoverer (\<lambda>w. case RequestID x r w of (rid, w1) \<Rightarrow>
        case mux m p of
          None \<Rightarrow> ((rid, Some (mux_miss p)), w1)
        | Some ep \<Rightarrow> (case serve x c ep b r w1 of (resp, w2) \<Rightarrow> ((rid, Some resp), w2))) w"

text \<open>The router of \<open>main\<close>, from the configuration and what could be connected.\<close>

definition gateway_router :: "config \<Rightarrow> bool \<Rightarrow> bool \<Rightarrow> router_config" where
  "gateway_router cfg pool nats =
     \<lparr>rc_jwt_secret = cfg_jwt_secret cfg, rc_pool = pool, rc_nats = nats,
      rc_webhook_secret = cfg_webhook_signing_secret cfg, rc_webhook_allow_private = cfg_webhook_allow_private cfg,
      rc_quotas_enabled = cfg_quotas_enabled cfg, rc_ready_check = Some (readiness pool nats)\<rparr>"

subsection \<open>The contract of a handler\<close>

text \<open>
  Every handler of the gateway changes the tables only by statements of the program, starts no
  container and sends no webhook. The locale states it once; every handler interprets it, and
  a gate in front of a handler keeps it.
\<close>

definition idle :: "world \<Rightarrow> world \<Rightarrow> bool" where
  "idle w0 w \<longleftrightarrow> posts w = posts w0 \<and> started w = started w0"

lemma idle_refl [simp]: "idle w w"
  by (simp add: idle_def)

lemma idle_trans: "idle a b \<Longrightarrow> idle b c \<Longrightarrow> idle a c"
  by (simp add: idle_def)

lemma same_idle: "keeps (same_io w) p \<Longrightarrow> idle w0 w \<Longrightarrow> keeps (idle w0) p"
  by (simp add: keeps_def same_io_def idle_def)

locale served =
  fixes h :: "'a request \<Rightarrow> world \<Rightarrow> response \<times> world"
  assumes h_safe: "safe db_path d0 w \<Longrightarrow> keeps (safe db_path d0) (h r w)"
    and h_idle: "idle w0 w \<Longrightarrow> keeps (idle w0) (h r w)"
begin

lemma served_pooled: "served (pooled c none h)"
  by unfold_locales (simp_all add: pooled_def h_safe h_idle keeps_ret)

lemma served_guard:
  assumes "\<And>d0 w r. safe db_path d0 w \<Longrightarrow> keeps (safe db_path d0) (g r w)"
    and "\<And>w0 w r. idle w0 w \<Longrightarrow> keeps (idle w0) (g r w)"
  shows "served (guard g h)"
proof
  show "keeps (safe db_path d0) (guard g h r w)" if "safe db_path d0 w" for d0 w r
    unfolding guard_def by (intro keeps_bind keeps_rules h_safe assms that)
  show "keeps (idle w0) (guard g h r w)" if "idle w0 w" for w0 w r
    unfolding guard_def by (intro keeps_bind keeps_rules h_idle assms that)
qed

end

subsection \<open>The gates\<close>

lemma DBChecker_same: "same_io w0 w \<Longrightarrow> keeps (same_io w0) (DBChecker x u t w)"
  unfolding DBChecker_def by (intro keeps_bind keeps_rules call_same)

lemma CheckAPIKey_same: "same_io w0 w \<Longrightarrow> keeps (same_io w0) (CheckAPIKey x k h w)"
  unfolding CheckAPIKey_def by (rule keeps_bind, erule call_same, erule keeps_ret)

lemma RequireAuth_gate:
  assumes "\<And>u t. keeps P (chk u t w)" and "P w"
  shows "keeps P (RequireAuth x secret (Some chk) r w)"
proof -
  obtain token ok where c: "CutPrefix (rq_authorization r) ''Bearer '' = (token, ok)" by (metis prod.exhaust)
  have "keeps P (case chk u t w of (m, w1) \<Rightarrow> (g m :: response + 'a request, w1))" for u t g
    by (rule keeps_bind, rule assms, erule keeps_ret)
  with assms(2) show ?thesis by (auto simp: RequireAuth_def c Let_def keeps_ret split: sum.split)
qed

lemma tenantAuth_same:
  assumes "same_io w0 w"
  shows "keeps (same_io w0) (tenantAuth x secret r w)"
  using assms unfolding tenantAuth_def RequireAuthWithAPIKeys_def Let_def
  by (auto intro!: keeps_bind keeps_rules CheckAPIKey_same DBChecker_same RequireAuth_gate)

lemma tenant_gate_keeps:
  "safe db_path d0 w \<Longrightarrow> keeps (safe db_path d0) (tenant_gate x c r w)"
  "idle w0 w \<Longrightarrow> keeps (idle w0) (tenant_gate x c r w)"
proof -
  have closed: "keeps P (RequireAuthWithAPIKeys x secret (Some (\<lambda>u t w. (None, w))) None r w)" if "P w" for P secret
    using that unfolding RequireAuthWithAPIKeys_def Let_def
    by (auto simp: keeps_ret intro!: RequireAuth_gate keeps_rules)
  show "safe db_path d0 w \<Longrightarrow> keeps (safe db_path d0) (tenant_gate x c r w)"
    by (simp add: tenant_gate_def path.tenantAuth_keeps closed keeps_ret)
  show "idle w0 w \<Longrightarrow> keeps (idle w0) (tenant_gate x c r w)"
    using same_idle [OF tenantAuth_same [OF same_io_refl]] by (auto simp: tenant_gate_def closed keeps_ret)
qed

lemma RequireUser_keeps: "P w \<Longrightarrow> keeps P (RequireUser x secret r w)"
  by (simp add: RequireUser_def keeps_def split: prod.split)

subsection \<open>The handlers\<close>

lemma exec_reads_same:
  "same_io w0 w \<Longrightarrow> keeps (same_io w0) (List_executions x r w)" "same_io w0 w \<Longrightarrow> keeps (same_io w0) (Get_execution x r w)"
  unfolding List_executions_def Get_execution_def Let_def by (intro keeps_bind keeps_rules call_same; simp)+

lemma exec_reads_keeps:
  assumes "safe db_path d0 w"
  shows "keeps (safe db_path d0) (List_executions x r w)" "keeps (safe db_path d0) (Get_execution x r w)"
proof -
  show "keeps (safe db_path d0) (List_executions x r w)"
    unfolding List_executions_def Let_def
    by (intro keeps_bind keeps_rules path.db_call_keeps path.store_rules assms)
  show "keeps (safe db_path d0) (Get_execution x r w)"
    unfolding Get_execution_def Let_def
    by (intro keeps_bind keeps_rules path.db_call_keeps path.store_rules assms)
qed

lemma Create_execution_idle:
  assumes "idle w0 w"
  shows "keeps (idle w0) (Create_execution x (new_exec_handler n s p q) r w)"
proof -
  have pub: "keeps (idle w0) (eh_publish (new_exec_handler n s p q) m w1)" if "idle w0 w1" for m w1
    using that submit_publisher.publish_posts [OF exec_publisher] submit_publisher.publish_started [OF exec_publisher]
    by (simp add: keeps_def idle_def)
  have v: "keeps (idle w0) (validate x h rr w1)" if "idle w0 w1" for h rr w1
    using same_idle [OF validate_same [OF same_io_refl] that] .
  have i: "keeps (idle w0) (insert_execution x h tn pr w1)" if "idle w0 w1" for h tn pr w1
    using same_idle [OF insert_execution_io(1) [OF same_io_refl] that] .
  have d: "keeps (idle w0) (db_call (qq :: unit stmt) w1)" if "idle w0 w1" for qq w1
    using same_idle [OF call_same(1) [OF same_io_refl] that] .
  show ?thesis
    unfolding Create_execution_def by (intro keeps_bind keeps_triple keeps_rules pub v i d assms)
qed

lemma key_same:
  "same_io w0 w \<Longrightarrow> keeps (same_io w0) (List_api_keys x r w)" "same_io w0 w \<Longrightarrow> keeps (same_io w0) (Delete_api_key x r w)"
  unfolding List_api_keys_def Delete_api_key_def Let_def by (intro keeps_bind keeps_rules call_same; simp)+

lemma GenerateAPIKey_rule:
  assumes "\<And>w. P w \<Longrightarrow> keeps P (tick w)" and "P w"
  shows "keeps P (GenerateAPIKey w)"
proof -
  have r: "keeps P (rand_read n v)" if "P v" for n v
    unfolding rand_read_def by (rule keeps_bind, rule assms(1) [OF that], erule keeps_ret)
  show ?thesis unfolding GenerateAPIKey_def Let_def by (intro keeps_bind keeps_rules r assms(2))
qed

lemma insert_key_rule:
  assumes "\<And>w. P w \<Longrightarrow> keeps P (tick w)"
    and "\<And>kid h w. P w \<Longrightarrow> keeps P (db_call (CreateAPIKey kid uid tid name h) w)"
  shows "P w \<Longrightarrow> keeps P (insert_key x uid tid name n k w)"
proof (induction n arbitrary: k w)
  case 0
  obtain a b c where k: "k = (a, b, c)" by (metis prod.exhaust)
  show ?case
    unfolding k insert_key.simps nat.case by (intro keeps_bind keeps_rules assms(2) 0)
next
  case (Suc n)
  obtain a b c where k: "k = (a, b, c)" by (metis prod.exhaust)
  show ?case
    unfolding k insert_key.simps [of _ _ _ _ "Suc n"] nat.case
    by (intro keeps_bind keeps_rules assms(2) GenerateAPIKey_rule assms(1) Suc)
qed

lemma Create_api_key_rule:
  assumes "\<And>w. P w \<Longrightarrow> keeps P (tick w)"
    and "\<And>kid uid tid name h w. P w \<Longrightarrow> keeps P (db_call (CreateAPIKey kid uid tid name h) w)" and "P w"
  shows "keeps P (Create_api_key x r w)"
  unfolding Create_api_key_def Let_def
  by (intro keeps_bind keeps_rules GenerateAPIKey_rule insert_key_rule assms)

lemma key_keeps:
  assumes "safe db_path d0 w"
  shows "keeps (safe db_path d0) (List_api_keys x r w)" "keeps (safe db_path d0) (Delete_api_key x r w)"
    "keeps (safe db_path d0) (Create_api_key x kr w)"
proof -
  show "keeps (safe db_path d0) (List_api_keys x r w)"
    unfolding List_api_keys_def by (intro keeps_bind keeps_rules path.db_call_keeps path.store_rules assms)
  show "keeps (safe db_path d0) (Delete_api_key x r w)"
    unfolding Delete_api_key_def Let_def by (intro keeps_bind keeps_rules path.db_call_keeps path.store_rules assms)
  show "keeps (safe db_path d0) (Create_api_key x kr w)"
    by (intro Create_api_key_rule path.tick_keeps path.db_call_keeps path.store_rules assms)
qed

lemma same_served:
  assumes "\<And>d0 w r. safe db_path d0 w \<Longrightarrow> keeps (safe db_path d0) (h r w)"
    and "\<And>w r. keeps (same_io w) (h r w)"
  shows "served h"
  using assms same_idle by unfold_locales blast+

interpretation register: served "Register x secret" for x secret
  by (rule same_served) (simp_all add: path.Register_keeps account_io)

interpretation login: served "Login x secret" for x secret
  by (rule same_served) (simp_all add: path.Login_keeps account_io)

interpretation refresh: served "Refresh x secret" for x secret
  by (rule same_served) (simp_all add: path.Refresh_keeps account_io)

interpretation logout: served "Logout x secret" for x secret
  by (rule same_served) (simp_all add: path.session_keeps account_io)

interpretation logout_all: served "LogoutAll x" for x
  by (rule same_served) (simp_all add: path.session_keeps account_io)

interpretation me: served "Me x" for x
  by (rule same_served) (simp_all add: path.session_keeps account_io)

interpretation create_execution: served "Create_execution x (new_exec_handler n s p q)" for x n s p q
  by unfold_locales (simp_all add: gateway.Create_keeps Create_execution_idle)

interpretation list_executions: served "List_executions x" for x
  by (rule same_served) (simp_all add: exec_reads_keeps exec_reads_same)

interpretation get_execution: served "Get_execution x" for x
  by (rule same_served) (simp_all add: exec_reads_keeps exec_reads_same)

interpretation create_tenant: served "Create_tenant x" for x
  by (rule same_served) (simp_all add: path.Create_tenant_keeps Create_tenant_io)

interpretation get_tenant: served "Get_tenant x" for x
  by (rule same_served) (simp_all add: path.Get_tenant_keeps Get_tenant_io)

interpretation create_key: served "Create_api_key x" for x
  by (rule same_served)
    (simp_all add: key_keeps Create_api_key_rule tick_same call_same)

interpretation list_keys: served "List_api_keys x" for x
  by (rule same_served) (simp_all add: key_keeps key_same)

interpretation delete_key: served "Delete_api_key x" for x
  by (rule same_served) (simp_all add: key_keeps key_same)

lemma tenant_route_served: "served h \<Longrightarrow> served (tenant_route x c h)"
  unfolding tenant_route_def
  by (intro served.served_guard served.served_pooled tenant_gate_keeps)

lemma user_route_served: "served h \<Longrightarrow> served (pooled c none (guard (RequireUser x secret) h))"
  by (intro served.served_pooled served.served_guard RequireUser_keeps)

lemma readiness_rule:
  assumes "\<And>w. P w \<Longrightarrow> keeps P (tick w)" and "P w"
  shows "keeps P (ReadyHandler (Some (readiness pool nats)) w)"
proof -
  have g: "keeps P (ping v)" if "P v" for v
    unfolding ping_def by (rule keeps_bind, rule assms(1) [OF that], erule keeps_ret)
  have "keeps P (readiness pool nats w)"
    unfolding readiness_def by (intro keeps_bind keeps_rules g assms(2))
  then show ?thesis unfolding ReadyHandler_def by (simp, intro keeps_bind keeps_ret)
qed

lemmas routes_served =
  register.served_pooled login.served_pooled refresh.served_pooled logout.served_pooled
  logout_all.served_axioms [THEN user_route_served] me.served_axioms [THEN user_route_served]
  create_execution.served_axioms [THEN tenant_route_served] list_executions.served_axioms [THEN tenant_route_served]
  get_execution.served_axioms [THEN tenant_route_served] create_tenant.served_axioms [THEN tenant_route_served]
  get_tenant.served_axioms [THEN tenant_route_served] create_key.served_axioms [THEN tenant_route_served]
  list_keys.served_axioms [THEN tenant_route_served] delete_key.served_axioms [THEN tenant_route_served]

lemma tick_idle: "idle w0 w \<Longrightarrow> keeps (idle w0) (tick w)"
  by (simp add: keeps_def idle_def frame)

lemma serve_keeps:
  "safe db_path d0 w \<Longrightarrow> keeps (safe db_path d0) (serve x (gateway_router cfg pool nats) ep b r w)"
  "idle w0 w \<Longrightarrow> keeps (idle w0) (serve x (gateway_router cfg pool nats) ep b r w)"
  by (cases ep; simp add: serve_def Let_def keeps_ret gateway_router_def readiness_rule path.tick_keeps tick_idle
      routes_served [THEN served.h_safe] routes_served [THEN served.h_idle])+

lemma RequestID_db: "RequestID x r w = (rid, w1) \<Longrightarrow> db w1 = db w"
  by (auto simp: RequestID_def split: if_splits prod.splits)

lemma RequestID_rule:
  assumes "\<And>w. P w \<Longrightarrow> keeps P (new_uuid w)" and "P w"
  shows "keeps P (RequestID x r w)"
proof -
  have "keeps P (case new_uuid w of (u, w1) \<Rightarrow> (x_uuid_string x u, w1))"
    by (rule keeps_bind, rule assms(1) [OF assms(2)], erule keeps_ret)
  with assms(2) show ?thesis by (simp add: RequestID_def keeps_ret)
qed

lemma NewRouter_keeps:
  "safe db_path d0 w \<Longrightarrow> keeps (safe db_path d0) (NewRouter x (gateway_router cfg pool nats) m p b r w)"
  "idle w0 w \<Longrightarrow> keeps (idle w0) (NewRouter x (gateway_router cfg pool nats) m p b r w)"
proof -
  have u: "keeps (idle w0) (new_uuid v)" if "idle w0 v" for v
    using same_idle [OF new_uuid_io(1) [OF same_io_refl] that] .
  show "safe db_path d0 w \<Longrightarrow> keeps (safe db_path d0) (NewRouter x (gateway_router cfg pool nats) m p b r w)"
    unfolding NewRouter_def recoverer_def
    by (intro keeps_bind keeps_rules RequestID_rule path.new_uuid_keeps serve_keeps)
  show "idle w0 w \<Longrightarrow> keeps (idle w0) (NewRouter x (gateway_router cfg pool nats) m p b r w)"
    unfolding NewRouter_def recoverer_def by (intro keeps_bind keeps_rules RequestID_rule u serve_keeps)
qed

lemma tenant_route_unauth:
  assumes "rc_jwt_secret c \<noteq> []" and "\<not> snd (CutPrefix (rq_authorization r) ''Bearer '')"
    and "\<not> snd (CutPrefix (rq_authorization r) ''sk_live_'')"
  shows "tenant_route x c h r w = (writeErr 401 ''missing bearer token'', w)"
proof -
  have b: "CutPrefix (rq_authorization r) ''Bearer '' = (rq_authorization r, False)"
    using assms(2) by (simp add: CutPrefix_def split: if_splits)
  with assms show ?thesis
    by (simp add: tenant_route_def guard_def tenant_gate_def tenantAuth_def RequireAuthWithAPIKeys_def RequireAuth_def Let_def)
qed

lemma retype_sel [simp]: "rq_authorization (retype bd r) = rq_authorization r"
  by (simp add: retype_def)

lemma serve_tenant:
  assumes "tenant_scoped ep"
  obtains (a) h :: "create_request handler" and r1 where "serve x c ep b r w = tenant_route x c h r1 w"
      "rq_authorization r1 = rq_authorization r"
  | (b) h :: "unit handler" and r1 where "serve x c ep b r w = tenant_route x c h r1 w"
      "rq_authorization r1 = rq_authorization r"
  | (c) h :: "create_tenant_request handler" and r1 where "serve x c ep b r w = tenant_route x c h r1 w"
      "rq_authorization r1 = rq_authorization r"
  | (d) h :: "create_key_request handler" and r1 where "serve x c ep b r w = tenant_route x c h r1 w"
      "rq_authorization r1 = rq_authorization r"
  using assms
  by (cases ep) (auto simp: serve_def Let_def intro: a b c d)

subsection \<open>Properties\<close>

text \<open>
  Whatever request the gateway serves, on any route, with or without a database or a
  queue: the tables only change by the statements of the program, so their invariant is kept
  and terminal executions stay as they are; no container is started and no webhook is sent.
\<close>

theorem gateway_guarantee:
  assumes "obeys db_path w" and "db_ok (db w)"
    and "NewRouter x (gateway_router cfg pool nats) m p b r w = (resp, w')"
  shows "db_ok (db w') \<and> db_le (db w) (db w') \<and> started w' = started w \<and> posts w' = posts w"
proof -
  have "db_path (db w) (db w')"
    using NewRouter_keeps(1) [OF path.safe_start [OF assms(1)], of x cfg pool nats m p b r] assms(3)
    by (simp add: keeps_def safe_def)
  moreover have "idle w w'"
    using NewRouter_keeps(2) [OF idle_refl, of w x cfg pool nats m p b r] assms(3) by (simp add: keeps_def)
  ultimately show ?thesis using db_path_ok [OF _ assms(2)] db_path_le by (auto simp: idle_def)
qed

text \<open>
  Property C13: outside development no tenant route is open. With a configuration that loads and an
  \<open>ENV\<close> other than \<open>development\<close>, a request to any tenant route without a bearer token or API key
  is answered 401 and changes nothing, whether or not the database is connected.
\<close>

theorem production_requires_auth:
  assumes "Load x env = Inr cfg" and "env ''ENV'' \<noteq> ''development''" and "mux m p = Some ep" and "tenant_scoped ep"
    and "\<not> snd (CutPrefix (rq_authorization r) ''Bearer '')" and "\<not> snd (CutPrefix (rq_authorization r) ''sk_live_'')"
    and "NewRouter x (gateway_router cfg pool nats) m p b r w = ((rid, resp), w')"
  shows "rs_code resp = 401 \<and> db w' = db w"
proof -
  let ?c = "gateway_router cfg pool nats"
  have s: "rc_jwt_secret ?c \<noteq> []" using Load_Inr(1,3) [OF assms(1)] assms(2) by (simp add: gateway_router_def)
  obtain w1 where w1: "RequestID x r w = (rid, w1)" using assms(7)
    by (auto simp: NewRouter_def recoverer_def split: prod.splits option.splits)
  have "serve x ?c ep b r w1 = (writeErr 401 ''missing bearer token'', w1)"
    using assms(4)
    by (cases rule: serve_tenant [of ep x ?c b r w1]) (simp_all add: tenant_route_unauth [OF s] assms(5,6))
  with assms(3,7) w1 RequestID_db [OF w1] show ?thesis by (auto simp: NewRouter_def recoverer_def)
qed

text \<open>A deployment with a secret, and a request without credentials.\<close>

definition sample_env :: "string \<Rightarrow> string" where
  "sample_env k = (if k = ''JWT_SECRET'' then ''k'' else [])"

definition sample_cfg :: config where
  "sample_cfg = projr (Load sample_ext sample_env)"

definition no_bodies :: bodies where
  "no_bodies = \<lparr>bd_register = None, bd_login = None, bd_refresh = None, bd_logout = None, bd_execution = None, bd_tenant = None, bd_key = None\<rparr>"

lemma sample_loads: "Load sample_ext sample_env = Inr sample_cfg"
  by (simp add: sample_cfg_def Load_def env_parse_def sample_env_def)

theorem gateway_guarantee_witness:
  "db_ok (db (snd (NewRouter sample_ext (gateway_router sample_cfg True True) ''POST'' [''auth'', ''logout'']
     no_bodies (plain_request [] None) sample_world)))"
  using gateway_guarantee [OF _ _ prod.collapse [symmetric]] quiet_obeys(1) sample_db_ok
  by (metis sample_world_sel(1,2))

theorem production_requires_auth_witness:
  "rs_code (snd (fst (NewRouter sample_ext (gateway_router sample_cfg True True) ''GET'' [''executions'']
     no_bodies (plain_request ''2'' None) sample_world))) = 401"
proof -
  have m: "mux ''GET'' [''executions''] = Some GetExecutions" by (simp add: mux_def get_route_def)
  have e: "sample_env ''ENV'' \<noteq> ''development''" by (simp add: sample_env_def)
  have t: "tenant_scoped GetExecutions" by simp
  obtain rid resp w' where n: "NewRouter sample_ext (gateway_router sample_cfg True True) ''GET'' [''executions'']
     no_bodies (plain_request ''2'' None) sample_world = ((rid, resp), w')" by (metis prod.exhaust)
  from production_requires_auth [OF sample_loads e m t _ _ n] show ?thesis
    unfolding n by (simp add: plain_request_def CutPrefix_def)
qed

end
