(* ===== verification/Migrations.thy ===== *)
theory Migrations
  imports Quotas
begin

section \<open>Migrations\<close>

text \<open>
  \<open>internal/store/migrate.go\<close>. A migration is its version and the statement its SQL script is;
  the scripts create and alter tables, so what they do to the rows of this model is left open.
  The claim and the script run in one transaction.
\<close>

definition claim_version :: "string \<Rightarrow> nat stmt" where
  "claim_version v t u d =
     (if v \<in> set (schema_migrations d) then (Inr 0, d)
      else (Inr 1, d\<lparr>schema_migrations := schema_migrations d @ [v]\<rparr>))"

definition create_migrations_table :: "unit stmt" where
  "create_migrations_table t u d = (nil_err, d)"

definition applyMigration :: "string \<Rightarrow> unit stmt \<Rightarrow> world \<Rightarrow> unit result \<times> world" where
  "applyMigration v script_sql w =
     (case tx_begin w of (b, w1) \<Rightarrow>
        case b of
          Inl e \<Rightarrow> (Inl e, w1)
        | Inr t \<Rightarrow>
            (case tx_call t (claim_version v) w1 of (n, w2) \<Rightarrow>
              case n of
                Inl e \<Rightarrow> (Inl e, tx_rollback t w2)
              | Inr k \<Rightarrow>
                  if k = 0 then (nil_err, tx_rollback t w2)
                  else (case tx_call t script_sql w2 of (s, w3) \<Rightarrow>
                    case s of
                      Inl e \<Rightarrow> (Inl e, tx_rollback t w3)
                    | Inr _ \<Rightarrow> tx_commit t w3)))"

fun apply_all :: "(string \<times> unit stmt) list \<Rightarrow> world \<Rightarrow> unit result \<times> world" where
  "apply_all [] w = (nil_err, w)"
| "apply_all (m # ms) w =
     (case applyMigration (fst m) (snd m) w of (r, w1) \<Rightarrow>
        case r of Inl e \<Rightarrow> (Inl e, w1) | Inr _ \<Rightarrow> apply_all ms w1)"

definition Migrate :: "(string \<times> unit stmt) list \<Rightarrow> world \<Rightarrow> unit result \<times> world" where
  "Migrate ms w =
     (case db_call create_migrations_table w of (r, w1) \<Rightarrow>
        case r of Inl e \<Rightarrow> (Inl e, w1) | Inr _ \<Rightarrow> apply_all ms w1)"

subsection \<open>One migration\<close>

text \<open>Scripts do not touch the table of versions, and one that fails changes nothing.\<close>

definition script_ok :: "unit stmt \<Rightarrow> bool" where
  "script_ok s \<longleftrightarrow> (\<forall>t u d. schema_migrations (snd (s t u d)) = schema_migrations d)"

text \<open>
  The effect of one migration: nothing, or the version is claimed and the script has run on the
  tables that did not have it.
\<close>

definition migrated :: "string \<Rightarrow> unit stmt \<Rightarrow> db \<Rightarrow> db \<Rightarrow> bool" where
  "migrated v s d d' \<longleftrightarrow> v \<notin> set (schema_migrations d)
     \<and> (\<exists>t u. s t u (d\<lparr>schema_migrations := schema_migrations d @ [v]\<rparr>) = (nil_err, d'))"

lemma applyMigration_effect:
  assumes "applyMigration v s w = (r, w')" and "d = db (snd (tick w))"
  shows "db w' = d \<and> (r = nil_err \<longrightarrow> v \<in> set (schema_migrations d))
    \<or> migrated v s d (db w') \<and> (r = nil_err \<or> \<not> clear w)"
proof -
  obtain b w1 where b: "tx_begin w = (b, w1)" by (metis prod.exhaust)
  then show ?thesis
  proof (cases rule: tx_begin_cases)
    case (1 e)
    with assms b show ?thesis by (auto simp: applyMigration_def)
  next
    case (2 e)
    define t where "t = \<lparr>tx_now = now w1, tx_saved = db w1\<rparr>"
    have bt: "b = Inr t" "tx_saved t = d" "db w1 = d" using 2 assms(2) by (auto simp: t_def)
    obtain n w2 where n: "tx_call t (claim_version v) w1 = (n, w2)" by (metis prod.exhaust)
    obtain q w3 where q: "tx_call t s w2 = (q, w3)" by (metis prod.exhaust)
    obtain k w4 where k: "tx_commit t w3 = (k, w4)" by (metis prod.exhaust)
    have cl: "clear w \<Longrightarrow> clear w3" using tx_clear(1) [OF b] tx_clear(2) [OF n] tx_clear(2) [OF q] by blast
    have claim: "n = Inr 0 \<and> v \<in> set (schema_migrations d) \<or> (\<exists>e. n = Inl e)
        \<or> n = Inr 1 \<and> v \<notin> set (schema_migrations d) \<and> db w2 = d\<lparr>schema_migrations := schema_migrations d @ [v]\<rparr>"
      using tx_callD [OF n] bt(3) by (auto simp: claim_version_def split: if_splits)
    show ?thesis
    proof (cases "n = Inr 1 \<and> q = Inr ()")
      case True
      with claim tx_callD [OF q] have "migrated v s d (db w3)" unfolding migrated_def by (metis old.sum.inject(2) prod.collapse sum.distinct(1) zero_neq_one)
      with assms(1) b bt n q k True tx_commit_db [OF k] cl show ?thesis by (auto simp: applyMigration_def)
    next
      case False
      with assms(1) b bt n q claim show ?thesis by (auto simp: applyMigration_def split: sum.splits)
    qed
  qed
qed

lemma applyMigration_later: "later w0 w \<Longrightarrow> keeps (later w0) (applyMigration v s w)"
  unfolding applyMigration_def by (intro keeps_bind keeps_rules call_later; simp)

lemma applyMigration_alone:
  assumes "obeys (=) w" and "applyMigration v s w = (r, w')"
  shows "obeys (=) w'" and "v \<in> set (schema_migrations (db w)) \<Longrightarrow> db w' = db w"
    and "script_ok s \<Longrightarrow> set (schema_migrations (db w)) \<subseteq> set (schema_migrations (db w'))"
    and "script_ok s \<Longrightarrow> r = nil_err \<Longrightarrow> v \<in> set (schema_migrations (db w'))"
proof -
  have d: "db (snd (tick w)) = db w" using alone_tick [OF assms(1)] by (metis prod.collapse)
  note eff = applyMigration_effect [OF assms(2) refl, unfolded d]
  have m: "set (schema_migrations (db w')) = insert v (set (schema_migrations (db w)))"
    if "migrated v s (db w) (db w')" "script_ok s"
  proof -
    from that(1) obtain t u where "db w' = snd (s t u ((db w)\<lparr>schema_migrations := schema_migrations (db w) @ [v]\<rparr>))"
      unfolding migrated_def by (metis snd_conv)
    with that(2) show ?thesis by (simp add: script_ok_def)
  qed
  show "obeys (=) w'"
    using later_obeys [OF _ assms(1)] applyMigration_later [OF later_refl, of w v s] assms(2) by (simp add: keeps_def)
  show "v \<in> set (schema_migrations (db w)) \<Longrightarrow> db w' = db w" using eff by (auto simp: migrated_def)
  show "script_ok s \<Longrightarrow> set (schema_migrations (db w)) \<subseteq> set (schema_migrations (db w'))" using eff m by auto
  show "script_ok s \<Longrightarrow> r = nil_err \<Longrightarrow> v \<in> set (schema_migrations (db w'))" using eff m by auto
qed

lemma apply_all_noop:
  "obeys (=) w \<Longrightarrow> fst ` set ms \<subseteq> set (schema_migrations (db w)) \<Longrightarrow> apply_all ms w = (r, w') \<Longrightarrow> db w' = db w"
proof (induction ms arbitrary: w)
  case (Cons m ms)
  obtain q w1 where q: "applyMigration (fst m) (snd m) w = (q, w1)" by (metis prod.exhaust)
  note a = applyMigration_alone [OF Cons.prems(1) q]
  have w1: "db w1 = db w" using a(2) Cons.prems(2) by auto
  show ?case
  proof (cases q)
    case (Inl e)
    with Cons.prems(3) q w1 show ?thesis by simp
  next
    case (Inr u)
    with Cons.prems(3) q have "apply_all ms w1 = (r, w')" by simp
    with Cons.IH [OF a(1)] Cons.prems(2) w1 show ?thesis by simp
  qed
qed simp

lemma create_table_alone:
  "obeys (=) v \<Longrightarrow> db_call create_migrations_table v = (q, v1) \<Longrightarrow> obeys (=) v1 \<and> db v1 = db v"
  using db_call_alone by (fastforce simp: create_migrations_table_def)

text \<open>
  Other replicas may apply migrations at the same time; nobody takes the record of one away.
\<close>

definition records_kept :: "db \<Rightarrow> db \<Rightarrow> bool" where
  "records_kept d d' \<longleftrightarrow> set (schema_migrations d) \<subseteq> set (schema_migrations d')"

interpretation records: rely_guarantee records_kept
  by unfold_locales (auto simp: records_kept_def)

lemma safe_records:
  "safe records_kept d w \<Longrightarrow> obeys records_kept w"
  "safe records_kept d w \<Longrightarrow> set (schema_migrations d) \<subseteq> set (schema_migrations (db w))"
  "safe records_kept d w \<Longrightarrow> safe records_kept (db w) w' \<Longrightarrow> safe records_kept d w'"
  by (auto simp: safe_def records_kept_def)

lemma applyMigration_records:
  assumes "obeys records_kept w" and "script_ok s" and "applyMigration v s w = (r, w')"
  shows "safe records_kept (db w) w' \<and> (r = nil_err \<longrightarrow> v \<in> set (schema_migrations (db w')))"
proof -
  have d: "records_kept (db w) (db (snd (tick w)))"
    using records.tick_safe [OF records.safe_start [OF assms(1)]] by (metis prod.collapse safe_def)
  have m: "set (schema_migrations d') = insert v (set (schema_migrations d))" if "migrated v s d d'" for d d'
  proof -
    from that obtain t u where "d' = snd (s t u (d\<lparr>schema_migrations := schema_migrations d @ [v]\<rparr>))"
      unfolding migrated_def by (metis snd_conv)
    with assms(2) show ?thesis by (simp add: script_ok_def)
  qed
  have "obeys records_kept w'"
    using later_obeys [OF _ assms(1)] applyMigration_later [OF later_refl, of w v s] assms(3) by (simp add: keeps_def)
  with applyMigration_effect [OF assms(3) refl] d m show ?thesis by (auto simp: safe_def records_kept_def)
qed

lemma apply_all_records:
  "obeys records_kept w \<Longrightarrow> list_all (\<lambda>m. script_ok (snd m)) ms \<Longrightarrow> apply_all ms w = (nil_err, w') \<Longrightarrow>
   safe records_kept (db w) w' \<and> fst ` set ms \<subseteq> set (schema_migrations (db w'))"
proof (induction ms arbitrary: w)
  case (Cons m ms)
  obtain q w1 where q: "applyMigration (fst m) (snd m) w = (q, w1)" by (metis prod.exhaust)
  have n: "q = nil_err" "apply_all ms w1 = (nil_err, w')" using Cons.prems(3) q by (auto split: sum.splits)
  from applyMigration_records [OF Cons.prems(1) _ q] Cons.prems(2) n(1)
  have w1: "safe records_kept (db w) w1" "fst m \<in> set (schema_migrations (db w1))" by auto
  have "safe records_kept (db w1) w'" "fst ` set ms \<subseteq> set (schema_migrations (db w'))"
    using Cons.IH [OF safe_records(1) [OF w1(1)] _ n(2)] Cons.prems(2) by simp_all
  with w1 safe_records(2) [of "db w1" w'] safe_records(3) [OF w1(1)] show ?case by auto
qed (simp add: safe_def records_kept_def)

lemma Migrate_records:
  assumes "list_all (\<lambda>m. script_ok (snd m)) ms" and "obeys records_kept w" and "Migrate ms w = (nil_err, w')"
  shows "safe records_kept (db w) w' \<and> fst ` set ms \<subseteq> set (schema_migrations (db w'))"
proof -
  obtain q w1 where q: "db_call create_migrations_table w = (q, w1)" by (metis prod.exhaust)
  have "safe records_kept (db w) w1"
    using records.db_call_keeps [OF _ records.safe_start [OF assms(2)], of create_migrations_table] q
    by (simp add: create_migrations_table_def records_kept_def keeps_def)
  moreover from assms(3) q have "apply_all ms w1 = (nil_err, w')" by (auto simp: Migrate_def split: sum.splits)
  ultimately show ?thesis using apply_all_records [OF _ assms(1)] safe_records(1,3) by blast
qed

subsection \<open>Properties\<close>

text \<open>
  A migration script runs at most once. Applying a version either leaves the tables as
  it found them, or claims the version and runs its script on tables that did not have it,
  both or neither; when it reports success the version was there or is now.
\<close>

theorem migration_once:
  assumes "applyMigration v s w = (r, w')"
  shows "db w' = db (snd (tick w)) \<and> (r = nil_err \<longrightarrow> v \<in> set (schema_migrations (db w')))
    \<or> migrated v s (db (snd (tick w))) (db w') \<and> (r = nil_err \<or> \<not> clear w)"
  using applyMigration_effect [OF assms refl] by auto

theorem migration_once_witness:
  "migrated ''1'' (\<lambda>t u d. (nil_err, d)) sample_db
     (db (snd (applyMigration ''1'' (\<lambda>t u d. (nil_err, d)) sample_world)))"
proof -
  have "schema_migrations sample_db = []" by (simp add: sample_db_def)
  then have "applyMigration ''1'' (\<lambda>t u d. (nil_err, d)) sample_world
      = (nil_err, sample_world\<lparr>db := sample_db\<lparr>schema_migrations := [''1'']\<rparr>\<rparr>)"
    by (simp add: applyMigration_def tx_quiet claim_version_def)
  with migration_once [OF this] show ?thesis by (auto simp: sample_db_def)
qed

text \<open>
  Property C40: migrating is idempotent. When a run of all migrations has succeeded, every version is
  recorded, and a second run changes nothing, whatever it returns.
\<close>

theorem migrate_idempotent:
  assumes "list_all (\<lambda>m. script_ok (snd m)) ms" and "obeys (=) w" and "Migrate ms w = (nil_err, w')"
    and "obeys (=) w2" and "db w2 = db w'" and "Migrate ms w2 = (r, w3)"
  shows "fst ` set ms \<subseteq> set (schema_migrations (db w')) \<and> db w3 = db w'"
proof -
  have v: "fst ` set ms \<subseteq> set (schema_migrations (db w'))" using Migrate_records [OF assms(1) _ assms(3)] assms(2)
    by (simp add: obeys_def records_kept_def)
  obtain q2 w4 where q2: "db_call create_migrations_table w2 = (q2, w4)" by (metis prod.exhaust)
  note w4 = create_table_alone [OF assms(4) q2]
  have "db w3 = db w2"
  proof (cases q2)
    case (Inl e)
    with assms(6) q2 w4 show ?thesis by (simp add: Migrate_def)
  next
    case (Inr a)
    with assms(6) q2 have "apply_all ms w4 = (r, w3)" by (simp add: Migrate_def)
    with apply_all_noop w4 v assms(5) show ?thesis by metis
  qed
  with v assms(5) show ?thesis by simp
qed

theorem migrate_idempotent_witness:
  "db (snd (Migrate [(''1'', \<lambda>t u d. (nil_err, d))] (snd (Migrate [(''1'', \<lambda>t u d. (nil_err, d))] sample_world))))
   = db (snd (Migrate [(''1'', \<lambda>t u d. (nil_err, d))] sample_world))"
proof -
  let ?ms = "[(''1'', \<lambda>t u d. (nil_err, d))]"
  have s: "schema_migrations sample_db = []" by (simp add: sample_db_def)
  have m: "Migrate ?ms sample_world = (nil_err, sample_world\<lparr>db := sample_db\<lparr>schema_migrations := [''1'']\<rparr>\<rparr>)"
    using s by (simp add: Migrate_def db_call_quiet create_migrations_table_def applyMigration_def tx_quiet claim_version_def)
  have ok: "list_all (\<lambda>m. script_ok (snd m)) ?ms" by (simp add: script_ok_def)
  show ?thesis
    unfolding m snd_conv
    using migrate_idempotent [OF ok _ m, of "sample_world\<lparr>db := sample_db\<lparr>schema_migrations := [''1'']\<rparr>\<rparr>",
        OF _ _ _ prod.collapse [symmetric]]
    by (simp add: quiet_obeys)
qed

end
