(* ===== verification/Startup.thy ===== *)
theory Startup
  imports Gateway Migrations Reaper Streams
begin

section \<open>The two processes\<close>

text \<open>
  \<open>cmd/gateway/main.go\<close> and \<open>cmd/dispatcher/main.go\<close>, the connections they open (\<open>store.Connect\<close>,
  \<open>nats.Connect\<close>), and \<open>Dispatcher.Run\<close>. A process ends with a fatal message or reaches the state in
  which it serves. The embedded migrations are the parameter \<open>ms\<close>; \<open>swapped\<close> is the order in
  which \<open>EnsureStreams\<close> meets the two streams.
\<close>

subsection \<open>Connections\<close>

text \<open>\<open>pgxpool.New\<close> only reads the connection string; the ping is the first contact.\<close>

definition Connect_store :: "world \<Rightarrow> unit result \<times> world" where
  "Connect_store w =
     (case ping w of (new, w1) \<Rightarrow>
        case new of
          Some m \<Rightarrow> (Inl (Failure m), w1)
        | None \<Rightarrow> (case ping w1 of (p, w2) \<Rightarrow>
            (case p of Some m \<Rightarrow> Inl (Failure m) | None \<Rightarrow> nil_err, w2)))"

definition Connect_nats :: "world \<Rightarrow> unit result \<times> world" where
  "Connect_nats w = (case ping w of (c, w1) \<Rightarrow> (case c of Some m \<Rightarrow> Inl (Failure m) | None \<Rightarrow> nil_err, w1))"

subsection \<open>The gateway\<close>

record server_config =
  sv_addr :: string
  sv_read_header_timeout :: int
  sv_read_timeout :: int
  sv_write_timeout :: int
  sv_idle_timeout :: int

definition http_server :: "config \<Rightarrow> server_config" where
  "http_server cfg =
     \<lparr>sv_addr = Addr cfg, sv_read_header_timeout = 5 * second, sv_read_timeout = 15 * second,
      sv_write_timeout = 30 * second, sv_idle_timeout = 60 * second\<rparr>"

datatype gateway_state = Fatal string | Migrated | Serving server_config router_config

text \<open>NATS is optional for the gateway: without it submits answer 502.\<close>

definition gateway_nats :: "config \<Rightarrow> bool \<Rightarrow> world \<Rightarrow> bool \<times> world" where
  "gateway_nats cfg swapped w =
     (if cfg_nats_url cfg = [] then (False, w)
      else (case Connect_nats w of (c, w1) \<Rightarrow>
        case c of
          Inl _ \<Rightarrow> (False, w1)
        | Inr _ \<Rightarrow> (case EnsureStreams swapped w1 of (_, w2) \<Rightarrow> (True, w2))))"

definition gateway_main ::
    "ext \<Rightarrow> (string \<Rightarrow> string) \<Rightarrow> bool \<Rightarrow> (string \<times> unit stmt) list \<Rightarrow> bool \<Rightarrow> world \<Rightarrow> gateway_state \<times> world" where
  "gateway_main x env migrateOnly ms swapped w =
     (case Load x env of
        Inl e \<Rightarrow> (Fatal (''config: '' @ err_text e), w)
      | Inr cfg \<Rightarrow>
         (case Connect_store w of (p, w1) \<Rightarrow>
           case p of
             Inl _ \<Rightarrow>
               if migrateOnly then (Fatal ''migrate-only: Postgres unavailable'', w1)
               else (case gateway_nats cfg swapped w1 of (nats, w2) \<Rightarrow>
                 (Serving (http_server cfg) (gateway_router cfg False nats), w2))
           | Inr _ \<Rightarrow>
               (case Migrate ms w1 of (m, w2) \<Rightarrow>
                 case m of
                   Inl e \<Rightarrow> (Fatal (''migrate: '' @ err_text e), w2)
                 | Inr _ \<Rightarrow>
                     if migrateOnly then (Migrated, w2)
                     else (case gateway_nats cfg swapped w2 of (nats, w3) \<Rightarrow>
                       (Serving (http_server cfg) (gateway_router cfg True nats), w3)))))"

subsection \<open>The dispatcher\<close>

text \<open>The rest of the wiring: the reaper.\<close>

definition wire_reaper :: "config \<Rightarrow> reaper" where
  "wire_reaper cfg =
     \<lparr>rp_interval = cfg_reap_interval cfg, rp_stale_after = cfg_reap_stale_after cfg,
      rp_stale_queued_after = cfg_stale_queued_after cfg\<rparr>"

definition wire_dispatcher :: "ext \<Rightarrow> config \<Rightarrow> dispatcher" where
  "wire_dispatcher x cfg =
     wire x (cfg_runner_image cfg) (cfg_runner_runtime cfg) (cfg_webhook_signing_secret cfg)
       (cfg_webhook_allow_private cfg)"

text \<open>
  The goroutines of \<open>Run\<close> take turns: a worker that is still alive handles one pull, or a tick
  reaches the reaper. A worker is gone after its iterator was closed or its context ended. What
  other goroutines do to the tables in the middle of a turn is part of the interference, as
  for every other process.
\<close>

datatype turn = Pull nat pull | ReapTick

fun run_turns :: "ext \<Rightarrow> dispatcher \<Rightarrow> reaper option \<Rightarrow> nat list \<Rightarrow> turn list \<Rightarrow> world \<Rightarrow> world" where
  "run_turns x d rp alive [] w = w"
| "run_turns x d rp alive (ReapTick # ts) w =
     run_turns x d rp alive ts (case rp of None \<Rightarrow> w | Some r \<Rightarrow> snd (reapOnce r w))"
| "run_turns x d rp alive (Pull i p # ts) w =
     (if i \<in> set alive
      then (case worker_turn x d p w of (t, w1) \<Rightarrow>
        run_turns x d rp (if snd t then alive else removeAll i alive) ts w1)
      else run_turns x d rp alive ts w)"

definition Run_dispatcher ::
    "ext \<Rightarrow> dispatcher \<Rightarrow> reaper option \<Rightarrow> nat \<Rightarrow> turn list \<Rightarrow> world \<Rightarrow> unit result \<times> world" where
  "Run_dispatcher x d rp workers ts w =
     (case consumer w of (c, w1) \<Rightarrow>
        case c of
          Inl e \<Rightarrow> (Inl e, w1)
        | Inr _ \<Rightarrow> (nil_err, run_turns x d rp [0..<workers] ts w1))"

text \<open>\<open>if err != nil { log.Fatalf(...) }\<close> after a call, and what follows it otherwise.\<close>

definition or_fatal ::
    "string \<Rightarrow> 'a result \<times> world \<Rightarrow> (world \<Rightarrow> (string + 'b) \<times> world) \<Rightarrow> (string + 'b) \<times> world" where
  "or_fatal msg call rest =
     (case call of (r, w) \<Rightarrow> case r of Inl e \<Rightarrow> (Inl (msg @ err_text e), w) | Inr _ \<Rightarrow> rest w)"

text \<open>\<open>main\<close> up to the call of \<open>Run\<close>; every dependency is required.\<close>

definition dispatcher_boot ::
    "ext \<Rightarrow> (string \<Rightarrow> string) \<Rightarrow> (string \<times> unit stmt) list \<Rightarrow> bool \<Rightarrow> world \<Rightarrow> (string + config) \<times> world" where
  "dispatcher_boot x env ms swapped w =
     (case Load x env of
        Inl e \<Rightarrow> (Inl (''config: '' @ err_text e), w)
      | Inr cfg \<Rightarrow>
         or_fatal ''dispatcher: Postgres unavailable: '' (Connect_store w) (\<lambda>w.
         or_fatal ''dispatcher: migrate: '' (Migrate ms w) (\<lambda>w.
         or_fatal ''dispatcher: NATS unavailable: '' (Connect_nats w) (\<lambda>w.
         or_fatal ''dispatcher: ensure streams: '' (EnsureStreams swapped w) (\<lambda>w.
         or_fatal ''dispatcher: docker client: '' (docker_call w) (\<lambda>w.
         or_fatal (''dispatcher: runner image '' @ cfg_runner_image cfg @ '': '')
           (EnsureImage (NewDockerRunner (cfg_runner_image cfg) (cfg_runner_runtime cfg)) w) (\<lambda>w.
         case Sweep w of (_, w1) \<Rightarrow> (Inr cfg, w1))))))))"

subsection \<open>The dispatcher keeps the rules of the tables\<close>

lemma consumer_safe: "safe db_path d0 w \<Longrightarrow> keeps (safe db_path d0) (consumer w)"
  using path.tick_safe by (auto simp: keeps_def consumer_def Let_def split: prod.split fault.split)

lemma run_turns_safe:
  "safe db_path d0 w \<Longrightarrow> safe db_path d0 (run_turns x (wire x img rt secret ap) rp alive ts w)"
proof (induction ts arbitrary: alive w)
  case Nil
  then show ?case by simp
next
  case (Cons t ts)
  show ?case
  proof (cases t)
    case (Pull i p)
    with Cons.IH Cons.prems live.worker_turn_keeps [OF Cons.prems, of x img rt secret ap p] show ?thesis
      by (auto simp: keeps_def split: prod.split)
  next
    case ReapTick
    with Cons.IH Cons.prems path.reapOnce_keeps [OF Cons.prems] show ?thesis
      by (auto simp: keeps_def split: option.split)
  qed
qed

lemma Run_dispatcher_safe:
  "safe db_path d0 w \<Longrightarrow> keeps (safe db_path d0) (Run_dispatcher x (wire_dispatcher x cfg) rp workers ts w)"
  unfolding Run_dispatcher_def wire_dispatcher_def
  by (intro keeps_bind keeps_rules consumer_safe run_turns_safe)

subsection \<open>Starting up\<close>

lemma or_fatal_keeps:
  "keeps P call \<Longrightarrow> (\<And>w. P w \<Longrightarrow> keeps P (rest w)) \<Longrightarrow> keeps P (or_fatal msg call rest)"
  unfolding or_fatal_def by (intro keeps_bind keeps_sum keeps_ret)

lemma dispatcher_boot_Inr:
  assumes "dispatcher_boot x env ms swapped w = (Inr cfg', w')" and "Load x env = Inr cfg"
  obtains w1 w2 w3 w4 w5 w6 where "Connect_store w = (nil_err, w1)" "Migrate ms w1 = (nil_err, w2)"
    "Connect_nats w2 = (nil_err, w3)" "EnsureStreams swapped w3 = (nil_err, w4)" "w5 = snd (docker_call w4)"
    "w6 = snd (EnsureImage (NewDockerRunner (cfg_runner_image cfg) (cfg_runner_runtime cfg)) w5)"
    "w' = snd (Sweep w6)" "cfg' = cfg"
proof -
  obtain p w1 where p: "Connect_store w = (p, w1)" by (metis prod.exhaust)
  obtain m w2 where m: "Migrate ms w1 = (m, w2)" by (metis prod.exhaust)
  obtain n w3 where n: "Connect_nats w2 = (n, w3)" by (metis prod.exhaust)
  obtain s w4 where s: "EnsureStreams swapped w3 = (s, w4)" by (metis prod.exhaust)
  obtain c w5 where c: "docker_call w4 = (c, w5)" by (metis prod.exhaust)
  obtain i w6 where i: "EnsureImage (NewDockerRunner (cfg_runner_image cfg) (cfg_runner_runtime cfg)) w5 = (i, w6)"
    by (metis prod.exhaust)
  obtain q w7 where q: "Sweep w6 = (q, w7)" by (metis prod.exhaust)
  note run = assms(1) [unfolded dispatcher_boot_def or_fatal_def assms(2) sum.case p m n s c i q prod.case]
  have "p = nil_err" using run by (cases p) simp_all
  moreover from this have "m = nil_err" using run by (cases m) (simp_all add: m)
  ultimately have 1: "p = nil_err" "m = nil_err" by simp_all
  have "n = nil_err" using run 1 by (cases n) (simp_all add: m n)
  moreover from this have "s = nil_err" using run 1 by (cases s) (simp_all add: m n s)
  ultimately have 2: "n = nil_err" "s = nil_err" by simp_all
  have "w' = w7 \<and> cfg' = cfg" using run 1 2 by (cases c; cases i) (simp_all add: m n s c i q)
  with 1 2 p m n s c i q show thesis by (intro that [of w1 w2 w3 w4 w5 w6]) simp_all
qed

text \<open>
  What the calls at start-up leave alone, in steps: predicates that a call to the outside does
  not touch, those that do not depend on the streams, those that do not depend on the
  containers, and those that survive migrations as well.
\<close>

locale call_frame =
  fixes P :: "world \<Rightarrow> bool"
  assumes tick_P: "P w \<Longrightarrow> P (snd (tick w))"
begin

lemma tick_keeps: "P w \<Longrightarrow> keeps P (tick w)"
  by (simp add: keeps_def tick_P)

lemma ping_keeps: "P w \<Longrightarrow> keeps P (ping w)"
  unfolding ping_def by (intro keeps_bind keeps_ret tick_keeps)

lemma connect_keeps: "P w \<Longrightarrow> keeps P (Connect_store w)" "P w \<Longrightarrow> keeps P (Connect_nats w)"
  unfolding Connect_store_def Connect_nats_def by (intro keeps_bind keeps_rules ping_keeps; assumption)+

lemma docker_keeps: "P w \<Longrightarrow> keeps P (docker_call w)"
  unfolding docker_call_def by (intro keeps_bind keeps_ret tick_keeps)

lemma EnsureImage_keeps: "P w \<Longrightarrow> keeps P (EnsureImage r w)"
  unfolding EnsureImage_def by (intro keeps_bind keeps_rules docker_keeps)

end

locale stream_frame = call_frame +
  assumes streams_P: "P w \<Longrightarrow> P (w\<lparr>streams := ss\<rparr>)"
begin

lemma CreateOrUpdateStream_keeps: "P w \<Longrightarrow> keeps P (CreateOrUpdateStream s w)"
  using tick_P [of w] streams_P
  by (auto simp: keeps_def CreateOrUpdateStream_def split: prod.split fault.split)

lemma ensure_all_keeps: "P w \<Longrightarrow> keeps P (ensure_all ss w)"
proof (induction ss arbitrary: w)
  case (Cons a ss)
  obtain n s where a: "a = (n, s)" by (cases a)
  show ?case
    unfolding a ensure_all.simps using Cons.prems
    by (intro keeps_bind keeps_rules CreateOrUpdateStream_keeps Cons.IH)
qed (simp add: keeps_def)

lemma EnsureStreams_keeps: "P w \<Longrightarrow> keeps P (EnsureStreams swapped w)"
  by (simp add: EnsureStreams_def Let_def ensure_all_keeps)

lemma gateway_nats_keeps: "P w \<Longrightarrow> keeps P (gateway_nats cfg swapped w)"
  unfolding gateway_nats_def by (intro keeps_bind keeps_rules connect_keeps EnsureStreams_keeps)

end

locale docker_frame = call_frame +
  assumes containers_P: "P w \<Longrightarrow> P (w\<lparr>containers := c\<rparr>)"
begin

lemma ContainerRemove_P: "P w \<Longrightarrow> P (snd (ContainerRemove n w))"
  using tick_P [of w] containers_P by (auto simp: ContainerRemove_def Let_def split: prod.split)

lemma remove_all_P: "P w \<Longrightarrow> P (remove_all ns w)"
  by (induction ns arbitrary: w) (simp_all add: ContainerRemove_P)

lemma Sweep_keeps: "P w \<Longrightarrow> keeps P (Sweep w)"
  unfolding Sweep_def by (intro keeps_bind keeps_rules docker_keeps remove_all_P)

end

locale boot_frame = docker_frame +
  assumes tx_tick_P: "P w \<Longrightarrow> P (snd (tx_tick w))"
    and db_P: "P w \<Longrightarrow> P (w\<lparr>db := d\<rparr>)"
begin

lemma db_calls_keep:
  assumes "P w"
  shows "keeps P (db_call q w)" "keeps P (tx_begin w)" "keeps P (tx_call t q' w)" "keeps P (tx_commit t w)"
    "P (tx_rollback t w)"
  using tick_P [OF assms] tx_tick_P [OF assms] db_P assms
  by (auto simp: keeps_def db_call_def tx_begin_def tx_call_def tx_commit_def tx_rollback_def
      split: prod.split fault.split)

lemma applyMigration_keeps: "P w \<Longrightarrow> keeps P (applyMigration v q w)"
  unfolding applyMigration_def by (intro keeps_bind keeps_rules db_calls_keep)

lemma apply_all_keeps: "P w \<Longrightarrow> keeps P (apply_all ms w)"
proof (induction ms arbitrary: w)
  case (Cons m ms)
  then show ?case
    unfolding apply_all.simps by (intro keeps_bind keeps_rules applyMigration_keeps Cons.IH)
qed (simp add: keeps_def)

lemma Migrate_keeps: "P w \<Longrightarrow> keeps P (Migrate ms w)"
  unfolding Migrate_def by (intro keeps_bind keeps_rules db_calls_keep apply_all_keeps)

end

text \<open>No container is started and no webhook sent; the streams stay as they are; no record of a migration is lost.\<close>

interpretation idle_stream: stream_frame "idle w0" for w0
  by unfold_locales (simp_all add: idle_def frame)

interpretation idle_boot: boot_frame "idle w0" for w0
  by unfold_locales (simp_all add: idle_def frame)

interpretation stream_boot: boot_frame "\<lambda>w. streams w = ss" for ss
  by unfold_locales (simp_all add: tx_tick_def split: list.split)

interpretation records_stream: stream_frame "safe records_kept d" for d
  by unfold_locales (metis records.tick_safe prod.collapse, simp)

interpretation records_docker: docker_frame "safe records_kept d" for d
  by unfold_locales simp

subsection \<open>Properties\<close>

text \<open>
  Whatever its workers are handed and whenever its reaper ticks, in any order, with
  any failures and any statements of other processes in between, a running dispatcher changes
  the tables by the program's guarded statements alone: the invariant is kept, finished
  executions and submitted requests are untouched. When the consumer cannot be created it
  starts no container.
\<close>

theorem dispatcher_guarantee:
  assumes "obeys db_path w" and "db_ok (db w)"
    and "Run_dispatcher x (wire_dispatcher x cfg) rp workers ts w = (r, w')"
  shows "db_path (db w) (db w') \<and> db_ok (db w') \<and> db_le (db w) (db w') \<and> (r = nil_err \<or> started w' = started w)"
proof -
  have "safe db_path (db w) w'"
    using Run_dispatcher_safe [OF path.safe_start [OF assms(1)], of x cfg rp workers ts] assms(3) by (simp add: keeps_def)
  moreover have "r = nil_err \<or> started w' = started w"
    using consumer_same [OF same_io_refl, of w] assms(3)
    by (auto simp: Run_dispatcher_def keeps_def same_io_def split: prod.splits sum.splits)
  ultimately show ?thesis using assms(2) by (auto simp: safe_def dest: db_path_ok db_path_le)
qed

theorem dispatcher_guarantee_witness:
  "db_ok (db (snd (Run_dispatcher sample_ext (wire_dispatcher sample_ext sample_cfg) (Some (wire_reaper sample_cfg)) 2
     [Pull 0 (Msg (Submit sample_msg)), ReapTick, Pull 1 PullError, Pull 0 Closed] sample_world)))"
  using dispatcher_guarantee [OF _ _ prod.collapse [symmetric]] quiet_obeys(1) sample_db_ok
  by (metis sample_world_sel(1,2))

text \<open>
  Property C14: the gateway serves only what it was configured for. When it reaches the state in which
  it serves, the configuration has loaded; with a database every migration is recorded, whether this replica
  or another one applied it; there is a signing secret unless \<open>ENV\<close> is \<open>development\<close>; and starting
  up has started no container and sent no webhook.
\<close>

theorem gateway_boot_sound:
  assumes "obeys records_kept w" and "list_all (\<lambda>m. script_ok (snd m)) ms"
    and "gateway_main x env migrateOnly ms swapped w = (Serving srv rc, w')"
  shows "\<exists>cfg pool nats. Load x env = Inr cfg \<and> srv = http_server cfg \<and> rc = gateway_router cfg pool nats
    \<and> (pool \<longrightarrow> fst ` set ms \<subseteq> set (schema_migrations (db w')))
    \<and> (env ''ENV'' = ''development'' \<or> rc_jwt_secret rc \<noteq> []) \<and> \<not> migrateOnly \<and> idle w w'"
proof -
  from assms(3) obtain cfg where cfg: "Load x env = Inr cfg" by (auto simp: gateway_main_def split: sum.splits)
  note secret = Load_Inr(1,3) [OF cfg]
  obtain p w1 where p: "Connect_store w = (p, w1)" by (metis prod.exhaust)
  have w1: "safe records_kept (db w) w1" "idle w w1"
    using records_stream.connect_keeps(1) [OF records.safe_start [OF assms(1)]] idle_stream.connect_keeps(1) [OF idle_refl, of w] p
    by (simp_all add: keeps_def)
  have nats: "safe records_kept (db v) v1 \<and> idle w v1" if "obeys records_kept v" "idle w v" "gateway_nats cfg swapped v = (n, v1)" for v n v1
    using records_stream.gateway_nats_keeps [OF records.safe_start [OF that(1)], of cfg swapped]
      idle_stream.gateway_nats_keeps [OF that(2), of cfg swapped] that(3) by (simp add: keeps_def)
  show ?thesis
  proof (cases p)
    case (Inl e)
    obtain n w2 where n: "gateway_nats cfg swapped w1 = (n, w2)" by (metis prod.exhaust)
    with assms(3) cfg p Inl have "srv = http_server cfg" "rc = gateway_router cfg False n" "w' = w2" "\<not> migrateOnly"
      by (auto simp: gateway_main_def split: if_splits)
    with nats [OF _ w1(2) n] w1(1) cfg secret show ?thesis
      by (intro exI [of _ cfg] exI [of _ False] exI [of _ n]) (auto simp: gateway_router_def dest: safe_records)
  next
    case (Inr u)
    obtain m w2 where m: "Migrate ms w1 = (m, w2)" by (metis prod.exhaust)
    obtain n w3 where n: "gateway_nats cfg swapped w2 = (n, w3)" by (metis prod.exhaust)
    from assms(3) cfg p Inr m n have ok: "m = nil_err" "srv = http_server cfg" "rc = gateway_router cfg True n" "w' = w3"
      "\<not> migrateOnly" by (auto simp: gateway_main_def split: if_splits sum.splits)
    from w1(1) have "obeys records_kept w1" by (simp add: safe_def)
    from Migrate_records [OF assms(2) this m [unfolded ok(1)]]
    have "obeys records_kept w2" "fst ` set ms \<subseteq> set (schema_migrations (db w2))" by (simp_all add: safe_def)
    moreover have "idle w w2" using idle_boot.Migrate_keeps [OF w1(2), of ms] m by (simp add: keeps_def)
    ultimately show ?thesis using nats [OF _ _ n] ok cfg secret
      by (intro exI [of _ cfg] exI [of _ True] exI [of _ n]) (auto simp: gateway_router_def dest: safe_records)
  qed
qed

lemma sample_migrated:
  "Migrate [(''1'', \<lambda>t u d. (nil_err, d))] sample_world
   = (nil_err, sample_world\<lparr>db := sample_db\<lparr>schema_migrations := [''1'']\<rparr>\<rparr>)"
proof -
  have "schema_migrations sample_db = []" by (simp add: sample_db_def)
  then show ?thesis
    by (simp add: Migrate_def db_call_quiet create_migrations_table_def applyMigration_def tx_quiet claim_version_def)
qed

theorem gateway_boot_sound_witness:
  "\<exists>srv rc w'. gateway_main sample_ext sample_env False [(''1'', \<lambda>t u d. (nil_err, d))] False sample_world = (Serving srv rc, w')
     \<and> rc_jwt_secret rc \<noteq> [] \<and> started w' = started sample_world"
proof -
  let ?ms = "[(''1'', \<lambda>t u d. (nil_err, d))]"
  obtain n w' where "gateway_nats sample_cfg False (sample_world\<lparr>db := sample_db\<lparr>schema_migrations := [''1'']\<rparr>\<rparr>) = (n, w')"
    by (metis prod.exhaust)
  then have g: "gateway_main sample_ext sample_env False ?ms False sample_world
      = (Serving (http_server sample_cfg) (gateway_router sample_cfg True n), w')"
    by (simp add: gateway_main_def sample_loads Connect_store_def ping_def sample_migrated)
  have "list_all (\<lambda>m. script_ok (snd m)) ?ms" by (simp add: script_ok_def)
  from gateway_boot_sound [OF _ this g] g show ?thesis by (auto simp: quiet_obeys sample_env_def idle_def)
qed

lemma dispatcher_boot_idle: "keeps (idle w) (dispatcher_boot x env ms swapped w)"
proof (cases "Load x env")
  case (Inl e)
  then show ?thesis by (simp add: dispatcher_boot_def keeps_def)
next
  case (Inr cfg)
  note keep = idle_stream.connect_keeps idle_boot.Migrate_keeps idle_stream.EnsureStreams_keeps
    idle_stream.docker_keeps idle_stream.EnsureImage_keeps idle_boot.Sweep_keeps
  show ?thesis
    unfolding dispatcher_boot_def Inr sum.case by (intro or_fatal_keeps keeps_bind keeps_ret keep idle_refl)
qed



end
