(* ===== verification/Serving.thy ===== *)
theory Serving
  imports Startup
begin

section \<open>Serving and stopping\<close>

text \<open>
  The second half of both \<open>main\<close>s: the gateway's listener, the signal that ends it and its graceful
  shutdown (\<open>cmd/gateway/main.go\<close>), the end of the dispatcher (\<open>cmd/dispatcher/main.go\<close>), and what both
  defer: closing the connections. A fatal message ends a process at once, without its deferred
  calls.
\<close>

subsection \<open>Operations\<close>

datatype exit = Running | Exit_fatal string | Exit_clean

text \<open>\<open>Client.Close\<close>: drains the connection, if there is one; errors are ignored.\<close>

definition Close_nats :: "bool \<Rightarrow> world \<Rightarrow> world" where
  "Close_nats connected w = (if connected then snd (tick w) else w)"

definition Close_pool :: "bool \<Rightarrow> world \<Rightarrow> world" where
  "Close_pool connected w = (if connected then snd (tick w) else w)"

definition shutdownTimeout :: int where "shutdownTimeout = 10 * second"

text \<open>\<open>srv.Shutdown\<close> waits for the requests in flight, under a deadline; its error is logged.\<close>

definition Shutdown :: "world \<Rightarrow> world" where
  "Shutdown w = snd (select_until (now w + shutdownTimeout) w)"

text \<open>
  What reaches a listening gateway: a request, an error of \<open>ListenAndServe\<close> other than
  \<open>ErrServerClosed\<close>, or SIGINT or SIGTERM.
\<close>

datatype server_event = Request string "string list" bodies "unit request" | ListenFails string | Signal

fun serve_events ::
    "ext \<Rightarrow> router_config \<Rightarrow> server_event list \<Rightarrow> world \<Rightarrow> (exit \<times> (string \<times> response) list) \<times> world" where
  "serve_events x rc [] w = ((Running, []), w)"
| "serve_events x rc (Request m p b r # es) w =
     (case NewRouter x rc m p b r w of (resp, w1) \<Rightarrow>
        case serve_events x rc es w1 of (a, w2) \<Rightarrow> ((fst a, resp # snd a), w2))"
| "serve_events x rc (ListenFails m # es) w = ((Exit_fatal (''listen: '' @ m), []), w)"
| "serve_events x rc (Signal # es) w =
     ((Exit_clean, []), Close_pool (rc_pool rc) (Close_nats (rc_nats rc) (Shutdown w)))"

definition gateway_process ::
    "ext \<Rightarrow> (string \<Rightarrow> string) \<Rightarrow> bool \<Rightarrow> (string \<times> unit stmt) list \<Rightarrow> bool \<Rightarrow> server_event list \<Rightarrow> world
      \<Rightarrow> (exit \<times> (string \<times> response) list) \<times> world" where
  "gateway_process x env migrateOnly ms swapped es w =
     (case gateway_main x env migrateOnly ms swapped w of (s, w1) \<Rightarrow>
        case s of
          Fatal m \<Rightarrow> ((Exit_fatal m, []), w1)
        | Migrated \<Rightarrow> ((Exit_clean, []), Close_pool True w1)
        | Serving srv rc \<Rightarrow> serve_events x rc es w1)"

text \<open>
  The dispatcher: \<open>Run\<close> returns an error when there is no consumer, or \<open>nil\<close> once its goroutines have
  ended; then the Docker client, NATS and the pool are closed.
\<close>

definition dispatcher_main ::
    "ext \<Rightarrow> (string \<Rightarrow> string) \<Rightarrow> (string \<times> unit stmt) list \<Rightarrow> bool \<Rightarrow> turn list \<Rightarrow> world \<Rightarrow> exit \<times> world" where
  "dispatcher_main x env ms swapped ts w =
     (case dispatcher_boot x env ms swapped w of (b, w1) \<Rightarrow>
        case b of
          Inl m \<Rightarrow> (Exit_fatal m, w1)
        | Inr cfg \<Rightarrow>
            (case Run_dispatcher x (wire_dispatcher x cfg) (Some (wire_reaper cfg)) (nat (cfg_exec_workers cfg)) ts w1 of (r, w2) \<Rightarrow>
               case r of
                 Inl e \<Rightarrow> (Exit_fatal (''dispatcher: '' @ err_text e), w2)
               | Inr _ \<Rightarrow> (Exit_clean, Close_pool True (Close_nats True (snd (docker_call w2))))))"

subsection \<open>What stopping leaves alone\<close>

context call_frame
begin

lemma close_P: "P w \<Longrightarrow> P (Close_nats c w)" "P w \<Longrightarrow> P (Close_pool c w)"
  by (simp_all add: Close_nats_def Close_pool_def tick_P)

end

text \<open>A call of which not even the time is certain.\<close>

locale select_frame = call_frame +
  assumes now_P: "P w \<Longrightarrow> P (w\<lparr>now := t\<rparr>)"
begin

lemma Shutdown_P: "P w \<Longrightarrow> P (Shutdown w)"
  using tick_P [of w] now_P by (cases "tick w") (simp add: Shutdown_def select_until_def)

lemma serve_events_keeps:
  assumes "\<And>m p b r w. P w \<Longrightarrow> keeps P (NewRouter x rc m p b r w)"
  shows "P w \<Longrightarrow> keeps P (serve_events x rc es w)"
proof (induction es arbitrary: w)
  case (Cons e es)
  show ?case
  proof (cases e)
    case (Request m p b r)
    show ?thesis
      unfolding Request serve_events.simps by (intro keeps_bind keeps_ret assms Cons.IH Cons.prems)
  qed (use Cons.prems in \<open>simp_all add: keeps_def close_P Shutdown_P\<close>)
qed (simp add: keeps_def)

end

interpretation idle_select: select_frame "idle w0" for w0
  by unfold_locales (simp_all add: idle_def frame)

interpretation path_select: select_frame "safe db_path d0" for d0
  by unfold_locales (metis path.tick_safe prod.collapse, simp add: safe_def obeys_def)

text \<open>The requests that are answered: those before the end.\<close>

fun answered :: "server_event list \<Rightarrow> nat" where
  "answered (Request m p b r # es) = Suc (answered es)"
| "answered _ = 0"

lemma serve_events_answers:
  "length (snd (fst (serve_events x rc es w))) = answered es"
  "fst (fst (serve_events x rc es w)) = Running \<longleftrightarrow> answered es = length es"
  by (induction es arbitrary: w rule: answered.induct) (simp_all add: case_prod_beta)

subsection \<open>Properties\<close>



text \<open>A dispatcher that ends with a fatal message has started no container and sent no webhook.\<close>

theorem fatal_dispatcher_ran_nothing:
  assumes "dispatcher_main x env ms swapped ts w = (Exit_fatal m, w')"
  shows "idle w w'"
proof -
  obtain b w1 where b: "dispatcher_boot x env ms swapped w = (b, w1)" by (metis prod.exhaust)
  then have w1: "idle w w1" using dispatcher_boot_idle [of w x env ms swapped] by (simp add: keeps_def)
  show ?thesis
  proof (cases b)
    case (Inl e)
    with assms b w1 show ?thesis by (simp add: dispatcher_main_def)
  next
    case (Inr cfg)
    obtain c w2 where c: "consumer w1 = (c, w2)" by (metis prod.exhaust)
    then have "same_io w1 w2" using consumer_same [OF same_io_refl, of w1] by (simp add: keeps_def)
    with w1 have "idle w w2" by (simp add: idle_def same_io_def)
    with assms b Inr c show ?thesis by (cases c) (simp_all add: dispatcher_main_def Run_dispatcher_def)
  qed
qed

end
