(* ===== verification/Spec2Isabelle.thy ===== *)
theory Spec2Isabelle
  imports Execution_Laws Lifecycle Redelivery Serving
begin

text \<open>
  A verification library for Runnix (\<open>src/\<close>), a service that runs untrusted code in containers.

  \<^bold>\<open>The program.\<close> The gateway (\<open>cmd/gateway\<close>, \<open>internal/http\<close>) is an HTTP service over Postgres:
  accounts with rotating refresh tokens, tenants, API keys, and executions. A submit is checked,
  counted against the tenant's quota, stored as a queued row and announced on a JetStream subject;
  the message only names the row. Dispatchers (\<open>cmd/dispatcher\<close>, \<open>internal/dispatcher\<close>) pull
  messages, claim the row by a guarded UPDATE, run its source in a Docker sandbox, store the
  result, publish a summary and send a signed webhook. A reaper fails rows that were stranded
  queued or running. All processes meet in the tables only, so what makes the system correct is
  the guards of its SQL statements and the order in which each process issues them.

  \<^bold>\<open>The model.\<close> Every operation is a function from a \<open>world\<close> (theory World) to its result and the next
  world. The world has the tables as a record of row lists, the clock, everything that was
  published, created, started, sent to a container or POSTed, and a script: one event for each
  call to the outside, saying how long it took, what other processes did to the tables before it,
  whether it failed without effect, failed after taking effect, or succeeded, and what was
  answered. Theorems quantify over the world, hence over every script: all failures, all lost
  answers and all interleavings at the granularity of statements. \<open>obeys R w\<close> says that the others'
  writes stay within the relation \<open>R\<close>: equality when nobody else writes, \<open>db_path\<close> when the others are
  processes of this program; \<open>clear w\<close> says that no answer is ambiguous. Transactions are serialised
  and keep the tables of their beginning for a rollback. Errors are values of a sum type. External
  code (UUIDs, JWT, bcrypt, SHA-256, URL and mail syntax, Unicode lower case, durations) is the
  record \<open>ext\<close>, the first argument of what uses it; what a property needs of it is a hypothesis.
  A call under a context with a deadline is \<open>select_until\<close>: it ends by the deadline, with an answer or
  without.

  \<^bold>\<open>The theories,\<close> in the order of their imports.
  \<^item> Prelude: lemma collections, results, and lists as tables. Go_Strings: the parts of \<open>strings\<close>,
    \<open>strconv\<close>, \<open>unicode/utf8\<close> and \<open>encoding/hex\<close> the program uses, on byte strings.
  \<^item> World: rows (\<open>storedb/models.go\<close>), messages, external code, calls, and \<open>Queries\<close> over the pool or
    over a transaction (\<open>storedb/db.go\<close>). Store: every query of
    \<open>internal/store/storedb\<close> as a function on the tables, with the constraints of the migrations
    that it can violate, and \<open>pgconv.go\<close>. Sample: concrete data on which properties are applied.
  \<^item> Executions: \<open>executions/model.go\<close>; the step relation of one statement (\<open>db_step\<close>), its closure
    \<open>db_path\<close>, the invariant \<open>db_ok\<close> and the order \<open>db_le\<close>. Execution_Laws: what no sequence of
    statements undoes. Guarantee: the locales \<open>rely_guarantee\<close> and \<open>store_client\<close>, which turn facts
    about statements into facts about operations, interpreted for \<open>db_path\<close>, \<open>db_le\<close> and equality.
  \<^item> Messaging: \<open>internal/nats\<close> and the locale \<open>submit_publisher\<close> for \<open>rnats.Publisher\<close>, interpreted by the
    client and by \<open>errPublisher\<close>. Webhooks: \<open>internal/webhooks\<close>. Sandbox: \<open>dispatcher/sandbox.go\<close> and the
    locale \<open>runner\<close>, interpreted by the Docker runner.
  \<^item> Dispatcher: \<open>dispatcher.go\<close> (\<open>finish\<close>, \<open>handle\<close>, \<open>worker\<close>) and the wiring of \<open>cmd/dispatcher\<close>.
    Dispatch_Effect: what handling a message does to the row. Reaper: \<open>reaper.go\<close>. Lifecycle: an
    abstract machine of any number of workers and other processes, and that \<open>handle\<close> refines it.
  \<^item> Quotas: \<open>internal/quotas\<close>. Http: responses and the request with its context. Exec_Handlers:
    \<open>handlers/executions.go\<close>. Auth: \<open>internal/auth\<close>. Middleware: \<open>middleware/tenant.go\<close> and the gate
    of the tenant routes. Key_Handlers: \<open>handlers/apikeys.go\<close>. Tenants: \<open>handlers/tenants.go\<close> and the
    slugs. Sessions, Session_Laws, Accounts: \<open>handlers/auth.go\<close> and \<open>users.go\<close>.
  \<^item> Config: \<open>internal/config\<close>. Gateway: \<open>router.go\<close>, \<open>health.go\<close>, the wiring of \<open>cmd/gateway\<close>, and the
    locale \<open>served\<close> with one interpretation per handler. Migrations: \<open>store/migrate.go\<close>. Streams:
    \<open>EnsureStreams\<close> and the durable consumer. Startup: both \<open>main\<close>s up to serving, the connections they
    open and \<open>Dispatcher.Run\<close>, with locales for what the calls at start-up leave alone. Serving: the
    rest of both \<open>main\<close>s, requests until a signal or a listener's error, and the shutdown.
  \<^item> Redelivery: the worker under the durable consumer. What the server does with answers and
    \<open>MaxDeliver\<close> is the hypothesis \<open>redelivers\<close>; the rest is how the handler, the worker, the consumer's
    settings and the reaper fit together.

  \<^bold>\<open>What is shown.\<close>
  \<^item> Executions: no execution is started twice, however workers interleave, crash and are redelivered
    to; the handler refines the machine this is proved for; a finished row is final; statuses move
    along a graph; an accepted submission is handled on its own row and readable by its tenant;
    whatever crashes leave behind, the reaper ends every execution within the thresholds.
  \<^item> The system: gateways and dispatchers rely on no more of each other than each guarantees, so the
    invariant of the tables holds in every interleaving; what the gateway publishes is what the
    dispatcher consumes.
  \<^item> Dispatcher: every outcome of \<open>handle\<close>; the result that is stored and published is the one that was
    run; storing it survives two failed calls and takes a bounded time; which rows a sweep fails.
  \<^item> Redelivery: no message is acknowledged while its row is still queued; an outage of Docker of
    fewer than five deliveries is survived and a longer one is settled by the reaper; waiting for a
    run ends within \<open>AckWait\<close>, although a silent webhook receiver can outlast it.
  \<^item> Sandbox and webhooks: isolation of every container, bounds of the output, exactly one start per
    run that does not report otherwise; signed, bounded deliveries to public addresses only.
  \<^item> Gateway: quotas hold in every interleaving; every answer of a submit; reads are scoped to the
    tenant; what a request that passes the gate has presented; keys and refresh tokens that were
    revoked or used stay useless for ever; atomic register, create-tenant and refresh; no open tenant
    route outside development; every route keeps the invariant of the tables.
  \<^item> Start-up and serving: a gateway answers what reaches it until it is stopped and nothing later;
    configuration fails closed; migrations are idempotent and complete before a process
    serves, also when several replicas apply them; the dispatcher needs every dependency.

  \<^bold>\<open>Bounds.\<close> Loops are structural recursions on the retries the code allows: 3 attempts of \<open>finish\<close>,
  3 deliveries of a webhook, 5 slugs of a new tenant, 3 keys. The worker, the reaper and \<open>Run\<close> go on
  forever in the code; the model runs them on an arbitrary finite list of pulls, ticks or turns, so a
  property of all their runs is one of every prefix. The loop of \<open>slugify\<close> has a termination proof.
  There is no fuel. The times that matter are proved from the code's deadlines: 60 s for a run, 5 s
  after its kill, 10 s for each webhook attempt, 90 s for \<open>AckWait\<close>.

  \<^bold>\<open>Not modelled.\<close> Logging; JSON syntax, of which the model keeps what a body decodes to and the
  value that is encoded; the SQL of the migration scripts, beyond the constraints of Store; the
  storage of JetStream, so that a worker is handed any sequence of messages, and only Redelivery
  assumes that the server counts deliveries; requests that are still in flight while a gateway
  shuts down, and cancelled request contexts other than as failing calls. Postgres is modelled as
  serialising single statements and transactions, and all hosts share one clock. The Go interfaces
  (\<open>Store\<close>, \<open>Runner\<close>, \<open>Checker\<close>, and others) have no definition of their own: their production
  implementations are modelled and, where a client relies on a contract, it is a locale.
\<close>

section \<open>From submit to result\<close>

lemma CreateExecution_stored:
  assumes "CreateExecution p t u d = (Inr row, d')" and "distinct (map e_id (executions d))"
  obtains tid where "cp_tenant_id p = Some tid" "cr_id row = Some u" "sole_row (new_execution p tid t u) d'"
    "executions d' = executions d @ [new_execution p tid t u]"
proof -
  from assms(1) obtain tid where tid: "cp_tenant_id p = Some tid" "cr_id row = Some u" "u \<notin> e_id ` set (executions d)"
    "executions d' = executions d @ [new_execution p tid t u]"
    by (auto simp: CreateExecution_def split: if_splits option.splits)
  with assms(2) have "sole_row (new_execution p tid t u) d'"
    by (auto simp: sole_row_def new_execution_def)
  with tid that show thesis by blast
qed

text \<open>Reading back a row that is in the table, in a quiet world.\<close>

lemma Get_stored:
  assumes "sole_row row (db w)" and "script w = []" and "requestTenant r \<noteq> []"
    and "x_uuid_parse x (requestTenant r) = Some (e_tenant_id row)" and "x_uuid_parse x (rq_path_id r) = Some (e_id row)"
  shows "Get_execution x r w = (writeJSON 200 (execution_json x (get_row_of row)), w)"
proof -
  have "find (\<lambda>s. e_id s = e_id row \<and> e_tenant_id s = e_tenant_id row) (executions (db w)) = Some row"
    using assms(1) by (auto simp: sole_row_def intro!: find_unique [where k = e_id])
  with assms(2-5) show ?thesis
    by (simp add: Get_execution_def ParsePg_def UUIDToPg_def db_call_quiet GetExecution_def)
qed


text \<open>A submit that was answered 202: the row it stored, the id it told, and the message it queued.\<close>

lemma accepted_stored:
  assumes "\<forall>i. x_uuid_string x i \<noteq> [] \<and> x_uuid_parse x (x_uuid_string x i) = Some i"
    and "obeys (=) w" and "clear w" and "db_ok (db w)"
    and "Create_execution x (new_exec_handler nats secret priv quotas) r w = (resp, w1)" and "rs_code resp = 202"
  obtains req a s row msg where "decodeBody r = Some req" "rs_body resp = JObject [a, (''id'', JString (x_uuid_string x (e_id row))), s]"
    "sole_row row (db w1)" "e_status row = ''queued''" "e_source row = ce_source req" "e_stdin row = ce_stdin req"
    "requestTenant r \<noteq> []" "x_uuid_parse x (requestTenant r) = Some (e_tenant_id row)"
    "claimable x (snd (last (published w1))) = Some (msg, e_id row)"
proof -
  from Create_alone [OF assms(2,3,5)] assms(6) obtain req0 req params crow t u where c:
    "decodeBody r = Some req0" "ce_source req = ce_source req0" "ce_stdin req = ce_stdin req0"
    "requestTenant r \<noteq> []" "exec_params x r (requestTenant r) req = Inr params" "params_ok params"
    "CreateExecution params t u (db w) = (Inr crow, db w1)"
    "rs_body resp = JObject [(''created_at'', JTime (cr_created_at crow)),
       (''id'', JString (PgToString x (cr_id crow))), (''status'', JString (cr_status crow))]"
    "published w1 = published w @ [(SubjectForSubmit (ce_language req), Submit (submit_msg x (requestTenant r) req crow))]"
    by auto
  from assms(4) have "distinct (map e_id (executions (db w)))" by (simp add: db_ok_def)
  from CreateExecution_stored [OF c(7) this] obtain tid where s:
    "cp_tenant_id params = Some tid" "cr_id crow = Some u" "sole_row (new_execution params tid t u) (db w1)" by metis
  let ?row = "new_execution params tid t u"
  have p: "x_uuid_parse x (requestTenant r) = Some tid" "cp_source params = ce_source req"
    "cp_stdin params = ce_stdin req" "cp_language params = ce_language req"
    using c(5) s(1) by (auto simp: exec_params_def ParsePg_def UUIDToPg_def split: option.splits sum.splits)
  have "claimable x (snd (last (published w1))) = Some (submit_msg x (requestTenant r) req crow, e_id ?row)"
    using c(6,9) s(2) p(4) assms(1)
    by (simp add: claimable_def submit_msg_def PgToString_def PgToUUID_def params_ok_def new_execution_def)
  then show thesis
    by (rule that [rotated -1]) (use c(1-4,8) s(2,3) p in \<open>simp_all add: new_execution_def PgToString_def PgToUUID_def\<close>)
qed

text \<open>
  Property C10: an accepted submission is run and its result can be read. When a submit was answered
  202 and nobody else writes to the tables, the last message on the queue makes a dispatcher
  handle exactly the row that was stored for it, with the source and stdin that were
  submitted: it starts one container for it, or none and asks for redelivery. Afterwards the
  tenant that submitted reads, under the id it was told, that row with its current status and
  output. The UUID library is assumed to read back what it prints.
\<close>

theorem submission_served:
  assumes "\<forall>i. x_uuid_string x i \<noteq> [] \<and> x_uuid_parse x (x_uuid_string x i) = Some i"
    and "obeys (=) w" and "clear w" and "db_ok (db w)"
    and "Create_execution x (new_exec_handler nats secret priv quotas) r w = (resp, w1)" and "rs_code resp = 202"
    and "obeys (=) w2" and "clear w2" and "db w2 = db w1"
    and "handle x (wire x img rt wsecret ap) (snd (last (published w1))) w2 = (q, w3)"
    and "script w4 = []" and "db w4 = db w3"
  shows "\<exists>req a s i row row'. decodeBody r = Some req \<and> rs_body resp = JObject [a, (''id'', JString i), s]
    \<and> row \<in> set (executions (db w1)) \<and> e_status row = ''queued''
    \<and> e_source row = ce_source req \<and> e_stdin row = ce_stdin req
    \<and> x_uuid_parse x (requestTenant r) = Some (e_tenant_id row)
    \<and> same_request row row' \<and> outcome x row row' q w2 w3
    \<and> Get_execution x ((plain_request (requestTenant r) None)\<lparr>rq_path_id := i\<rparr>) w4
        = (writeJSON 200 (execution_json x (get_row_of row')), w4)"
proof -
  from assms(2-6) obtain req a s row msg where c: "decodeBody r = Some req"
    "rs_body resp = JObject [a, (''id'', JString (x_uuid_string x (e_id row))), s]"
    "sole_row row (db w1)" "e_status row = ''queued''" "e_source row = ce_source req" "e_stdin row = ce_stdin req"
    "requestTenant r \<noteq> []" "x_uuid_parse x (requestTenant r) = Some (e_tenant_id row)"
    "claimable x (snd (last (published w1))) = Some (msg, e_id row)"
    by (rule accepted_stored [OF assms(1)])
  let ?g = "(plain_request (requestTenant r) None)\<lparr>rq_path_id := x_uuid_string x (e_id row)\<rparr> :: unit request"
  from handle_effect [OF assms(7,8) c(3) [folded assms(9)] c(4,9) assms(10)] assms(9)
  obtain row' where h: "replaces row row' (db w1) (db w3)" "same_request row row'" "outcome x row row' q w2 w3"
    by auto
  have "sole_row row' (db w4)" using sole_row_replaces [OF c(3) h(1)] h(2) assms(12) by (simp add: same_request_def)
  from Get_stored [OF this assms(11), of ?g x] h(2) c(7,8) assms(1)
  have get: "Get_execution x ?g w4 = (writeJSON 200 (execution_json x (get_row_of row')), w4)"
    by (simp add: same_request_def requestTenant_def TenantIDFrom_def plain_request_def)
  have "row \<in> set (executions (db w1))" using c(3) by (simp add: sole_row_def)
  with c(1,2,4-6,8) h(2,3) get show ?thesis by (intro exI conjI)
qed

text \<open>UUIDs printed in unary, which the concrete environment reads back for every UUID.\<close>

definition unary_ext :: ext where
  "unary_ext = sample_ext\<lparr>x_uuid_string := (\<lambda>i. replicate (Suc (unat i)) CHR ''1''),
     x_uuid_parse := (\<lambda>s. if s = [] then None else Some (of_nat (length s - 1)))\<rparr>"

theorem submission_served_witness:
  "\<exists>resp w1 q w3 i b w4. Create_execution unary_ext (new_exec_handler True [] False False)
       (plain_request ''111'' (Some sample_request)) sample_world = (resp, w1)
     \<and> handle unary_ext (wire unary_ext ''img'' ''runsc'' [] False) (snd (last (published w1))) w1 = (q, w3)
     \<and> Get_execution unary_ext ((plain_request ''111'' None)\<lparr>rq_path_id := i\<rparr>) w4 = (writeJSON 200 b, w4)
     \<and> db w4 = db w3"
proof -
  let ?r = "plain_request ''111'' (Some sample_request)"
  have u: "\<forall>i. x_uuid_string unary_ext i \<noteq> [] \<and> x_uuid_parse unary_ext (x_uuid_string unary_ext i) = Some i"
    by (simp add: unary_ext_def)
  have "x_uuid_parse unary_ext ''111'' = Some 2" by (simp add: unary_ext_def)
  then obtain resp w1 where c: "Create_execution unary_ext
      (new_exec_handler True [] False False) ?r sample_world = (resp, w1)" "rs_code resp = 202" "script w1 = []"
    by (rule sample_submit [rotated]) simp_all
  obtain q w3 where h: "handle unary_ext (wire unary_ext ''img'' ''runsc'' [] False) (snd (last (published w1))) w1 = (q, w3)"
    by (metis prod.exhaust)
  have t: "requestTenant ?r = ''111''" by (simp add: plain_request_def requestTenant_def TenantIDFrom_def)
  from submission_served [OF u _ _ _ c(1,2) _ _ refl h, of "w3\<lparr>script := []\<rparr>"] c(3) t
  obtain i b where "Get_execution unary_ext ((plain_request ''111'' None)\<lparr>rq_path_id := i\<rparr>) (w3\<lparr>script := []\<rparr>)
      = (writeJSON 200 b, w3\<lparr>script := []\<rparr>)"
    by (auto simp: quiet_obeys sample_db_ok)
  with c(1) h show ?thesis by (intro exI conjI) (assumption | simp)+
qed

section \<open>The whole system\<close>

text \<open>
  One activity of the system, as a change of the tables: a gateway serves for a while, to its end or
  not, or a dispatcher runs for a while. During each of them any number of other processes issue
  statements.
\<close>

inductive system_step :: "ext \<Rightarrow> db \<Rightarrow> db \<Rightarrow> bool" for x where
  serving: "obeys db_path w \<Longrightarrow> serve_events x (gateway_router cfg pool nats) es w = (a, w') \<Longrightarrow>
    system_step x (db w) (db w')"
| dispatching: "obeys db_path w \<Longrightarrow> Run_dispatcher x (wire_dispatcher x cfg) rp workers ts w = (q, w') \<Longrightarrow>
    system_step x (db w) (db w')"

inductive_cases system_stepE: "system_step x d d'"

lemma system_step_path: "system_step x d d' \<Longrightarrow> db_path d d'"
proof (induction rule: system_step.induct)
  case (serving w cfg pool nats es a w')
  with path_select.serve_events_keeps [OF NewRouter_keeps(1) path.safe_start [OF serving(1)], of x cfg pool nats es] show ?case
    by (simp add: keeps_def safe_def)
next
  case (dispatching w cfg rp workers ts q w')
  with Run_dispatcher_safe [OF path.safe_start [OF dispatching(1)], of x cfg rp workers ts] show ?case
    by (simp add: keeps_def safe_def)
qed

lemma system_steps_path: "(system_step x)\<^sup>*\<^sup>* d d' \<Longrightarrow> db_path d d'"
  by (induction rule: rtranclp_induct) (auto dest: system_step_path intro: path.R_trans path.R_refl)

text \<open>
  Property C4: the processes rely on no more of each other than each of them guarantees. However many
  requests gateways serve and however long dispatchers run, in any order and each with any
  statements of others in between, the tables keep their invariant, no finished
  execution changes, and no submitted request does.
\<close>

theorem system_safe:
  assumes "(system_step x)\<^sup>*\<^sup>* d d'" and "db_ok d"
  shows "db_ok d' \<and> db_le d d' \<and> {r \<in> set (executions d). terminal r} \<subseteq> set (executions d')"
proof -
  note p = system_steps_path [OF assms(1)]
  have "{r \<in> set (executions d). terminal r} \<subseteq> set (executions d')"
    using db_le_terminal [OF db_path_le [OF p]] by blast
  then show ?thesis using db_path_ok [OF p assms(2)] db_path_le [OF p] by simp
qed

theorem system_safe_witness:
  "\<exists>w1 w2. serve_events sample_ext (gateway_router sample_cfg True True)
       [Request ''GET'' [''executions''] no_bodies (plain_request ''2'' None), Signal] sample_world = w1
     \<and> Run_dispatcher sample_ext (wire_dispatcher sample_ext sample_cfg) None 1 [Pull 0 (Msg (Submit sample_msg))]
         (sample_world\<lparr>db := db (snd w1)\<rparr>) = w2
     \<and> db_ok (db (snd w2))"
proof -
  define w1 where "w1 = serve_events sample_ext (gateway_router sample_cfg True True)
    [Request ''GET'' [''executions''] no_bodies (plain_request ''2'' None), Signal] sample_world"
  define v where "v = sample_world\<lparr>db := db (snd w1)\<rparr>"
  define w2 where "w2 = Run_dispatcher sample_ext (wire_dispatcher sample_ext sample_cfg) None 1
    [Pull 0 (Msg (Submit sample_msg))] v"
  have o: "obeys db_path sample_world" "obeys db_path v" by (simp_all add: quiet_obeys v_def)
  have "system_step sample_ext (db sample_world) (db (snd w1))"
    by (rule system_step.serving [OF o(1) w1_def [symmetric, THEN trans, OF prod.collapse [symmetric]]])
  moreover have "system_step sample_ext (db v) (db (snd w2))"
    by (rule system_step.dispatching [OF o(2) w2_def [symmetric, THEN trans, OF prod.collapse [symmetric]]])
  moreover have "db v = db (snd w1)" by (simp add: v_def)
  ultimately have "(system_step sample_ext)\<^sup>*\<^sup>* sample_db (db (snd w2))"
    by (simp add: converse_rtranclp_into_rtranclp)
  from system_safe [OF this sample_db_ok] w1_def w2_def v_def show ?thesis by blast
qed

end
